(* ===== verification/Prelude.thy ===== *)
theory Prelude
  imports Complex_Main "HOL-Library.Word" "HOL-Library.AList"
begin

text \<open>
  The shared vocabulary of the development: Python values, strings, bytes, dictionaries and
  exceptions as HOL types, the helpers of the Python language that several components use
  (truth value of an object, \<open>int.to_bytes\<close>, \<open>int.from_bytes\<close>, UTF-8), and the
  generic interface that the components instantiate: a machine driven by operations that keep an
  invariant (\<open>op_machine\<close>, and \<open>monotone_machine\<close> with a measure that never falls).

  Conventions.  A Python \<open>int\<close> is an \<open>int\<close>, or a \<open>nat\<close> where the code only counts up
  from 0.  A Python \<open>float\<close> (times, rates, ratios) is an exact rational: rounding is not
  modelled.  A Python \<open>str\<close> is the list of bytes of its UTF-8 encoding, as a HOL
  \<open>string\<close>.  A \<open>dict\<close> is an association list in insertion order; \<open>AList.update\<close> has
  exactly the order of Python's item assignment (an existing key keeps its place, a new key goes
  last).  A clock reading is an argument (\<open>now\<close>) of the operation that takes it.
\<close>

section \<open>Rewrite collections\<close>

named_theorems model_defs \<open>definitions of small operations that proofs unfold\<close>
named_theorems inv_intros \<open>one operation keeps the invariant of its component\<close>

section \<open>Python values\<close>

type_synonym byte = "8 word"
type_synonym bytes = "byte list"
type_synonym time = rat

text \<open>The values the code passes as \<open>Any\<close>: what JSON can carry, and raw bytes.\<close>

datatype pyval =
    PNone
  | PBool bool
  | PInt int
  | PFloat rat
  | PStr string
  | PBytes bytes
  | PList "pyval list"
  | PDict "(string \<times> pyval) list"

type_synonym ('k, 'v) dict = "('k \<times> 'v) list"

text \<open>\<open>bool(v)\<close>.\<close>

fun truthy :: "pyval \<Rightarrow> bool" where
  "truthy PNone = False"
| "truthy (PBool b) = b"
| "truthy (PInt i) = (i \<noteq> 0)"
| "truthy (PFloat r) = (r \<noteq> 0)"
| "truthy (PStr s) = (s \<noteq> [])"
| "truthy (PBytes b) = (b \<noteq> [])"
| "truthy (PList xs) = (xs \<noteq> [])"
| "truthy (PDict d) = (d \<noteq> [])"

text \<open>How a call of user code ends: a value, an exception, or \<open>asyncio.CancelledError\<close>.\<close>

datatype outcome = Returned pyval | Raised string | Cancelled

text \<open>\<open>d.get(k)\<close> on a value known to be a dict: None for a missing key.\<close>

definition dict_get :: "(string, pyval) dict \<Rightarrow> string \<Rightarrow> pyval" where
  "dict_get d k = (case map_of d k of None \<Rightarrow> PNone | Some v \<Rightarrow> v)"

definition dict_has :: "('k, 'v) dict \<Rightarrow> 'k \<Rightarrow> bool" where
  "dict_has d k = (map_of d k \<noteq> None)"

lemma dict_has_iff: "dict_has d k \<longleftrightarrow> k \<in> fst ` set d"
  by (simp add: dict_has_def map_of_eq_None_iff)

lemma dict_has_update [simp]: "dict_has (AList.update k v d) k' \<longleftrightarrow> k' = k \<or> dict_has d k'"
  by (auto simp: dict_has_def update_conv')

lemma dict_has_delete [simp]: "dict_has (AList.delete k d) k' \<longleftrightarrow> k' \<noteq> k \<and> dict_has d k'"
  by (auto simp: dict_has_def delete_conv')

lemma length_update_new: "map_of d k = None \<Longrightarrow> length (AList.update k v d) = Suc (length d)"
  by (induction d) (auto split: if_splits)

lemma length_update_old: "map_of d k \<noteq> None \<Longrightarrow> length (AList.update k v d) = length d"
  by (induction d) (auto split: if_splits)

lemma length_delete_dict: "length (AList.delete k d) \<le> length d"
  by (simp add: AList.delete_eq)

lemma distinct_delete_dict: "distinct (map fst d) \<Longrightarrow> distinct (map fst (AList.delete k d))"
  by (rule distinct_delete)

lemma map_fst_update_new:
  "map_of d k = None \<Longrightarrow> AList.update k v d = d @ [(k, v)]"
  by (induction d) (auto split: if_splits)

text \<open>\<open>int(x)\<close> on a float: truncation towards zero.\<close>

definition py_int :: "rat \<Rightarrow> int" where
  "py_int x = (if 0 \<le> x then \<lfloor>x\<rfloor> else - \<lfloor>- x\<rfloor>)"

lemma py_int_of_int [simp]: "py_int (of_int i) = i"
  by (simp add: py_int_def)

text \<open>\<open>int(time.time() * 1000)\<close>.\<close>

definition now_ms :: "time \<Rightarrow> int" where
  "now_ms now = py_int (now * 1000)"

section \<open>Integers as big-endian bytes\<close>

text \<open>The low \<open>n\<close> base-256 digits of \<open>v\<close>, most significant first.\<close>

fun be_digits :: "nat \<Rightarrow> nat \<Rightarrow> bytes" where
  "be_digits 0 v = []"
| "be_digits (Suc n) v = be_digits n (v div 256) @ [of_nat (v mod 256)]"

lemma be_digits_numeral:
  "be_digits (numeral k) v = be_digits (pred_numeral k) (v div 256) @ [of_nat (v mod 256)]"
  by (subst numeral_eq_Suc) simp

text \<open>\<open>int.from_bytes(bs, 'big')\<close>.\<close>

definition from_be :: "bytes \<Rightarrow> nat" where
  "from_be bs = foldl (\<lambda>a b. a * 256 + unat b) 0 bs"

lemma length_be_digits [simp]: "length (be_digits n v) = n"
  by (induction n arbitrary: v) auto

lemma from_be_Nil [simp]: "from_be [] = 0"
  by (simp add: from_be_def)

lemma from_be_snoc [simp]: "from_be (bs @ [b]) = from_be bs * 256 + unat b"
  by (simp add: from_be_def)

lemma from_be_digits: "v < 256 ^ n \<Longrightarrow> from_be (be_digits n v) = v"
proof (induction n arbitrary: v)
  case 0
  then show ?case by simp
next
  case (Suc n)
  from Suc.prems have "v div 256 < 256 ^ n"
    by (simp add: less_mult_imp_div_less mult.commute)
  then have "from_be (be_digits n (v div 256)) = v div 256" by (rule Suc.IH)
  moreover have "unat (of_nat (v mod 256) :: byte) = v mod 256"
    by (simp add: unat_of_nat)
  ultimately show ?case by simp
qed

lemma unat_byte [simp]: "unat (b :: byte) < 256"
  using unsigned_less [of b, where 'a = nat] by simp

lemma from_be_bound: "from_be bs < 256 ^ length bs"
proof (induction bs rule: rev_induct)
  case Nil
  then show ?case by simp
next
  case (snoc b bs)
  from snoc.IH have "(from_be bs + 1) * 256 \<le> 256 ^ length bs * 256"
    by (intro mult_le_mono1) simp
  moreover have "unat b < 256" by simp
  ultimately show ?case by (simp del: unat_byte)
qed

lemma be_digits_from_be: "be_digits (length bs) (from_be bs) = bs"
proof (induction bs rule: rev_induct)
  case Nil
  then show ?case by simp
next
  case (snoc b bs)
  have b: "unat b < 256" by simp
  then have "(from_be bs * 256 + unat b) div 256 = from_be bs"
    and "(from_be bs * 256 + unat b) mod 256 = unat b"
    by simp_all
  with snoc.IH show ?case by simp
qed

text \<open>\<open>v.to_bytes(n, 'big')\<close>: None is OverflowError.\<close>

definition to_bytes_be :: "nat \<Rightarrow> int \<Rightarrow> bytes option" where
  "to_bytes_be n v = (if 0 \<le> v \<and> v < 256 ^ n then Some (be_digits n (nat v)) else None)"

lemma to_bytes_be_Some:
  assumes "to_bytes_be n v = Some bs"
  shows "length bs = n" and "int (from_be bs) = v" and "0 \<le> v" and "v < 256 ^ n"
proof -
  from assms have v: "0 \<le> v" "v < 256 ^ n" and bs: "bs = be_digits n (nat v)"
    by (auto simp: to_bytes_be_def split: if_splits)
  then have "nat v < 256 ^ n" by (simp add: nat_less_iff)
  then show "length bs = n" "int (from_be bs) = v" "0 \<le> v" "v < 256 ^ n"
    using v bs by (simp_all add: from_be_digits)
qed

section \<open>Strings and UTF-8\<close>

text \<open>\<open>s.encode('utf-8')\<close>: a string already is the list of its UTF-8 bytes.\<close>

definition utf8_encode :: "string \<Rightarrow> bytes" where
  "utf8_encode s = map (\<lambda>c. of_nat (of_char c)) s"

definition bytes_str :: "bytes \<Rightarrow> string" where
  "bytes_str bs = map (\<lambda>b. char_of (unat b)) bs"

text \<open>Well-formed UTF-8 (no overlong forms, no surrogates, at most U+10FFFF).\<close>

definition cont :: "nat \<Rightarrow> bool" where
  "cont b = (128 \<le> b \<and> b < 192)"

fun utf8_ok :: "nat list \<Rightarrow> bool" where
  "utf8_ok [] = True"
| "utf8_ok (a # bs) =
     (if a < 128 then utf8_ok bs
      else case bs of
        [] \<Rightarrow> False
      | b # cs \<Rightarrow>
        (if 194 \<le> a \<and> a < 224 then cont b \<and> utf8_ok cs
         else case cs of
           [] \<Rightarrow> False
         | c # ds \<Rightarrow>
           (if 224 \<le> a \<and> a < 240
            then cont b \<and> cont c \<and> (a = 224 \<longrightarrow> 160 \<le> b) \<and> (a = 237 \<longrightarrow> b < 160) \<and> utf8_ok ds
            else case ds of
              [] \<Rightarrow> False
            | d # es \<Rightarrow>
              240 \<le> a \<and> a < 245 \<and> cont b \<and> cont c \<and> cont d
              \<and> (a = 240 \<longrightarrow> 144 \<le> b) \<and> (a = 244 \<longrightarrow> b < 144) \<and> utf8_ok es)))"

text \<open>\<open>bs.decode('utf-8')\<close>: None is UnicodeDecodeError.\<close>

definition utf8_decode :: "bytes \<Rightarrow> string option" where
  "utf8_decode bs = (if utf8_ok (map unat bs) then Some (bytes_str bs) else None)"

definition str_ok :: "string \<Rightarrow> bool" where
  "str_ok s = utf8_ok (map of_char s)"

lemma of_char_byte [simp]: "unat (of_nat (of_char c) :: byte) = of_char c"
proof -
  have "of_char c < (256 :: nat)" by simp
  then show ?thesis by (simp add: unat_of_nat)
qed

lemma bytes_str_encode [simp]: "bytes_str (utf8_encode s) = s"
  by (induction s) (auto simp: bytes_str_def utf8_encode_def)

lemma utf8_decode_encode: "str_ok s \<Longrightarrow> utf8_decode (utf8_encode s) = Some s"
proof -
  have "map unat (utf8_encode s) = map of_char s"
    by (simp add: utf8_encode_def)
  then show "str_ok s \<Longrightarrow> ?thesis"
    by (simp add: utf8_decode_def str_ok_def)
qed

lemma length_utf8_encode [simp]: "length (utf8_encode s) = length s"
  by (simp add: utf8_encode_def)

lemma utf8_encode_Nil_iff [simp]: "utf8_encode s = [] \<longleftrightarrow> s = []"
  by (simp add: utf8_encode_def)

section \<open>Machines driven by operations\<close>

text \<open>
  The interface every stateful component offers to its users: operations applied one after the
  other, each keeping the component's invariant.  What holds after one operation then holds after
  any sequence of them.
\<close>

locale op_machine =
  fixes step :: "'s \<Rightarrow> 'e \<Rightarrow> 's"
    and inv :: "'s \<Rightarrow> bool"
  assumes step_inv: "inv s \<Longrightarrow> inv (step s e)"
begin

lemma run_inv: "inv s \<Longrightarrow> inv (foldl step s es)"
  by (induction es arbitrary: s) (auto intro: step_inv)

lemma prefix_inv: "inv s \<Longrightarrow> inv (foldl step s (take n es))"
  by (rule run_inv)

end

text \<open>A machine with a measure that no operation lowers.\<close>

locale monotone_machine = op_machine +
  fixes level :: "'s \<Rightarrow> 'n :: order"
  assumes step_level: "inv s \<Longrightarrow> level s \<le> level (step s e)"
begin

lemma run_level: "inv s \<Longrightarrow> level s \<le> level (foldl step s es)"
proof (induction es arbitrary: s)
  case Nil
  then show ?case by simp
next
  case (Cons e es)
  have "level s \<le> level (step s e)" by (rule step_level [OF Cons.prems])
  also have "\<dots> \<le> level (foldl step (step s e) es)"
    by (rule Cons.IH [OF step_inv [OF Cons.prems]])
  finally show ?case by simp
qed

end

end
