(* ===== verification/ConnState.thy ===== *)
theory ConnState
  imports Prelude
begin

text \<open>
  The connection life cycle, \<open>src/conduit/transport/connection_state.py\<close>: the states, the table
  of legal transitions, the machine object with its callbacks, and the facts that every machine
  reached by calls of its methods satisfies.  A callback is a value of an arbitrary type;
  notifying it is an entry of the list of calls that \<open>transition_to\<close> returns (the code
  swallows what a callback raises, so a call has no other effect on the machine).
\<close>

section \<open>States and legal transitions\<close>

datatype conn_state =
    DISCONNECTED | CONNECTING | AUTHENTICATING | CONNECTED | ACTIVE | PAUSED
  | CLOSING | CLOSED | FAILED

fun VALID_TRANSITIONS :: "conn_state \<Rightarrow> conn_state list" where
  "VALID_TRANSITIONS DISCONNECTED = [CONNECTING]"
| "VALID_TRANSITIONS CONNECTING = [AUTHENTICATING, CONNECTED, FAILED, DISCONNECTED, CLOSING]"
| "VALID_TRANSITIONS AUTHENTICATING = [CONNECTED, FAILED, DISCONNECTED, CLOSING]"
| "VALID_TRANSITIONS CONNECTED = [ACTIVE, FAILED, DISCONNECTED, CLOSING]"
| "VALID_TRANSITIONS ACTIVE = [PAUSED, CLOSING, DISCONNECTED, FAILED]"
| "VALID_TRANSITIONS PAUSED = [ACTIVE, CLOSING, DISCONNECTED, FAILED]"
| "VALID_TRANSITIONS CLOSING = [CLOSED, DISCONNECTED]"
| "VALID_TRANSITIONS CLOSED = [DISCONNECTED]"
| "VALID_TRANSITIONS FAILED = [DISCONNECTED, CONNECTING]"

datatype transition_error = InvalidStateTransition (from_state: conn_state) (to_state: conn_state)

section \<open>The machine object\<close>

record 'cb ConnectionStateMachine =
  sm_state :: conn_state
  sm_previous_state :: "conn_state option"
  sm_callbacks :: "'cb list"
  sm_transition_count :: nat
  sm_error_message :: "string option"

definition new_state_machine :: "'cb ConnectionStateMachine" where
  "new_state_machine =
     \<lparr>sm_state = DISCONNECTED, sm_previous_state = None, sm_callbacks = [],
      sm_transition_count = 0, sm_error_message = None\<rparr>"

text \<open>The property \<open>error_message\<close> hides the message outside FAILED.\<close>

definition error_message :: "'cb ConnectionStateMachine \<Rightarrow> string option" where
  "error_message m = (if sm_state m = FAILED then sm_error_message m else None)"

definition can_transition_to :: "'cb ConnectionStateMachine \<Rightarrow> conn_state \<Rightarrow> bool" where
  "can_transition_to m new = (new \<in> set (VALID_TRANSITIONS (sm_state m)))"

text \<open>One notified callback, with the two states it is called with.\<close>

type_synonym 'cb state_call = "'cb \<times> conn_state \<times> conn_state"

definition transition_to ::
  "'cb ConnectionStateMachine \<Rightarrow> conn_state \<Rightarrow> string option
     \<Rightarrow> transition_error + ('cb ConnectionStateMachine \<times> 'cb state_call list)" where
  "transition_to m new err =
     (if new = sm_state m then Inr (m, [])
      else if \<not> can_transition_to m new then Inl (InvalidStateTransition (sm_state m) new)
      else
        (let old = sm_state m;
             m' = m\<lparr>sm_previous_state := Some old, sm_state := new,
                    sm_transition_count := sm_transition_count m + 1,
                    sm_error_message := (if new = FAILED then err else None)\<rparr>
         in Inr (m', map (\<lambda>cb. (cb, old, new)) (sm_callbacks m))))"

definition on_state_change ::
  "'cb ConnectionStateMachine \<Rightarrow> 'cb \<Rightarrow> 'cb ConnectionStateMachine" where
  "on_state_change m cb = m\<lparr>sm_callbacks := sm_callbacks m @ [cb]\<rparr>"

text \<open>\<open>list.remove\<close> takes the first equal entry out, or raises ValueError.\<close>

definition remove_callback ::
  "'cb ConnectionStateMachine \<Rightarrow> 'cb \<Rightarrow> 'cb ConnectionStateMachine \<times> bool" where
  "remove_callback m cb =
     (if cb \<in> set (sm_callbacks m)
      then (m\<lparr>sm_callbacks := remove1 cb (sm_callbacks m)\<rparr>, True)
      else (m, False))"

text \<open>\<open>reset\<close> keeps the callbacks and the transition count.\<close>

definition reset_machine :: "'cb ConnectionStateMachine \<Rightarrow> 'cb ConnectionStateMachine" where
  "reset_machine m =
     m\<lparr>sm_state := DISCONNECTED, sm_previous_state := None, sm_error_message := None\<rparr>"

subsection \<open>The named transitions and the state checks\<close>

definition start_connecting where
  "start_connecting m = transition_to m CONNECTING None"
definition start_authenticating where
  "start_authenticating m = transition_to m AUTHENTICATING None"
definition mark_connected where
  "mark_connected m = transition_to m CONNECTED None"
definition mark_active where
  "mark_active m = transition_to m ACTIVE None"
definition machine_pause where
  "machine_pause m = transition_to m PAUSED None"
definition machine_resume where
  "machine_resume m = transition_to m ACTIVE None"
definition start_closing where
  "start_closing m = transition_to m CLOSING None"
definition mark_closed where
  "mark_closed m = transition_to m CLOSED None"
definition mark_failed where
  "mark_failed m reason = transition_to m FAILED (Some reason)"
definition mark_disconnected where
  "mark_disconnected m = transition_to m DISCONNECTED None"

definition machine_is_connected :: "'cb ConnectionStateMachine \<Rightarrow> bool" where
  "machine_is_connected m = (sm_state m \<in> {CONNECTED, ACTIVE, PAUSED})"
definition machine_is_active :: "'cb ConnectionStateMachine \<Rightarrow> bool" where
  "machine_is_active m = (sm_state m = ACTIVE)"
definition machine_is_paused :: "'cb ConnectionStateMachine \<Rightarrow> bool" where
  "machine_is_paused m = (sm_state m = PAUSED)"
definition machine_is_disconnected :: "'cb ConnectionStateMachine \<Rightarrow> bool" where
  "machine_is_disconnected m = (sm_state m = DISCONNECTED)"
definition machine_is_failed :: "'cb ConnectionStateMachine \<Rightarrow> bool" where
  "machine_is_failed m = (sm_state m = FAILED)"
definition can_send :: "'cb ConnectionStateMachine \<Rightarrow> bool" where
  "can_send m = (sm_state m = ACTIVE)"
definition can_receive :: "'cb ConnectionStateMachine \<Rightarrow> bool" where
  "can_receive m = (sm_state m \<in> {ACTIVE, PAUSED})"

lemmas named_transition_defs =
  start_connecting_def start_authenticating_def mark_connected_def mark_active_def
  machine_pause_def machine_resume_def start_closing_def mark_closed_def mark_failed_def
  mark_disconnected_def

section \<open>Every machine a caller can reach\<close>

text \<open>One call of a method that returns; a call that raises leaves the object as it was.\<close>

inductive machine_step :: "'cb ConnectionStateMachine \<Rightarrow> 'cb ConnectionStateMachine \<Rightarrow> bool" where
  step_transition: "transition_to m new err = Inr (m', calls) \<Longrightarrow> machine_step m m'"
| step_register: "machine_step m (on_state_change m cb)"
| step_remove: "remove_callback m cb = (m', found) \<Longrightarrow> machine_step m m'"
| step_reset: "machine_step m (reset_machine m)"

inductive machine_reachable :: "'cb ConnectionStateMachine \<Rightarrow> bool" where
  reach_new: "machine_reachable new_state_machine"
| reach_step: "machine_reachable m \<Longrightarrow> machine_step m m' \<Longrightarrow> machine_reachable m'"

inductive_cases machine_stepE: "machine_step m m'"

lemma transition_to_Inr:
  assumes "transition_to m new err = Inr (m', calls)" and "new \<noteq> sm_state m"
  shows "new \<in> set (VALID_TRANSITIONS (sm_state m))" and "sm_state m' = new"
    and "sm_previous_state m' = Some (sm_state m)"
    and "sm_transition_count m' = Suc (sm_transition_count m)"
    and "sm_error_message m' = (if new = FAILED then err else None)"
    and "sm_callbacks m' = sm_callbacks m"
    and "calls = map (\<lambda>cb. (cb, sm_state m, new)) (sm_callbacks m)"
  using assms by (auto simp: transition_to_def can_transition_to_def Let_def split: if_splits)

lemma transition_to_same: "transition_to m (sm_state m) err = Inr (m, [])"
  by (simp add: transition_to_def)

definition machine_inv :: "'cb ConnectionStateMachine \<Rightarrow> bool" where
  "machine_inv m \<longleftrightarrow>
     (\<forall>p. sm_previous_state m = Some p \<longrightarrow> sm_state m \<in> set (VALID_TRANSITIONS p))
     \<and> (sm_previous_state m = None \<longrightarrow> sm_state m = DISCONNECTED)
     \<and> (sm_error_message m \<noteq> None \<longrightarrow> sm_state m = FAILED)"

lemma machine_inv_new: "machine_inv new_state_machine"
  by (simp add: machine_inv_def new_state_machine_def)

lemma transition_to_inv:
  assumes "machine_inv m" and "transition_to m new err = Inr (m', calls)"
  shows "machine_inv m'"
proof (cases "new = sm_state m")
  case True
  with assms show ?thesis by (simp add: transition_to_same)
next
  case False
  show ?thesis
    using transition_to_Inr [OF assms(2) False] by (simp add: machine_inv_def split: if_splits)
qed

lemma machine_step_inv: "machine_step m m' \<Longrightarrow> machine_inv m \<Longrightarrow> machine_inv m'"
proof (induction rule: machine_step.induct)
  case (step_transition m new err m' calls)
  then show ?case by (blast intro: transition_to_inv)
qed (auto simp: machine_inv_def on_state_change_def remove_callback_def reset_machine_def
    split: if_splits)

lemma reachable_machine_inv: "machine_reachable m \<Longrightarrow> machine_inv m"
  by (induction rule: machine_reachable.induct) (auto intro: machine_inv_new machine_step_inv)

section \<open>Paths through the transition table\<close>

fun legal_path :: "conn_state \<Rightarrow> conn_state list \<Rightarrow> bool" where
  "legal_path s [] = True"
| "legal_path s (t # ts) = (t \<in> set (VALID_TRANSITIONS s) \<and> legal_path t ts)"

text \<open>The states before CONNECTED is entered.\<close>

definition before_connected :: "conn_state \<Rightarrow> bool" where
  "before_connected s = (s \<notin> {CONNECTED, ACTIVE, PAUSED})"

lemma enter_connected:
  assumes "before_connected s" and "t \<in> set (VALID_TRANSITIONS s)" and "t \<noteq> CONNECTED"
  shows "before_connected t"
  using assms by (cases s) (auto simp: before_connected_def)

lemma path_before_connected:
  "before_connected s \<Longrightarrow> legal_path s ts \<Longrightarrow> CONNECTED \<notin> set ts \<Longrightarrow> t \<in> set (s # ts)
     \<Longrightarrow> before_connected t"
proof (induction ts arbitrary: s)
  case Nil
  then show ?case by simp
next
  case (Cons u us)
  have u: "before_connected u"
    by (rule enter_connected [of s]) (use Cons.prems in auto)
  show ?case
  proof (cases "t = s")
    case True
    with Cons.prems show ?thesis by simp
  next
    case False
    with Cons.prems show ?thesis by (intro Cons.IH [OF u]) auto
  qed
qed

text \<open>A machine follows a list of targets by calling \<open>transition_to\<close> for each.\<close>

fun follow :: "'cb ConnectionStateMachine \<Rightarrow> conn_state list
    \<Rightarrow> transition_error + 'cb ConnectionStateMachine" where
  "follow m [] = Inr m"
| "follow m (t # ts) =
     (case transition_to m t None of Inl e \<Rightarrow> Inl e | Inr (m', _) \<Rightarrow> follow m' ts)"

lemma transition_to_legal:
  assumes "t \<in> set (VALID_TRANSITIONS (sm_state m))"
  shows "\<exists>m' calls. transition_to m t err = Inr (m', calls) \<and> sm_state m' = t"
  using assms by (auto simp: transition_to_def can_transition_to_def Let_def)

lemma follow_legal:
  "legal_path (sm_state m) ts \<Longrightarrow> \<exists>m'. follow m ts = Inr m' \<and> sm_state m' = last (sm_state m # ts)"
proof (induction ts arbitrary: m)
  case Nil
  then show ?case by simp
next
  case (Cons t ts)
  then have "t \<in> set (VALID_TRANSITIONS (sm_state m))" and path: "legal_path t ts" by simp_all
  then obtain m1 calls where m1: "transition_to m t None = Inr (m1, calls)" "sm_state m1 = t"
    using transition_to_legal by blast
  from Cons.IH [of m1] path m1 obtain m' where
    "follow m1 ts = Inr m'" "sm_state m' = last (sm_state m1 # ts)"
    by auto
  with m1 show ?case by simp
qed

fun way_home :: "conn_state \<Rightarrow> conn_state list" where
  "way_home DISCONNECTED = []"
| "way_home s = [DISCONNECTED]"

section \<open>What an observer is told\<close>

text \<open>A request whose exception the caller catches, and a run of requests with all its calls.\<close>

definition request :: "'cb ConnectionStateMachine \<Rightarrow> conn_state \<times> string option
    \<Rightarrow> 'cb ConnectionStateMachine \<times> 'cb state_call list" where
  "request m r = (case transition_to m (fst r) (snd r) of Inl e \<Rightarrow> (m, []) | Inr res \<Rightarrow> res)"

fun request_all :: "'cb ConnectionStateMachine \<Rightarrow> (conn_state \<times> string option) list
    \<Rightarrow> 'cb ConnectionStateMachine \<times> 'cb state_call list" where
  "request_all m [] = (m, [])"
| "request_all m (r # rs) =
     (let (m1, cs1) = request m r; (m2, cs2) = request_all m1 rs in (m2, cs1 @ cs2))"

definition calls_of :: "'cb \<Rightarrow> 'cb state_call list \<Rightarrow> (conn_state \<times> conn_state) list" where
  "calls_of cb calls = map snd (filter (\<lambda>c. fst c = cb) calls)"

fun chained :: "conn_state \<Rightarrow> (conn_state \<times> conn_state) list \<Rightarrow> conn_state \<Rightarrow> bool" where
  "chained s [] t = (s = t)"
| "chained s ((a, b) # ps) t = (a = s \<and> b \<in> set (VALID_TRANSITIONS s) \<and> chained b ps t)"

lemma calls_of_append [simp]: "calls_of cb (xs @ ys) = calls_of cb xs @ calls_of cb ys"
  by (simp add: calls_of_def)

lemma chained_append: "chained s ps u \<Longrightarrow> chained u qs t \<Longrightarrow> chained s (ps @ qs) t"
  by (induction s ps u rule: chained.induct) auto

lemma calls_of_notify:
  "calls_of cb (map (\<lambda>c. (c, a, b)) cbs) = replicate (count_list cbs cb) (a, b)"
  by (induction cbs) (auto simp: calls_of_def)

lemma request_observed:
  assumes "request m r = (m', calls)" and "count_list (sm_callbacks m) cb = 1"
  shows "chained (sm_state m) (calls_of cb calls) (sm_state m')"
    and "sm_transition_count m' = sm_transition_count m + length (calls_of cb calls)"
    and "sm_callbacks m' = sm_callbacks m"
  using assms
  by (auto simp: request_def transition_to_def can_transition_to_def Let_def calls_of_notify
      calls_of_def [of _ "[]"] split: if_splits)

lemma request_all_observed:
  assumes "request_all m rs = (m', calls)" and "count_list (sm_callbacks m) cb = 1"
  shows "chained (sm_state m) (calls_of cb calls) (sm_state m')
    \<and> sm_transition_count m' = sm_transition_count m + length (calls_of cb calls)"
  using assms
proof (induction rs arbitrary: m m' calls)
  case Nil
  then show ?case by (simp add: calls_of_def)
next
  case (Cons r rs)
  obtain m1 cs1 where 1: "request m r = (m1, cs1)" by fastforce
  obtain m2 cs2 where 2: "request_all m1 rs = (m2, cs2)" by fastforce
  from Cons.prems(1) 1 2 have eq: "m' = m2" "calls = cs1 @ cs2" by auto
  note o = request_observed [OF 1 Cons.prems(2)]
  from Cons.IH [OF 2] o(3) Cons.prems(2)
  have "chained (sm_state m1) (calls_of cb cs2) (sm_state m2)"
    and "sm_transition_count m2 = sm_transition_count m1 + length (calls_of cb cs2)"
    by auto
  with o eq show ?case by (auto intro: chained_append)
qed

section \<open>Properties\<close>

text \<open>
  C12. In every connection state machine that calls of its methods can produce, the previous state
  and the current state are joined by an entry of the transition table (or the machine is fresh
  and DISCONNECTED), and an error message is stored only in FAILED.
\<close>

theorem reachable_machine_consistent:
  assumes "machine_reachable m"
  shows "(case sm_previous_state m of
            None \<Rightarrow> sm_state m = DISCONNECTED
          | Some p \<Rightarrow> sm_state m \<in> set (VALID_TRANSITIONS p))
         \<and> (sm_error_message m \<noteq> None \<longrightarrow> sm_state m = FAILED)
         \<and> error_message m = sm_error_message m"
  using reachable_machine_inv [OF assms]
  by (auto simp: machine_inv_def error_message_def split: option.splits)

theorem reachable_machine_consistent_witness:
  "\<exists>m :: nat ConnectionStateMachine. machine_reachable m \<and> sm_state m = FAILED
     \<and> error_message m = Some ''refused'' \<and> error_message m = sm_error_message m"
proof -
  let ?a = "on_state_change new_state_machine (7 :: nat)"
  let ?b = "?a\<lparr>sm_previous_state := Some DISCONNECTED, sm_state := CONNECTING,
              sm_transition_count := 1\<rparr>"
  let ?c = "?b\<lparr>sm_previous_state := Some CONNECTING, sm_state := FAILED,
              sm_transition_count := 2, sm_error_message := Some ''refused''\<rparr>"
  have "machine_reachable ?a"
    by (rule reach_step [OF reach_new step_register])
  moreover have "transition_to ?a CONNECTING None = Inr (?b, [(7, DISCONNECTED, CONNECTING)])"
    by (simp add: transition_to_def can_transition_to_def on_state_change_def
        new_state_machine_def Let_def)
  ultimately have "machine_reachable ?b" by (blast intro: reach_step step_transition)
  moreover have "transition_to ?b FAILED (Some ''refused'') = Inr (?c, [(7, CONNECTING, FAILED)])"
    by (simp add: transition_to_def can_transition_to_def on_state_change_def
        new_state_machine_def Let_def numeral_2_eq_2)
  ultimately have r: "machine_reachable ?c" by (blast intro: reach_step step_transition)
  from reachable_machine_consistent [OF r] have "error_message ?c = sm_error_message ?c" by blast
  with r show ?thesis by (intro exI [of _ ?c]) simp
qed

text \<open>
  Observers see every change: whatever targets are requested, one after the other (a request
  that the table forbids raises and changes nothing), a callback registered once before the run is
  called with a chain of state pairs that starts in the initial state, follows the table, ends in
  the final state, and has one pair for each transition the machine counted.
\<close>

lemma observer_sees_every_transition:
  assumes "request_all m reqs = (m', calls)" and "count_list (sm_callbacks m) cb = 1"
  shows "chained (sm_state m) (calls_of cb calls) (sm_state m')
         \<and> length (calls_of cb calls) = sm_transition_count m' - sm_transition_count m"
  using request_all_observed [OF assms] by auto

text \<open>
  A connection cannot become able to send or receive without having been CONNECTED: every
  legal path from DISCONNECTED to a state in which \<open>can_receive\<close> (and so \<open>can_send\<close>)
  holds visits CONNECTED.
\<close>

lemma active_only_through_connected:
  assumes "legal_path DISCONNECTED ts" and "t \<in> set ts"
    and "can_receive (m\<lparr>sm_state := t\<rparr>)"
  shows "CONNECTED \<in> set ts"
proof (rule ccontr)
  assume "CONNECTED \<notin> set ts"
  with assms(1,2) have "before_connected t"
    using path_before_connected [of DISCONNECTED ts t] by (simp add: before_connected_def)
  with assms(3) show False by (auto simp: before_connected_def can_receive_def)
qed

text \<open>
  No state is a trap: from every state the machine can be brought back to DISCONNECTED by at
  most one call of \<open>transition_to\<close>, and none of these calls raises.
\<close>

lemma every_state_can_disconnect:
  "\<exists>m'. follow m (way_home (sm_state m)) = Inr m' \<and> sm_state m' = DISCONNECTED
        \<and> length (way_home (sm_state m)) \<le> 1"
proof -
  have "legal_path (sm_state m) (way_home (sm_state m))"
    by (cases "sm_state m") auto
  from follow_legal [OF this] obtain m' where
    m': "follow m (way_home (sm_state m)) = Inr m'"
    "sm_state m' = last (sm_state m # way_home (sm_state m))"
    by blast
  have home: "last (sm_state m # way_home (sm_state m)) = DISCONNECTED"
    by (cases "sm_state m") auto
  have "length (way_home (sm_state m)) \<le> 1"
    by (cases "sm_state m") auto
  with m' home show ?thesis by (intro exI [of _ m'] conjI) (simp_all only:)
qed

end
