(* ===== verification/Format.thy ===== *)
theory Format
  imports Prelude
begin

unbundle bit_operations_syntax

text \<open>
  The wire vocabulary of \<open>src/conduit/protocol/format.py\<close>: constants, byte orders, message
  types, flags, stream identifiers, and the 32-byte message header with its packing and unpacking.
  \<open>struct.pack\<close> raises \<open>struct.error\<close> for a value that does not fit its field; that is the
  value None here.
\<close>

section \<open>Constants\<close>

definition MAGIC :: bytes where "MAGIC = utf8_encode ''CNDT''"
definition HEADER_SIZE :: nat where "HEADER_SIZE = 32"
definition MAX_PAYLOAD_SIZE :: int where "MAX_PAYLOAD_SIZE = 100 * 1024 * 1024"
definition PROTOCOL_VERSION :: int where "PROTOCOL_VERSION = 0x0100"

section \<open>Byte order of raw binary fields\<close>

datatype ByteOrder = BE | LE

definition to_struct_prefix :: "ByteOrder \<Rightarrow> string" where
  "to_struct_prefix o1 = (if o1 = LE then ''<'' else ''>'')"

text \<open>\<open>struct.pack('<I', v)\<close> and its kin: \<open>n\<close> bytes in the given order.\<close>

definition pack_uint :: "ByteOrder \<Rightarrow> nat \<Rightarrow> int \<Rightarrow> bytes option" where
  "pack_uint o1 n v = map_option (if o1 = LE then rev else id) (to_bytes_be n v)"

text \<open>
  \<open>struct.unpack_from(fmt, data, offset)[0]\<close>: a negative offset counts from the end; too few
  bytes after it is \<open>struct.error\<close>.
\<close>

definition unpack_uint :: "ByteOrder \<Rightarrow> nat \<Rightarrow> bytes \<Rightarrow> int \<Rightarrow> int option" where
  "unpack_uint o1 n dat offset =
     (let off = (if offset < 0 then offset + int (length dat) else offset)
      in if off < 0 \<or> int (length dat) - off < int n then None
         else let field = take n (drop (nat off) dat)
              in Some (int (from_be (if o1 = LE then rev field else field))))"

definition pack_u32 :: "ByteOrder \<Rightarrow> int \<Rightarrow> bytes option" where
  "pack_u32 o1 v = pack_uint o1 4 v"
definition pack_u64 :: "ByteOrder \<Rightarrow> int \<Rightarrow> bytes option" where
  "pack_u64 o1 v = pack_uint o1 8 v"
definition unpack_u32 :: "ByteOrder \<Rightarrow> bytes \<Rightarrow> int \<Rightarrow> int option" where
  "unpack_u32 o1 dat offset = unpack_uint o1 4 dat offset"
definition unpack_u64 :: "ByteOrder \<Rightarrow> bytes \<Rightarrow> int \<Rightarrow> int option" where
  "unpack_u64 o1 dat offset = unpack_uint o1 8 dat offset"

lemma unpack_pack_uint:
  assumes "pack_uint o1 n v = Some bs"
  shows "unpack_uint o1 n (pre @ bs @ post) (int (length pre)) = Some v"
proof -
  from assms obtain d where d: "to_bytes_be n v = Some d" and bs: "bs = (if o1 = LE then rev d else d)"
    by (auto simp: pack_uint_def)
  note facts = to_bytes_be_Some [OF d]
  have "length bs = n" using facts bs by simp
  then have "take n (drop (nat (int (length pre))) (pre @ bs @ post)) = bs" by simp
  with facts bs \<open>length bs = n\<close> show ?thesis
    by (auto simp: unpack_uint_def Let_def)
qed

section \<open>Message types and flags\<close>

datatype MessageType =
    MESSAGE | RPC_REQUEST | RPC_RESPONSE | RPC_ERROR | HEARTBEAT_PING | HEARTBEAT_PONG
  | AUTH_REQUEST | AUTH_SUCCESS | AUTH_FAILURE | PAUSE | RESUME | ACK | NACK | CLOSE
  | CLOSE_ACK | RPC_LIST

text \<open>\<open>int(t)\<close>.\<close>

fun MessageType_value :: "MessageType \<Rightarrow> int" where
  "MessageType_value MESSAGE = 0x0001"
| "MessageType_value RPC_REQUEST = 0x0002"
| "MessageType_value RPC_RESPONSE = 0x0003"
| "MessageType_value RPC_ERROR = 0x0004"
| "MessageType_value HEARTBEAT_PING = 0x0005"
| "MessageType_value HEARTBEAT_PONG = 0x0006"
| "MessageType_value AUTH_REQUEST = 0x0007"
| "MessageType_value AUTH_SUCCESS = 0x0008"
| "MessageType_value AUTH_FAILURE = 0x0009"
| "MessageType_value PAUSE = 0x000A"
| "MessageType_value RESUME = 0x000B"
| "MessageType_value ACK = 0x000C"
| "MessageType_value NACK = 0x000D"
| "MessageType_value CLOSE = 0x000E"
| "MessageType_value CLOSE_ACK = 0x000F"
| "MessageType_value RPC_LIST = 0x0010"

definition all_message_types :: "MessageType list" where
  "all_message_types =
     [MESSAGE, RPC_REQUEST, RPC_RESPONSE, RPC_ERROR, HEARTBEAT_PING, HEARTBEAT_PONG,
      AUTH_REQUEST, AUTH_SUCCESS, AUTH_FAILURE, PAUSE, RESUME, ACK, NACK, CLOSE,
      CLOSE_ACK, RPC_LIST]"

text \<open>\<open>MessageType(i)\<close>: None is ValueError.\<close>

definition MessageType_of :: "int \<Rightarrow> MessageType option" where
  "MessageType_of i = find (\<lambda>t. MessageType_value t = i) all_message_types"

lemma in_all_message_types [simp]: "t \<in> set all_message_types"
  by (cases t) (simp_all add: all_message_types_def)

lemma MessageType_value_inj: "MessageType_value a = MessageType_value b \<Longrightarrow> a = b"
  by (cases a; cases b; simp)

lemma MessageType_of_value [simp]: "MessageType_of (MessageType_value t) = Some t"
  by (cases t) (simp_all add: MessageType_of_def all_message_types_def)

lemma MessageType_of_Some: "MessageType_of i = Some t \<longleftrightarrow> MessageType_value t = i"
proof
  assume "MessageType_of i = Some t"
  then show "MessageType_value t = i"
    by (auto simp: MessageType_of_def find_Some_iff)
qed auto

lemma MessageType_of_None: "MessageType_of i = None \<longleftrightarrow> i < 1 \<or> 16 < i"
proof -
  have "MessageType_of i \<noteq> None \<longleftrightarrow> i \<in> set (map MessageType_value all_message_types)"
    by (auto simp: MessageType_of_def find_None_iff)
  moreover have "set (map MessageType_value all_message_types) = {1..16}"
  proof -
    have "{1..16 :: int} = set [1..16]" by (simp only: set_upto)
    also have "[1..16 :: int] = [1, 2, 3, 4, 5, 6, 7, 8, 9, 10, 11, 12, 13, 14, 15, 16]"
      by (simp add: upto_rec1)
    finally show ?thesis by (simp add: all_message_types_def)
  qed
  ultimately show ?thesis by auto
qed

definition FLAG_NONE :: int where "FLAG_NONE = 0x0000"
definition FLAG_COMPRESSED :: int where "FLAG_COMPRESSED = 0x0001"
definition FLAG_ENCRYPTED :: int where "FLAG_ENCRYPTED = 0x0002"
definition FLAG_REQUIRE_ACK :: int where "FLAG_REQUIRE_ACK = 0x0004"
definition FLAG_PRIORITY :: int where "FLAG_PRIORITY = 0x0008"
definition FLAG_FRAGMENT :: int where "FLAG_FRAGMENT = 0x0010"
definition FLAG_LAST_FRAGMENT :: int where "FLAG_LAST_FRAGMENT = 0x0020"
definition FLAG_BINARY :: int where "FLAG_BINARY = 0x0040"
definition FLAG_CODEC_LZ4 :: int where "FLAG_CODEC_LZ4 = 0x0080"
definition FLAG_CODEC_ZSTD :: int where "FLAG_CODEC_ZSTD = 0x0100"
definition FLAG_ORDERED :: int where "FLAG_ORDERED = 0x0200"
definition FLAG_BYTE_ORDER_LE :: int where "FLAG_BYTE_ORDER_LE = 0x0400"

lemmas flag_defs =
  FLAG_NONE_def FLAG_COMPRESSED_def FLAG_ENCRYPTED_def FLAG_REQUIRE_ACK_def FLAG_PRIORITY_def
  FLAG_FRAGMENT_def FLAG_LAST_FRAGMENT_def FLAG_BINARY_def FLAG_CODEC_LZ4_def
  FLAG_CODEC_ZSTD_def FLAG_ORDERED_def FLAG_BYTE_ORDER_LE_def

text \<open>\<open>bool(flags & f)\<close>.\<close>

definition has_flag :: "int \<Rightarrow> int \<Rightarrow> bool" where
  "has_flag flags f = (flags AND f \<noteq> 0)"

section \<open>Stream identifiers\<close>

definition STREAM_UNORDERED :: int where "STREAM_UNORDERED = 0"

definition make_stream_id :: "int \<Rightarrow> int \<Rightarrow> int" where
  "make_stream_id category index = push_bit 16 (category AND 0xFFFF) OR (index AND 0xFFFF)"

lemma and_ffff: "(x :: int) AND 0xFFFF = x mod 65536"
proof -
  have "mask 16 = (0xFFFF :: int)" by (simp add: mask_eq_exp_minus_1)
  with take_bit_eq_mask [of 16 x] have "x AND 0xFFFF = take_bit 16 x" by (simp only:)
  then show ?thesis by (simp add: take_bit_eq_mod)
qed

lemma two_digits_unique:
  fixes a b a' b' k :: int
  assumes "0 \<le> b" "b < k" "0 \<le> b'" "b' < k"
  shows "a * k + b = a' * k + b' \<longleftrightarrow> a = a' \<and> b = b'"
proof
  assume eq: "a * k + b = a' * k + b'"
  have "(a * k + b) div k = a" "(a' * k + b') div k = a'"
    using assms by (simp_all add: div_add1_eq)
  with eq show "a = a' \<and> b = b'" by auto
qed auto

lemma make_stream_id_eq: "make_stream_id c i = (c mod 65536) * 65536 + i mod 65536"
proof -
  have i: "i mod 65536 = take_bit 16 i" by (simp add: take_bit_eq_mod)
  have "push_bit 16 (c mod 65536) + take_bit 16 i = push_bit 16 (c mod 65536) OR take_bit 16 i"
    by (rule disjunctive_add) (auto simp: bit_push_bit_iff bit_take_bit_iff)
  then show ?thesis
    by (simp add: make_stream_id_def and_ffff i push_bit_eq_mult)
qed

section \<open>The message header\<close>

record MessageHeader =
  hdr_magic :: bytes
  hdr_version :: int
  hdr_message_type :: MessageType
  hdr_flags :: int
  hdr_reserved :: int
  hdr_content_length :: int
  hdr_correlation_id :: int
  hdr_timestamp :: int
  hdr_sequence_id :: int
  hdr_stream_id :: int
  hdr_byte_order :: ByteOrder

datatype header_error =
    HeaderTooShort nat
  | InvalidMagic bytes
  | InvalidMessageType int
  | UnsupportedVersion int
  | PayloadTooLarge int

text \<open>\<open>MessageHeader.create\<close>: the clock is read only when no timestamp is given.\<close>

definition MessageHeader_create ::
  "MessageType \<Rightarrow> int \<Rightarrow> int \<Rightarrow> int \<Rightarrow> int option \<Rightarrow> int \<Rightarrow> int \<Rightarrow> ByteOrder \<Rightarrow> time \<Rightarrow> MessageHeader" where
  "MessageHeader_create message_type content_length correlation_id flags timestamp
      sequence_id stream_id byte_order now =
     \<lparr>hdr_magic = MAGIC, hdr_version = PROTOCOL_VERSION, hdr_message_type = message_type,
      hdr_flags = flags, hdr_reserved = 0, hdr_content_length = content_length,
      hdr_correlation_id = correlation_id,
      hdr_timestamp = (case timestamp of None \<Rightarrow> now_ms now | Some t \<Rightarrow> t),
      hdr_sequence_id = sequence_id, hdr_stream_id = stream_id, hdr_byte_order = byte_order\<rparr>"

text \<open>The \<open>4s\<close> field: cut to four bytes, or padded with zero bytes.\<close>

definition pack_4s :: "bytes \<Rightarrow> bytes" where
  "pack_4s bs = take 4 bs @ replicate (4 - length bs) 0"

definition MessageHeader_to_bytes :: "MessageHeader \<Rightarrow> bytes option" where
  "MessageHeader_to_bytes h =
     (case (to_bytes_be 2 (hdr_version h),
            to_bytes_be 2 (MessageType_value (hdr_message_type h)),
            to_bytes_be 2 (hdr_flags h), to_bytes_be 2 (hdr_reserved h),
            to_bytes_be 4 (hdr_content_length h), to_bytes_be 8 (hdr_correlation_id h),
            to_bytes_be 8 (hdr_timestamp h)) of
        (Some v, Some t, Some f, Some r, Some l, Some c, Some s) \<Rightarrow>
          Some (pack_4s (hdr_magic h) @ v @ t @ f @ r @ l @ c @ s)
      | _ \<Rightarrow> None)"

text \<open>The field of \<open>n\<close> bytes at an offset of the header, as an unsigned integer.\<close>

definition field_at :: "bytes \<Rightarrow> nat \<Rightarrow> nat \<Rightarrow> int" where
  "field_at dat off n = int (from_be (take n (drop off dat)))"

definition MessageHeader_from_bytes :: "bytes \<Rightarrow> header_error + MessageHeader" where
  "MessageHeader_from_bytes dat =
     (if length dat < HEADER_SIZE then Inl (HeaderTooShort (length dat))
      else if take 4 dat \<noteq> MAGIC then Inl (InvalidMagic (take 4 dat))
      else case MessageType_of (field_at dat 6 2) of
        None \<Rightarrow> Inl (InvalidMessageType (field_at dat 6 2))
      | Some t \<Rightarrow>
          Inr \<lparr>hdr_magic = take 4 dat, hdr_version = field_at dat 4 2, hdr_message_type = t,
               hdr_flags = field_at dat 8 2, hdr_reserved = field_at dat 10 2,
               hdr_content_length = field_at dat 12 4, hdr_correlation_id = field_at dat 16 8,
               hdr_timestamp = field_at dat 24 8,
               hdr_sequence_id = 0, hdr_stream_id = 0, hdr_byte_order = BE\<rparr>)"

definition MessageHeader_validate :: "MessageHeader \<Rightarrow> header_error + unit" where
  "MessageHeader_validate h =
     (if hdr_magic h \<noteq> MAGIC then Inl (InvalidMagic (hdr_magic h))
      else if hdr_version h \<noteq> PROTOCOL_VERSION then Inl (UnsupportedVersion (hdr_version h))
      else if hdr_content_length h > MAX_PAYLOAD_SIZE
        then Inl (PayloadTooLarge (hdr_content_length h))
      else Inr ())"

definition is_control_message :: "MessageHeader \<Rightarrow> bool" where
  "is_control_message h = (hdr_message_type h \<in>
     {HEARTBEAT_PING, HEARTBEAT_PONG, PAUSE, RESUME, ACK, NACK, CLOSE, CLOSE_ACK})"
definition is_rpc :: "MessageHeader \<Rightarrow> bool" where
  "is_rpc h = (hdr_message_type h \<in> {RPC_REQUEST, RPC_RESPONSE, RPC_ERROR, RPC_LIST})"
definition is_auth :: "MessageHeader \<Rightarrow> bool" where
  "is_auth h = (hdr_message_type h \<in> {AUTH_REQUEST, AUTH_SUCCESS, AUTH_FAILURE})"
definition is_ordered :: "MessageHeader \<Rightarrow> bool" where
  "is_ordered h = (has_flag (hdr_flags h) FLAG_ORDERED \<and> hdr_stream_id h \<noteq> STREAM_UNORDERED)"
definition payload_byte_order :: "MessageHeader \<Rightarrow> ByteOrder" where
  "payload_byte_order h =
     (if hdr_byte_order h = LE \<or> has_flag (hdr_flags h) FLAG_BYTE_ORDER_LE then LE else BE)"

section \<open>Packing and unpacking the header\<close>

lemma to_bytes_be_from_be: "length bs = n \<Longrightarrow> to_bytes_be n (int (from_be bs)) = Some bs"
proof -
  assume n: "length bs = n"
  have "int (from_be bs) < int (256 ^ length bs)"
    using from_be_bound [of bs] by (simp only: of_nat_less_iff)
  then show ?thesis
    using n be_digits_from_be [of bs] by (simp add: to_bytes_be_def)
qed

lemma field_at_packed:
  assumes "to_bytes_be n v = Some bs" and "length pre = off"
  shows "field_at (pre @ bs @ post) off n = v"
  using to_bytes_be_Some [OF assms(1)] assms(2) by (simp add: field_at_def)

lemma to_bytes_be_field_at:
  assumes "off + n \<le> length dat"
  shows "to_bytes_be n (field_at dat off n) = Some (take n (drop off dat))"
  unfolding field_at_def by (rule to_bytes_be_from_be) (use assms in simp)

lemma take_segment: "take k xs @ take n (drop k xs) @ r = take (k + n) xs @ r"
  by (simp add: take_add)

lemma take_segment_end: "take k xs @ take n (drop k xs) = take (k + n) xs"
  by (simp add: take_add)

lemma length_MAGIC [simp]: "length MAGIC = 4"
  by (simp add: MAGIC_def)

lemma MessageHeader_to_bytes_Some:
  assumes "MessageHeader_to_bytes h = Some bs"
  obtains v t f r l c s where
    "to_bytes_be 2 (hdr_version h) = Some v"
    "to_bytes_be 2 (MessageType_value (hdr_message_type h)) = Some t"
    "to_bytes_be 2 (hdr_flags h) = Some f" "to_bytes_be 2 (hdr_reserved h) = Some r"
    "to_bytes_be 4 (hdr_content_length h) = Some l"
    "to_bytes_be 8 (hdr_correlation_id h) = Some c"
    "to_bytes_be 8 (hdr_timestamp h) = Some s"
    "bs = pack_4s (hdr_magic h) @ v @ t @ f @ r @ l @ c @ s"
  using assms by (auto simp: MessageHeader_to_bytes_def split: option.splits)

lemma length_pack_4s [simp]: "length (pack_4s m) = 4"
  by (simp add: pack_4s_def)

lemma pack_4s_id: "length m = 4 \<Longrightarrow> pack_4s m = m"
  by (simp add: pack_4s_def)

section \<open>Properties\<close>

text \<open>
  A header that packs is 32 bytes long and unpacks to itself, except that the ordering fields,
  which the 32 bytes do not carry, come back as their defaults.
\<close>

lemma header_roundtrip:
  assumes "MessageHeader_to_bytes h = Some bs" and "hdr_magic h = MAGIC"
  shows "length bs = HEADER_SIZE
    \<and> MessageHeader_from_bytes (bs @ rest) =
           Inr (h\<lparr>hdr_sequence_id := 0, hdr_stream_id := 0, hdr_byte_order := BE\<rparr>)"
proof -
  from assms(1) obtain v t f r l c s where
    p: "to_bytes_be 2 (hdr_version h) = Some v"
    "to_bytes_be 2 (MessageType_value (hdr_message_type h)) = Some t"
    "to_bytes_be 2 (hdr_flags h) = Some f" "to_bytes_be 2 (hdr_reserved h) = Some r"
    "to_bytes_be 4 (hdr_content_length h) = Some l"
    "to_bytes_be 8 (hdr_correlation_id h) = Some c"
    "to_bytes_be 8 (hdr_timestamp h) = Some s"
    and bs: "bs = MAGIC @ v @ t @ f @ r @ l @ c @ s"
    using assms(2) by (elim MessageHeader_to_bytes_Some) (simp add: pack_4s_id)
  note len = p [THEN to_bytes_be_Some(1)]
  have size: "length bs = HEADER_SIZE" by (simp add: bs len HEADER_SIZE_def)
  have 1: "field_at (bs @ rest) 4 2 = hdr_version h"
    using field_at_packed [OF p(1), of MAGIC 4 "t @ f @ r @ l @ c @ s @ rest"] by (simp add: bs)
  have 2: "field_at (bs @ rest) 6 2 = MessageType_value (hdr_message_type h)"
    using field_at_packed [OF p(2), of "MAGIC @ v" 6 "f @ r @ l @ c @ s @ rest"]
    by (simp add: bs len)
  have 3: "field_at (bs @ rest) 8 2 = hdr_flags h"
    using field_at_packed [OF p(3), of "MAGIC @ v @ t" 8 "r @ l @ c @ s @ rest"]
    by (simp add: bs len)
  have 4: "field_at (bs @ rest) 10 2 = hdr_reserved h"
    using field_at_packed [OF p(4), of "MAGIC @ v @ t @ f" 10 "l @ c @ s @ rest"]
    by (simp add: bs len)
  have 5: "field_at (bs @ rest) 12 4 = hdr_content_length h"
    using field_at_packed [OF p(5), of "MAGIC @ v @ t @ f @ r" 12 "c @ s @ rest"]
    by (simp add: bs len)
  have 6: "field_at (bs @ rest) 16 8 = hdr_correlation_id h"
    using field_at_packed [OF p(6), of "MAGIC @ v @ t @ f @ r @ l" 16 "s @ rest"]
    by (simp add: bs len)
  have 7: "field_at (bs @ rest) 24 8 = hdr_timestamp h"
    using field_at_packed [OF p(7), of "MAGIC @ v @ t @ f @ r @ l @ c" 24 rest]
    by (simp add: bs len)
  have "take 4 (bs @ rest) = MAGIC" and "HEADER_SIZE \<le> length (bs @ rest)"
    by (simp_all add: bs len HEADER_SIZE_def)
  then show ?thesis
    using assms(2) size by (simp add: MessageHeader_from_bytes_def 1 2 3 4 5 6 7)
qed

text \<open>
  The other way round: bytes that unpack as a header are packed again to exactly their first
  32 bytes, so no two different 32-byte headers are read as the same header.
\<close>

lemma header_bytes_roundtrip:
  assumes "MessageHeader_from_bytes dat = Inr h"
  shows "MessageHeader_to_bytes h = Some (take HEADER_SIZE dat)"
proof -
  from assms have len: "32 \<le> length dat" and magic: "hdr_magic h = MAGIC" "take 4 dat = MAGIC"
    and t: "MessageType_of (field_at dat 6 2) = Some (hdr_message_type h)"
    and f: "hdr_version h = field_at dat 4 2" "hdr_flags h = field_at dat 8 2"
      "hdr_reserved h = field_at dat 10 2" "hdr_content_length h = field_at dat 12 4"
      "hdr_correlation_id h = field_at dat 16 8" "hdr_timestamp h = field_at dat 24 8"
    by (auto simp: MessageHeader_from_bytes_def HEADER_SIZE_def split: if_splits option.splits)
  have t': "MessageType_value (hdr_message_type h) = field_at dat 6 2"
    using t by (simp add: MessageType_of_Some)
  have "MessageHeader_to_bytes h = Some (take 4 dat @ take 2 (drop 4 dat) @ take 2 (drop 6 dat)
      @ take 2 (drop 8 dat) @ take 2 (drop 10 dat) @ take 4 (drop 12 dat)
      @ take 8 (drop 16 dat) @ take 8 (drop 24 dat))"
    using len magic by (simp add: MessageHeader_to_bytes_def f t' to_bytes_be_field_at pack_4s_id)
  also have "take 4 dat @ take 2 (drop 4 dat) @ take 2 (drop 6 dat) @ take 2 (drop 8 dat)
      @ take 2 (drop 10 dat) @ take 4 (drop 12 dat) @ take 8 (drop 16 dat) @ take 8 (drop 24 dat)
      = take 32 dat"
    by (simp add: take_segment take_segment_end)
  finally show ?thesis by (simp add: HEADER_SIZE_def)
qed

text \<open>
  \<open>make_stream_id\<close> keeps the two 16-bit halves apart: its value is below 2 to the 32, two
  identifiers are equal exactly when category and index agree modulo 2 to the 16, and the only
  pair that yields the reserved value \<open>STREAM_UNORDERED\<close> is category 0 with index 0.
\<close>

lemma make_stream_id_separates:
  "0 \<le> make_stream_id c i \<and> make_stream_id c i < 2 ^ 32
   \<and> (make_stream_id c i = make_stream_id c' i' \<longleftrightarrow>
        c mod 65536 = c' mod 65536 \<and> i mod 65536 = i' mod 65536)
   \<and> (make_stream_id c i = STREAM_UNORDERED \<longleftrightarrow> c mod 65536 = 0 \<and> i mod 65536 = 0)"
proof -
  have r: "0 \<le> x mod 65536" "x mod 65536 < 65536" for x :: int by simp_all
  note r4 = r [of c] r [of i] r [of c'] r [of i']
  have "make_stream_id c i < 2 ^ 32"
    using r4 by (simp add: make_stream_id_eq)
  moreover have "make_stream_id c i = make_stream_id c' i' \<longleftrightarrow>
        c mod 65536 = c' mod 65536 \<and> i mod 65536 = i' mod 65536"
    unfolding make_stream_id_eq by (rule two_digits_unique) (rule r4)+
  moreover have "make_stream_id c i = STREAM_UNORDERED \<longleftrightarrow> c mod 65536 = 0 \<and> i mod 65536 = 0"
    using two_digits_unique [of "i mod 65536" 65536 0 "c mod 65536" 0] r4
    by (simp add: make_stream_id_eq STREAM_UNORDERED_def)
  ultimately show ?thesis using r4 by (simp add: make_stream_id_eq)
qed

text \<open>
  For either byte order, a 32-bit or 64-bit value that packs is read back at the offset where
  its bytes stand, whatever surrounds them; and the two orders give each other's bytes reversed.
\<close>

lemma byte_order_roundtrip:
  assumes "pack_u32 o1 v = Some bs" and "pack_u64 o1 w = Some bs'"
  shows "unpack_u32 o1 (pre @ bs @ post) (int (length pre)) = Some v
    \<and> unpack_u64 o1 (pre @ bs' @ post) (int (length pre)) = Some w
    \<and> pack_u32 (if o1 = LE then BE else LE) v = Some (rev bs)"
  using assms unpack_pack_uint
  by (auto simp: pack_u32_def unpack_u32_def pack_u64_def unpack_u64_def pack_uint_def
      split: if_splits)

end
