(* ===== verification/Codec.thy ===== *)
theory Codec
  imports Format
begin

text \<open>
  The messages that travel in a frame, after the descriptor in
  \<open>src/conduit/protocol/protocol_pb2.py\<close>, and the code the protocol calls that is not in the
  repository: the protobuf runtime, the compiled \<open>netconduit\<close> extension, \<open>zlib\<close>, \<open>json\<close>
  and \<open>str\<close> on arbitrary objects.  That code is the record \<open>codec\<close>, an argument of every
  definition that uses it; None is an exception.
\<close>

section \<open>The protobuf messages\<close>

record Packet =
  pkt_version :: int
  pkt_type :: int
  pkt_flags :: int
  pkt_correlation_id :: int
  pkt_timestamp :: int
  pkt_payload :: bytes
  pkt_route_src :: string
  pkt_route_dst :: string
  pkt_is_mesh :: bool

record MessagePayload =
  mp_type :: string
  mp_data :: bytes

record RPCRequestPayload =
  rq_method :: string
  rq_params :: bytes

record RPCResponsePayload =
  rr_success :: bool
  rr_result :: bytes
  rr_error :: string
  rr_code :: int

record AuthRequestPayload =
  aq_password_hash :: string
  aq_client_info :: "(string \<times> string) list"
  aq_protocol_version :: string

record AuthResponsePayload =
  ar_success :: bool
  ar_session_token :: string
  ar_server_info :: "(string \<times> string) list"
  ar_heartbeat_interval :: int
  ar_reason :: string

section \<open>What the protocol calls outside the repository\<close>

text \<open>
  \<open>ser_\<dots>\<close> is construction and \<open>SerializeToString\<close> (None: a field is out of its range or of the
  wrong type), \<open>parse_\<dots>\<close> is \<open>ParseFromString\<close>.  \<open>rust_compression\<close> says whether the import
  of the extension succeeded.
\<close>

record codec =
  ser_Packet :: "Packet \<Rightarrow> bytes option"
  parse_Packet :: "bytes \<Rightarrow> Packet option"
  ser_MessagePayload :: "MessagePayload \<Rightarrow> bytes option"
  parse_MessagePayload :: "bytes \<Rightarrow> MessagePayload option"
  ser_RPCRequest :: "RPCRequestPayload \<Rightarrow> bytes option"
  parse_RPCRequest :: "bytes \<Rightarrow> RPCRequestPayload option"
  ser_RPCResponse :: "RPCResponsePayload \<Rightarrow> bytes option"
  parse_RPCResponse :: "bytes \<Rightarrow> RPCResponsePayload option"
  ser_AuthRequest :: "AuthRequestPayload \<Rightarrow> bytes option"
  parse_AuthRequest :: "bytes \<Rightarrow> AuthRequestPayload option"
  ser_AuthResponse :: "AuthResponsePayload \<Rightarrow> bytes option"
  parse_AuthResponse :: "bytes \<Rightarrow> AuthResponsePayload option"
  json_dumps :: "pyval \<Rightarrow> string option"
  json_loads :: "string \<Rightarrow> pyval option"
  repr_str :: "pyval \<Rightarrow> string"
  rust_compression :: bool
  compress_payload :: "bytes \<Rightarrow> bytes"
  decompress_payload :: "bytes \<Rightarrow> bytes option"
  zlib_decompress :: "bytes \<Rightarrow> bytes option"

text \<open>\<open>str(v)\<close>: a str is its own text.\<close>

definition py_str :: "codec \<Rightarrow> pyval \<Rightarrow> string" where
  "py_str cd v = (case v of PStr s \<Rightarrow> s | _ \<Rightarrow> repr_str cd v)"

text \<open>
  The documented behaviour the round trips rest on, at the values they are about: a message that
  serialises is parsed back, and the extension decompresses what it compressed.
\<close>

definition packet_law :: "codec \<Rightarrow> Packet \<Rightarrow> bool" where
  "packet_law cd p = (\<forall>bs. ser_Packet cd p = Some bs \<longrightarrow> parse_Packet cd bs = Some p)"

definition message_law :: "codec \<Rightarrow> MessagePayload \<Rightarrow> bool" where
  "message_law cd p =
     (\<forall>bs. ser_MessagePayload cd p = Some bs \<longrightarrow> parse_MessagePayload cd bs = Some p)"

definition rpc_request_law :: "codec \<Rightarrow> RPCRequestPayload \<Rightarrow> bool" where
  "rpc_request_law cd p = (\<forall>bs. ser_RPCRequest cd p = Some bs \<longrightarrow> parse_RPCRequest cd bs = Some p)"

definition rpc_response_law :: "codec \<Rightarrow> RPCResponsePayload \<Rightarrow> bool" where
  "rpc_response_law cd p =
     (\<forall>bs. ser_RPCResponse cd p = Some bs \<longrightarrow> parse_RPCResponse cd bs = Some p)"

definition compression_law :: "codec \<Rightarrow> bytes \<Rightarrow> bool" where
  "compression_law cd p = (decompress_payload cd (compress_payload cd p) = Some p)"

text \<open>\<open>json.loads(json.dumps(v))\<close> gives \<open>v\<close> back, and the text is ASCII.\<close>

definition json_law :: "codec \<Rightarrow> pyval \<Rightarrow> bool" where
  "json_law cd v =
     (\<forall>s. json_dumps cd v = Some s \<longrightarrow> s \<noteq> [] \<and> str_ok s \<and> json_loads cd s = Some v)"

end
