(* ===== verification/Encoder.thy ===== *)
theory Encoder
  imports Codec
begin

text \<open>
  \<open>src/conduit/protocol/encoder.py\<close>: serialising a Python value, choosing the codec, building the
  packet and framing it with its length.  Each method returns its result or the exception, and the
  encoder object with its correlation counter.
\<close>

datatype encode_error =
    JsonTypeError \<comment> \<open>\<open>json.dumps\<close> met a value it cannot write\<close>
  | FieldError \<comment> \<open>protobuf refused a field value\<close>
  | CompressIndexError \<comment> \<open>\<open>compressed[0]\<close> on an empty result\<close>
  | FrameOverflowError \<comment> \<open>the packet length does not fit in four bytes\<close>

definition serialize_data :: "codec \<Rightarrow> pyval \<Rightarrow> encode_error + bytes" where
  "serialize_data cd v =
     (case v of
        PNone \<Rightarrow> Inr []
      | PBytes b \<Rightarrow> Inr b
      | PStr s \<Rightarrow> Inr (utf8_encode s)
      | _ \<Rightarrow> (case json_dumps cd v of None \<Rightarrow> Inl JsonTypeError | Some s \<Rightarrow> Inr (utf8_encode s)))"

definition compress :: "codec \<Rightarrow> bytes \<Rightarrow> int \<Rightarrow> encode_error + (bytes \<times> int)" where
  "compress cd payload flags =
     (if \<not> rust_compression cd \<or> length payload < 64 then Inr (payload, flags)
      else
        (let compressed = compress_payload cd payload
         in if length compressed \<ge> length payload then Inr (payload, flags)
            else case compressed of
              [] \<Rightarrow> Inl CompressIndexError
            | code # body \<Rightarrow>
                if code = 1 then Inr (body, flags OR FLAG_CODEC_LZ4)
                else if code = 2 then Inr (body, flags OR FLAG_CODEC_ZSTD)
                else Inr (payload, flags)))"

record ProtocolEncoder =
  pe_enable_compression :: bool
  pe_correlation_counter :: nat

definition new_encoder :: "bool \<Rightarrow> ProtocolEncoder" where
  "new_encoder enable = \<lparr>pe_enable_compression = enable, pe_correlation_counter = 0\<rparr>"

definition next_correlation_id :: "ProtocolEncoder \<Rightarrow> nat \<times> ProtocolEncoder" where
  "next_correlation_id e =
     (let n = pe_correlation_counter e + 1 in (n, e\<lparr>pe_correlation_counter := n\<rparr>))"

definition build_packet ::
  "MessageType \<Rightarrow> bytes \<Rightarrow> int option \<Rightarrow> int \<Rightarrow> string option \<Rightarrow> string option \<Rightarrow> bool \<Rightarrow> time \<Rightarrow> Packet" where
  "build_packet t payload corr flags route_src route_dst is_mesh now =
     \<lparr>pkt_version = PROTOCOL_VERSION, pkt_type = MessageType_value t, pkt_flags = flags,
      pkt_correlation_id = (case corr of None \<Rightarrow> 0 | Some c \<Rightarrow> c),
      pkt_timestamp = now_ms now, pkt_payload = payload,
      pkt_route_src = (case route_src of None \<Rightarrow> [] | Some s \<Rightarrow> s),
      pkt_route_dst = (case route_dst of None \<Rightarrow> [] | Some s \<Rightarrow> s),
      pkt_is_mesh = is_mesh\<rparr>"

text \<open>The length prefix and the serialised packet.\<close>

definition frame_packet :: "codec \<Rightarrow> Packet \<Rightarrow> encode_error + bytes" where
  "frame_packet cd p =
     (case ser_Packet cd p of
        None \<Rightarrow> Inl FieldError
      | Some serialized \<Rightarrow>
          (case to_bytes_be 4 (int (length serialized)) of
             None \<Rightarrow> Inl FrameOverflowError
           | Some prefix \<Rightarrow> Inr (prefix @ serialized)))"

definition encode ::
  "codec \<Rightarrow> ProtocolEncoder \<Rightarrow> MessageType \<Rightarrow> bytes \<Rightarrow> int option \<Rightarrow> int \<Rightarrow> string option \<Rightarrow> string option
     \<Rightarrow> bool \<Rightarrow> time \<Rightarrow> (encode_error + bytes) \<times> ProtocolEncoder" where
  "encode cd e t payload corr flags route_src route_dst is_mesh now =
     (case (if pe_enable_compression e \<and> payload \<noteq> [] then compress cd payload flags
            else Inr (payload, flags)) of
        Inl x \<Rightarrow> (Inl x, e)
      | Inr (payload', flags') \<Rightarrow>
          (let (corr', e') =
                 (if corr = None \<and> t = RPC_REQUEST
                  then (let (n, e1) = next_correlation_id e in (Some (int n), e1))
                  else (corr, e))
           in (frame_packet cd
                 (build_packet t payload' corr' flags' route_src route_dst is_mesh now), e')))"

text \<open>The call the typed methods make: no routing, no flags.\<close>

definition encode_plain ::
  "codec \<Rightarrow> ProtocolEncoder \<Rightarrow> MessageType \<Rightarrow> bytes \<Rightarrow> int option \<Rightarrow> time
     \<Rightarrow> (encode_error + bytes) \<times> ProtocolEncoder" where
  "encode_plain cd e t payload corr now = encode cd e t payload corr 0 None None False now"

text \<open>\<open>payload.SerializeToString()\<close> followed by \<open>self.encode(\<dots>)\<close>.\<close>

definition encode_serialized ::
  "codec \<Rightarrow> ProtocolEncoder \<Rightarrow> MessageType \<Rightarrow> bytes option \<Rightarrow> int option \<Rightarrow> time
     \<Rightarrow> (encode_error + bytes) \<times> ProtocolEncoder" where
  "encode_serialized cd e t payload corr now =
     (case payload of None \<Rightarrow> (Inl FieldError, e) | Some p \<Rightarrow> encode_plain cd e t p corr now)"

definition encode_message ::
  "codec \<Rightarrow> ProtocolEncoder \<Rightarrow> string \<Rightarrow> pyval \<Rightarrow> int option \<Rightarrow> time
     \<Rightarrow> (encode_error + bytes) \<times> ProtocolEncoder" where
  "encode_message cd e message_type v corr now =
     (case serialize_data cd v of
        Inl x \<Rightarrow> (Inl x, e)
      | Inr bs \<Rightarrow>
          encode_serialized cd e MESSAGE
            (ser_MessagePayload cd \<lparr>mp_type = message_type, mp_data = bs\<rparr>) corr now)"

definition encode_rpc_request ::
  "codec \<Rightarrow> ProtocolEncoder \<Rightarrow> string \<Rightarrow> pyval \<Rightarrow> int option \<Rightarrow> time
     \<Rightarrow> (encode_error + (bytes \<times> int)) \<times> ProtocolEncoder" where
  "encode_rpc_request cd e meth params corr now =
     (let (c, e1) = (case corr of
                       None \<Rightarrow> (let (n, e') = next_correlation_id e in (int n, e'))
                     | Some c \<Rightarrow> (c, e))
      in case serialize_data cd params of
           Inl x \<Rightarrow> (Inl x, e1)
         | Inr bs \<Rightarrow>
             (case encode_serialized cd e1 RPC_REQUEST
                     (ser_RPCRequest cd \<lparr>rq_method = meth, rq_params = bs\<rparr>) (Some c) now of
                (Inl x, e2) \<Rightarrow> (Inl x, e2)
              | (Inr frame, e2) \<Rightarrow> (Inr (frame, c), e2)))"

text \<open>
  An \<open>int32\<close> field given a Python value: an int (or bool), or None for "not set"; anything else
  is a TypeError of the runtime.
\<close>

definition proto_int :: "pyval \<Rightarrow> int option" where
  "proto_int v = (case v of
      PInt i \<Rightarrow> Some i | PBool b \<Rightarrow> Some (of_bool b) | PNone \<Rightarrow> Some 0 | _ \<Rightarrow> None)"

text \<open>Likewise a \<open>string\<close> field, which takes a text, or bytes that are UTF-8.\<close>

definition proto_text :: "pyval \<Rightarrow> string option" where
  "proto_text v = (case v of
      PStr s \<Rightarrow> Some s | PBytes bs \<Rightarrow> utf8_decode bs | PNone \<Rightarrow> Some [] | _ \<Rightarrow> None)"

text \<open>The \<open>error_code or 0\<close> that an RPC error carries.\<close>

definition error_code_value :: "pyval \<Rightarrow> int option" where
  "error_code_value v = (if truthy v then proto_int v else Some 0)"

definition response_ok :: "bytes \<Rightarrow> RPCResponsePayload" where
  "response_ok bs = \<lparr>rr_success = True, rr_result = bs, rr_error = [], rr_code = 0\<rparr>"

definition response_failed :: "string \<Rightarrow> int \<Rightarrow> RPCResponsePayload" where
  "response_failed msg code = \<lparr>rr_success = False, rr_result = [], rr_error = msg, rr_code = code\<rparr>"

text \<open>The payload and the message type an RPC result is sent as.\<close>

definition rpc_response_payload ::
  "codec \<Rightarrow> pyval \<Rightarrow> bool \<Rightarrow> encode_error + (RPCResponsePayload \<times> MessageType)" where
  "rpc_response_payload cd result success =
     (case result of
        PDict d \<Rightarrow>
          (if dict_has d ''success'' then
             (if truthy (dict_get d ''success'') then
                (let actual = (if dict_get d ''data'' \<noteq> PNone then dict_get d ''data''
                               else dict_get d ''result'')
                 in case serialize_data cd actual of
                      Inl x \<Rightarrow> Inl x
                    | Inr bs \<Rightarrow> Inr (response_ok bs, RPC_RESPONSE))
              else
                (let err = (if dict_has d ''error'' then dict_get d ''error''
                            else PStr ''Unknown error'');
                     code = (if dict_has d ''code'' then dict_get d ''code'' else PInt 0)
                 in case proto_int code of
                      None \<Rightarrow> Inl FieldError
                    | Some c \<Rightarrow> Inr (response_failed (py_str cd err) c, RPC_ERROR)))
           else if success then
             (case serialize_data cd result of
                Inl x \<Rightarrow> Inl x
              | Inr bs \<Rightarrow> Inr (response_ok bs, RPC_RESPONSE))
           else Inr (response_failed (py_str cd result) 0, RPC_ERROR))
      | _ \<Rightarrow>
          (if success then
             (case serialize_data cd result of
                Inl x \<Rightarrow> Inl x
              | Inr bs \<Rightarrow> Inr (response_ok bs, RPC_RESPONSE))
           else Inr (response_failed (py_str cd result) 0, RPC_ERROR)))"

definition encode_rpc_response ::
  "codec \<Rightarrow> ProtocolEncoder \<Rightarrow> pyval \<Rightarrow> int \<Rightarrow> bool \<Rightarrow> time
     \<Rightarrow> (encode_error + bytes) \<times> ProtocolEncoder" where
  "encode_rpc_response cd e result corr success now =
     (case rpc_response_payload cd result success of
        Inl x \<Rightarrow> (Inl x, e)
      | Inr (payload, t) \<Rightarrow>
          encode_serialized cd e t (ser_RPCResponse cd payload) (Some corr) now)"

definition encode_rpc_error ::
  "codec \<Rightarrow> ProtocolEncoder \<Rightarrow> string \<Rightarrow> int \<Rightarrow> int option \<Rightarrow> time
     \<Rightarrow> (encode_error + bytes) \<times> ProtocolEncoder" where
  "encode_rpc_error cd e msg corr code now =
     encode_serialized cd e RPC_ERROR
       (ser_RPCResponse cd (response_failed msg (case code of None \<Rightarrow> 0 | Some c \<Rightarrow> c)))
       (Some corr) now"

definition str_values :: "codec \<Rightarrow> (string, pyval) dict \<Rightarrow> (string \<times> string) list" where
  "str_values cd d = map (\<lambda>(k, v). (k, py_str cd v)) d"

definition encode_auth_request ::
  "codec \<Rightarrow> ProtocolEncoder \<Rightarrow> string \<Rightarrow> (string, pyval) dict \<Rightarrow> time
     \<Rightarrow> (encode_error + bytes) \<times> ProtocolEncoder" where
  "encode_auth_request cd e password_hash client_info now =
     encode_serialized cd e AUTH_REQUEST
       (ser_AuthRequest cd \<lparr>aq_password_hash = password_hash,
          aq_client_info = str_values cd client_info, aq_protocol_version = ''1.0''\<rparr>) None now"

definition auth_response :: "AuthResponsePayload" where
  "auth_response = \<lparr>ar_success = False, ar_session_token = [], ar_server_info = [],
     ar_heartbeat_interval = 0, ar_reason = []\<rparr>"

definition encode_auth_success ::
  "codec \<Rightarrow> ProtocolEncoder \<Rightarrow> string \<Rightarrow> (string, pyval) dict \<Rightarrow> time
     \<Rightarrow> (encode_error + bytes) \<times> ProtocolEncoder" where
  "encode_auth_success cd e session_token server_info now =
     encode_serialized cd e AUTH_SUCCESS
       (ser_AuthResponse cd (auth_response\<lparr>ar_success := True, ar_session_token := session_token,
          ar_server_info := str_values cd server_info, ar_heartbeat_interval := 30\<rparr>)) None now"

definition encode_auth_failure ::
  "codec \<Rightarrow> ProtocolEncoder \<Rightarrow> string \<Rightarrow> time \<Rightarrow> (encode_error + bytes) \<times> ProtocolEncoder" where
  "encode_auth_failure cd e reason now =
     encode_serialized cd e AUTH_FAILURE
       (ser_AuthResponse cd (auth_response\<lparr>ar_success := False, ar_reason := reason\<rparr>)) None now"

definition encode_heartbeat_ping where
  "encode_heartbeat_ping cd e now = encode_plain cd e HEARTBEAT_PING [] None now"
definition encode_heartbeat_pong where
  "encode_heartbeat_pong cd e now = encode_plain cd e HEARTBEAT_PONG [] None now"
definition encode_pause where
  "encode_pause cd e now = encode_plain cd e PAUSE [] None now"
definition encode_resume where
  "encode_resume cd e now = encode_plain cd e RESUME [] None now"
definition encode_ack where
  "encode_ack cd e corr now = encode_plain cd e ACK [] (Some corr) now"
definition encode_nack where
  "encode_nack cd e corr reason now =
     encode_serialized cd e NACK (ser_AuthResponse cd (auth_response\<lparr>ar_reason := reason\<rparr>))
       (Some corr) now"
definition encode_close where
  "encode_close cd e reason now =
     encode_serialized cd e CLOSE (ser_AuthResponse cd (auth_response\<lparr>ar_reason := reason\<rparr>))
       None now"
definition encode_close_ack where
  "encode_close_ack cd e now = encode_plain cd e CLOSE_ACK [] None now"
definition encode_rpc_list where
  "encode_rpc_list cd e methods now =
     (case serialize_data cd (PList methods) of
        Inl x \<Rightarrow> (Inl x, e)
      | Inr bs \<Rightarrow> encode_plain cd e RPC_LIST bs None now)"

lemmas encode_simps =
  encode_plain_def encode_serialized_def encode_def frame_packet_def build_packet_def
  next_correlation_id_def

end
