(* ===== verification/Decoder.thy ===== *)
theory Decoder
  imports Encoder "HOL-Library.Sublist"
begin

text \<open>
  \<open>src/conduit/protocol/decoder.py\<close>: decoding one packet, the receive buffer and its two draining
  loops, and the accessors of a decoded message.
\<close>

section \<open>Decoding one packet\<close>

datatype decode_error =
    DecodeError
  | IncompleteMessageError (bytes_needed: int)

definition deserialize_data :: "codec \<Rightarrow> bytes \<Rightarrow> pyval" where
  "deserialize_data cd bs =
     (if bs = [] then PNone
      else case utf8_decode bs of
        None \<Rightarrow> PBytes bs
      | Some s \<Rightarrow> (case json_loads cd s of Some v \<Rightarrow> v | None \<Rightarrow> PStr s))"

record DecodedMessage =
  dm_header :: MessageHeader
  dm_payload :: pyval
  dm_raw_payload :: bytes
  dm_route_src :: string
  dm_route_dst :: string
  dm_is_mesh :: bool

text \<open>The payload bytes after decompression; without the extension they pass unchanged.\<close>

definition decompress_step :: "codec \<Rightarrow> int \<Rightarrow> bytes \<Rightarrow> bytes option" where
  "decompress_step cd flags payload =
     (if has_flag flags FLAG_CODEC_LZ4 then
        (if rust_compression cd then decompress_payload cd (1 # payload) else Some payload)
      else if has_flag flags FLAG_CODEC_ZSTD then
        (if rust_compression cd then decompress_payload cd (2 # payload) else Some payload)
      else if has_flag flags FLAG_COMPRESSED then zlib_decompress cd payload
      else Some payload)"

definition str_dict :: "(string \<times> string) list \<Rightarrow> pyval" where
  "str_dict d = PDict (map (\<lambda>(k, v). (k, PStr v)) d)"

text \<open>The typed payload as a dict; None when the inner message does not parse.\<close>

definition decode_payload :: "codec \<Rightarrow> MessageType \<Rightarrow> bytes \<Rightarrow> pyval option" where
  "decode_payload cd t bs =
     (case t of
        MESSAGE \<Rightarrow> map_option (\<lambda>p. PDict
          [(''type'', PStr (mp_type p)), (''data'', deserialize_data cd (mp_data p))])
          (parse_MessagePayload cd bs)
      | RPC_REQUEST \<Rightarrow> map_option (\<lambda>p. PDict
          [(''method'', PStr (rq_method p)), (''params'', deserialize_data cd (rq_params p))])
          (parse_RPCRequest cd bs)
      | _ \<Rightarrow>
        if t = RPC_RESPONSE \<or> t = RPC_ERROR then map_option (\<lambda>p. PDict
          [(''success'', PBool (rr_success p)),
           (''result'', if rr_success p then deserialize_data cd (rr_result p) else PNone),
           (''error'', if \<not> rr_success p then PStr (rr_error p) else PNone),
           (''code'', PInt (rr_code p))])
          (parse_RPCResponse cd bs)
        else if t = AUTH_REQUEST then map_option (\<lambda>p. PDict
          [(''password_hash'', PStr (aq_password_hash p)),
           (''client_info'', str_dict (aq_client_info p))])
          (parse_AuthRequest cd bs)
        else if t = AUTH_SUCCESS \<or> t = AUTH_FAILURE then map_option (\<lambda>p. PDict
          [(''success'', PBool (ar_success p)), (''session_token'', PStr (ar_session_token p)),
           (''server_info'', str_dict (ar_server_info p)), (''reason'', PStr (ar_reason p))])
          (parse_AuthResponse cd bs)
        else Some (deserialize_data cd bs))"

definition decode_packet :: "codec \<Rightarrow> Packet \<Rightarrow> decode_error + DecodedMessage" where
  "decode_packet cd pkt =
     (case decompress_step cd (pkt_flags pkt) (pkt_payload pkt) of
        None \<Rightarrow> Inl DecodeError
      | Some payload_bytes \<Rightarrow>
          (case MessageType_of (pkt_type pkt) of
             None \<Rightarrow> Inl DecodeError
           | Some t \<Rightarrow>
               (case decode_payload cd t payload_bytes of
                  None \<Rightarrow> Inl DecodeError
                | Some payload \<Rightarrow>
                    Inr \<lparr>dm_header =
                           \<lparr>hdr_magic = MAGIC, hdr_version = pkt_version pkt,
                            hdr_message_type = t, hdr_flags = pkt_flags pkt, hdr_reserved = 0,
                            hdr_content_length = int (length payload_bytes),
                            hdr_correlation_id = pkt_correlation_id pkt,
                            hdr_timestamp = pkt_timestamp pkt,
                            hdr_sequence_id = 0, hdr_stream_id = 0, hdr_byte_order = BE\<rparr>,
                         dm_payload = payload, dm_raw_payload = payload_bytes,
                         dm_route_src = pkt_route_src pkt, dm_route_dst = pkt_route_dst pkt,
                         dm_is_mesh = pkt_is_mesh pkt\<rparr>)))"

text \<open>The packet in \<open>data\<close>: parsed directly, or behind a length prefix if that fails.\<close>

definition find_packet :: "codec \<Rightarrow> bytes \<Rightarrow> decode_error + Packet" where
  "find_packet cd dat =
     (case parse_Packet cd dat of
        Some pkt \<Rightarrow> Inr pkt
      | None \<Rightarrow>
          (if length dat < 4 then Inl (IncompleteMessageError (4 - int (length dat)))
           else
             (let len = from_be (take 4 dat)
              in if length dat < 4 + len
                 then Inl (IncompleteMessageError (4 + int len - int (length dat)))
                 else case parse_Packet cd (take len (drop 4 dat)) of
                   Some pkt \<Rightarrow> Inr pkt
                 | None \<Rightarrow> Inl DecodeError)))"

definition decode_single :: "codec \<Rightarrow> bytes \<Rightarrow> decode_error + DecodedMessage" where
  "decode_single cd dat =
     (case find_packet cd dat of Inl x \<Rightarrow> Inl x | Inr pkt \<Rightarrow> decode_packet cd pkt)"

section \<open>Accessors of a decoded message\<close>

definition dm_message_type :: "DecodedMessage \<Rightarrow> MessageType" where
  "dm_message_type m = hdr_message_type (dm_header m)"
definition dm_correlation_id :: "DecodedMessage \<Rightarrow> int" where
  "dm_correlation_id m = hdr_correlation_id (dm_header m)"
definition dm_timestamp :: "DecodedMessage \<Rightarrow> int" where
  "dm_timestamp m = hdr_timestamp (dm_header m)"
definition dm_flags :: "DecodedMessage \<Rightarrow> int" where
  "dm_flags m = hdr_flags (dm_header m)"
definition is_compressed :: "DecodedMessage \<Rightarrow> bool" where
  "is_compressed m = has_flag (dm_flags m) FLAG_COMPRESSED"

definition get_message_type_str :: "DecodedMessage \<Rightarrow> pyval" where
  "get_message_type_str m =
     (case dm_payload m of
        PDict d \<Rightarrow> (if dm_message_type m = MESSAGE then dict_get d ''type'' else PNone)
      | _ \<Rightarrow> PNone)"
definition get_data :: "DecodedMessage \<Rightarrow> pyval" where
  "get_data m =
     (case dm_payload m of
        PDict d \<Rightarrow> (if dm_message_type m = MESSAGE then dict_get d ''data'' else dm_payload m)
      | _ \<Rightarrow> dm_payload m)"
definition get_rpc_method :: "DecodedMessage \<Rightarrow> pyval" where
  "get_rpc_method m =
     (case dm_payload m of
        PDict d \<Rightarrow> (if dm_message_type m = RPC_REQUEST then dict_get d ''method'' else PNone)
      | _ \<Rightarrow> PNone)"
definition get_rpc_params :: "DecodedMessage \<Rightarrow> (string, pyval) dict" where
  "get_rpc_params m =
     (case dm_payload m of
        PDict d \<Rightarrow>
          (if dm_message_type m = RPC_REQUEST
           then (case dict_get d ''params'' of PDict p \<Rightarrow> p | _ \<Rightarrow> []) else [])
      | _ \<Rightarrow> [])"
definition get_rpc_result :: "DecodedMessage \<Rightarrow> pyval" where
  "get_rpc_result m =
     (if dm_message_type m \<in> {RPC_RESPONSE, RPC_ERROR}
      then (case dm_payload m of PDict d \<Rightarrow> dict_get d ''result'' | _ \<Rightarrow> PNone) else PNone)"
definition get_rpc_error :: "DecodedMessage \<Rightarrow> pyval" where
  "get_rpc_error m =
     (case dm_payload m of
        PDict d \<Rightarrow> (if dm_message_type m = RPC_ERROR then dict_get d ''error'' else PNone)
      | _ \<Rightarrow> PNone)"
definition dm_is_success :: "DecodedMessage \<Rightarrow> pyval" where
  "dm_is_success m =
     (case dm_payload m of
        PDict d \<Rightarrow> (if dict_has d ''success'' then dict_get d ''success'' else PBool True)
      | _ \<Rightarrow> PBool True)"

section \<open>The receive buffer\<close>

record ProtocolDecoder =
  pd_buffer :: bytes

definition new_decoder :: ProtocolDecoder where
  "new_decoder = \<lparr>pd_buffer = []\<rparr>"

definition feed :: "ProtocolDecoder \<Rightarrow> bytes \<Rightarrow> ProtocolDecoder" where
  "feed d dat = d\<lparr>pd_buffer := pd_buffer d @ dat\<rparr>"

definition buffer_size :: "ProtocolDecoder \<Rightarrow> nat" where
  "buffer_size d = length (pd_buffer d)"

definition decoder_clear :: "ProtocolDecoder \<Rightarrow> ProtocolDecoder" where
  "decoder_clear d = d\<lparr>pd_buffer := []\<rparr>"

text \<open>
  \<open>decode_one\<close>: the frame is taken out of the buffer before it is decoded, and every exception of
  the decoding leaves as a DecodeError.
\<close>

definition decode_one :: "codec \<Rightarrow> ProtocolDecoder \<Rightarrow> ProtocolDecoder \<times> (decode_error + DecodedMessage option)" where
  "decode_one cd d =
     (let buf = pd_buffer d
      in if length buf < 4 then (d, Inr None)
         else let len = from_be (take 4 buf)
              in if len > 100 * 1024 * 1024 then (d\<lparr>pd_buffer := []\<rparr>, Inr None)
                 else if length buf < 4 + len then (d, Inr None)
                 else let d' = d\<lparr>pd_buffer := drop (4 + len) buf\<rparr>
                      in case decode_single cd (take len (drop 4 buf)) of
                           Inl x \<Rightarrow> (d', Inl DecodeError)
                         | Inr m \<Rightarrow> (d', Inr (Some m)))"

lemma decode_one_consumes:
  assumes "decode_one cd d = (d', Inr (Some m))"
  shows "length (pd_buffer d') < length (pd_buffer d)"
  using assms by (auto simp: decode_one_def Let_def split: if_splits sum.splits)

text \<open>
  The loop of \<open>decode_all\<close> with the messages appended so far, the decoder it leaves and the
  exception that stopped it, if any.
\<close>

function decode_loop ::
  "codec \<Rightarrow> ProtocolDecoder \<Rightarrow> DecodedMessage list \<times> ProtocolDecoder \<times> decode_error option" where
  "decode_loop cd d =
     (case decode_one cd d of
        (d', Inl x) \<Rightarrow> ([], d', Some x)
      | (d', Inr None) \<Rightarrow> ([], d', None)
      | (d', Inr (Some m)) \<Rightarrow> (let (ms, d'', x) = decode_loop cd d' in (m # ms, d'', x)))"
  by pat_completeness auto
termination
  by (relation "measure (\<lambda>(cd, d). length (pd_buffer d))") (auto dest: decode_one_consumes [OF sym])

declare decode_loop.simps [simp del]

definition decode_all ::
  "codec \<Rightarrow> ProtocolDecoder \<Rightarrow> ProtocolDecoder \<times> (decode_error + DecodedMessage list)" where
  "decode_all cd d =
     (case decode_loop cd d of
        (ms, d', Some x) \<Rightarrow> (d', Inl x)
      | (ms, d', None) \<Rightarrow> (d', Inr ms))"

definition peek_header :: "codec \<Rightarrow> ProtocolDecoder \<Rightarrow> MessageHeader option" where
  "peek_header cd d =
     (let buf = pd_buffer d; len = from_be (take 4 buf)
      in if length buf < 4 \<or> length buf < 4 + len then None
         else case parse_Packet cd (take len (drop 4 buf)) of
           None \<Rightarrow> None
         | Some pkt \<Rightarrow>
             (case MessageType_of (pkt_type pkt) of
                None \<Rightarrow> None
              | Some t \<Rightarrow>
                  Some \<lparr>hdr_magic = MAGIC, hdr_version = pkt_version pkt,
                        hdr_message_type = t, hdr_flags = pkt_flags pkt, hdr_reserved = 0,
                        hdr_content_length = int (length (pkt_payload pkt)),
                        hdr_correlation_id = pkt_correlation_id pkt,
                        hdr_timestamp = pkt_timestamp pkt,
                        hdr_sequence_id = 0, hdr_stream_id = 0, hdr_byte_order = BE\<rparr>))"

section \<open>One frame in the buffer\<close>

text \<open>A packet body short enough for the frame limit, and the frame around it.\<close>

definition body_ok :: "bytes \<Rightarrow> bool" where
  "body_ok b = (length b \<le> 100 * 1024 * 1024)"

definition frame_of :: "bytes \<Rightarrow> bytes" where
  "frame_of b = be_digits 4 (length b) @ b"

lemma length_frame_of [simp]: "length (frame_of b) = 4 + length b"
  by (simp add: frame_of_def)

lemma from_be_frame_of:
  assumes "body_ok b"
  shows "from_be (take 4 (frame_of b @ rest)) = length b"
proof -
  from assms have "length b < 256 ^ 4" by (simp add: body_ok_def)
  then show ?thesis by (simp add: frame_of_def from_be_digits)
qed

lemma decode_one_frame:
  assumes "body_ok b"
  shows "decode_one cd \<lparr>pd_buffer = frame_of b @ rest\<rparr> =
    (\<lparr>pd_buffer = rest\<rparr>,
     case decode_single cd b of Inl x \<Rightarrow> Inl DecodeError | Inr m \<Rightarrow> Inr (Some m))"
proof -
  have len: "from_be (take 4 (frame_of b @ rest)) = length b"
    by (rule from_be_frame_of [OF assms])
  have body: "take (length b) (drop 4 (frame_of b @ rest)) = b"
    "drop (4 + length b) (frame_of b @ rest) = rest"
    by (simp_all add: frame_of_def)
  have size: "\<not> length (frame_of b @ rest) < 4" "\<not> length (frame_of b @ rest) < 4 + length b"
    "\<not> 100 * 1024 * 1024 < length b"
    using assms by (simp_all add: body_ok_def)
  show ?thesis
    unfolding decode_one_def Let_def
    using size by (simp only: ProtocolDecoder.simps len body if_False split: sum.split) auto
qed

lemma decode_one_wait:
  assumes "body_ok b" and "strict_prefix p (frame_of b)"
  shows "decode_one cd \<lparr>pd_buffer = p\<rparr> = (\<lparr>pd_buffer = p\<rparr>, Inr None)"
proof (cases "length p < 4")
  case True
  then show ?thesis by (simp add: decode_one_def)
next
  case False
  from assms(2) obtain q where q: "frame_of b = p @ q" "q \<noteq> []"
    by (auto elim: strict_prefixE')
  then have "take 4 p = take 4 (frame_of b @ [])" using False by simp
  then have "from_be (take 4 p) = length b"
    using from_be_frame_of [OF assms(1), of "[]"] by simp
  moreover have "length p + length q = 4 + length b"
    using q by (metis length_append length_frame_of)
  then have "length p < 4 + length b"
    using q(2) by (cases q) auto
  ultimately show ?thesis
    using assms(1) False by (simp add: decode_one_def Let_def body_ok_def)
qed

end
