(* ===== verification/Framing.thy ===== *)
theory Framing
  imports Prelude "HOL-Library.Sublist"
begin

text \<open>
  The interface between a receive buffer and the code that feeds it: frames put on a byte stream
  one after the other, and a drain that takes every complete frame off the front of the buffer.
  The clients' lemma is reassembly: however the transport cuts the stream into chunks, draining
  after each chunk delivers the messages of the frames, in order, each once, and leaves nothing.
\<close>

locale framing =
  fixes frame :: "'f \<Rightarrow> 'b list" \<comment> \<open>the bytes of one frame\<close>
    and good :: "'f \<Rightarrow> bool" \<comment> \<open>frames the receiver accepts\<close>
    and msg :: "'f \<Rightarrow> 'm" \<comment> \<open>what such a frame is decoded to\<close>
    and drain :: "'b list \<Rightarrow> 'm list \<times> 'b list \<times> 'x option"
      \<comment> \<open>messages taken, bytes left, exception that stopped the drain\<close>
  assumes drain_wait: "good f \<Longrightarrow> strict_prefix p (frame f) \<Longrightarrow> drain p = ([], p, None)"
    and drain_take: "good f \<Longrightarrow> drain (frame f @ r) = (case drain r of (ms, b, x) \<Rightarrow> (msg f # ms, b, x))"
    and drain_empty: "drain [] = ([], [], None)"
begin

text \<open>The bytes left are an unfinished frame of the stream still to come.\<close>

definition unfinished :: "'b list \<Rightarrow> 'f list \<Rightarrow> bool" where
  "unfinished b fs = (case fs of [] \<Rightarrow> b = [] | f # _ \<Rightarrow> strict_prefix b (frame f))"

lemma drain_prefix:
  assumes "\<forall>f \<in> set fs. good f" and "concat (map frame fs) = s @ t"
  shows "\<exists>done todo b. fs = done @ todo \<and> drain s = (map msg done, b, None)
           \<and> unfinished b todo \<and> concat (map frame todo) = b @ t"
  using assms
proof (induction fs arbitrary: s)
  case Nil
  then show ?case by (simp add: drain_empty unfinished_def)
next
  case (Cons f fs)
  then have f: "good f" by simp
  from Cons.prems(2) have eq: "frame f @ concat (map frame fs) = s @ t" by simp
  show ?case
  proof (cases "strict_prefix s (frame f)")
    case True
    with drain_wait [OF f True] eq show ?thesis
      by (intro exI [of _ "[]"] exI [of _ "f # fs"] exI [of _ s]) (simp add: unfinished_def)
  next
    case False
    with eq obtain s' where s: "s = frame f @ s'"
      by (metis append_eq_append_conv2 prefix_order.le_less prefixI append_Nil2 prefix_def)
    with eq have "concat (map frame fs) = s' @ t" by simp
    with Cons obtain done1 todo b where
      r: "fs = done1 @ todo" "drain s' = (map msg done1, b, None)" "unfinished b todo"
        "concat (map frame todo) = b @ t"
      by auto
    then have "drain s = (map msg (f # done1), b, None)"
      by (simp add: s drain_take [OF f])
    with r show ?thesis
      by (intro exI [of _ "f # done1"] exI [of _ todo] exI [of _ b]) simp
  qed
qed

text \<open>
  Draining after each chunk: the bytes kept and the messages delivered so far.  A drain that
  raises delivers nothing.
\<close>

definition feed_chunk :: "'b list \<times> 'm list \<Rightarrow> 'b list \<Rightarrow> 'b list \<times> 'm list" where
  "feed_chunk st c =
     (case drain (fst st @ c) of
        (ms, b, None) \<Rightarrow> (b, snd st @ ms)
      | (ms, b, Some x) \<Rightarrow> (b, snd st))"

lemma feed_chunks:
  assumes "\<forall>f \<in> set fs. good f" and "unfinished b fs"
    and "concat (map frame fs) = b @ concat cs"
  shows "foldl feed_chunk (b, out) cs = ([], out @ map msg fs)"
  using assms
proof (induction cs arbitrary: b fs out)
  case Nil
  then have "concat (map frame fs) = b" by simp
  with Nil.prems(2) show ?case
    by (cases fs) (auto simp: unfinished_def strict_prefix_def)
next
  case (Cons c cs)
  from Cons.prems(3) have "concat (map frame fs) = (b @ c) @ concat cs" by simp
  from drain_prefix [OF Cons.prems(1) this] obtain dn todo b' where
    r: "fs = dn @ todo" "drain (b @ c) = (map msg dn, b', None)" "unfinished b' todo"
      "concat (map frame todo) = b' @ concat cs"
    by blast
  from r(1) Cons.prems(1) have "\<forall>f \<in> set todo. good f" by simp
  from Cons.IH [OF this r(3,4), of "out @ map msg dn"] r show ?case
    by (simp add: feed_chunk_def)
qed

theorem reassembly:
  assumes "\<forall>f \<in> set fs. good f" and "concat cs = concat (map frame fs)"
    and "\<And>f. good f \<Longrightarrow> frame f \<noteq> []"
  shows "foldl feed_chunk ([], []) cs = ([], map msg fs)"
proof -
  have "unfinished [] fs"
    using assms(1,3) by (cases fs) (auto simp: unfinished_def strict_prefix_def dest: sym)
  from feed_chunks [OF assms(1) this, of cs "[]"] assms(2) show ?thesis by simp
qed

end

end
