(* ===== verification/Protocol.thy ===== *)
theory Protocol
  imports Decoder Framing
begin

text \<open>
  Encoder and decoder together: reassembly of a chunked byte stream, round trips of messages and
  RPC calls through the wire, what happens to text payloads, and the error paths of the receive
  buffer.
\<close>

section \<open>The receive loop as a framing\<close>

definition drain_buffer ::
  "codec \<Rightarrow> bytes \<Rightarrow> DecodedMessage list \<times> bytes \<times> decode_error option" where
  "drain_buffer cd b =
     (case decode_loop cd \<lparr>pd_buffer = b\<rparr> of (ms, d, x) \<Rightarrow> (ms, pd_buffer d, x))"

text \<open>A packet body with the message it is decoded to.\<close>

definition sound_body :: "codec \<Rightarrow> bytes \<times> DecodedMessage \<Rightarrow> bool" where
  "sound_body cd f = (body_ok (fst f) \<and> decode_single cd (fst f) = Inr (snd f))"

lemma drain_buffer_step:
  assumes "body_ok b"
  shows "drain_buffer cd (frame_of b @ r) =
    (case decode_single cd b of
       Inl x \<Rightarrow> ([], r, Some DecodeError)
     | Inr m \<Rightarrow> (case drain_buffer cd r of (ms, q, x) \<Rightarrow> (m # ms, q, x)))"
  using decode_one_frame [OF assms, of cd r]
  by (auto simp: drain_buffer_def decode_loop.simps [of cd "\<lparr>pd_buffer = frame_of b @ r\<rparr>"]
      split: sum.splits prod.splits)

lemma drain_buffer_wait:
  assumes "decode_one cd \<lparr>pd_buffer = p\<rparr> = (\<lparr>pd_buffer = p\<rparr>, Inr None)"
  shows "drain_buffer cd p = ([], p, None)"
proof -
  have "decode_loop cd \<lparr>pd_buffer = p\<rparr> = ([], \<lparr>pd_buffer = p\<rparr>, None)"
    by (subst decode_loop.simps) (simp add: assms)
  then show ?thesis by (simp add: drain_buffer_def)
qed

interpretation wire: framing
  "\<lambda>f. frame_of (fst f)" "sound_body cd" snd "drain_buffer cd"
  for cd
proof
  fix f :: "bytes \<times> DecodedMessage" and p :: bytes
  assume "sound_body cd f" "strict_prefix p (frame_of (fst f))"
  then show "drain_buffer cd p = ([], p, None)"
    by (intro drain_buffer_wait decode_one_wait) (auto simp: sound_body_def)
next
  fix f :: "bytes \<times> DecodedMessage" and r :: bytes
  assume "sound_body cd f"
  then show "drain_buffer cd (frame_of (fst f) @ r) =
      (case drain_buffer cd r of (ms, b, x) \<Rightarrow> (snd f # ms, b, x))"
    by (simp add: sound_body_def drain_buffer_step split: prod.split)
next
  show "drain_buffer cd [] = ([], [], None)"
    by (rule drain_buffer_wait) (simp add: decode_one_def)
qed

text \<open>The client of the decoder: feed what arrived, take every complete message.\<close>

definition receive_chunk ::
  "codec \<Rightarrow> ProtocolDecoder \<times> DecodedMessage list \<Rightarrow> bytes \<Rightarrow> ProtocolDecoder \<times> DecodedMessage list" where
  "receive_chunk cd st c =
     (case decode_all cd (feed (fst st) c) of
        (d, Inl x) \<Rightarrow> (d, snd st)
      | (d, Inr ms) \<Rightarrow> (d, snd st @ ms))"

lemma receive_chunk_feed_chunk:
  "receive_chunk cd (\<lparr>pd_buffer = b\<rparr>, out) c =
     (case wire.feed_chunk cd (b, out) c of (b', out') \<Rightarrow> (\<lparr>pd_buffer = b'\<rparr>, out'))"
  by (auto simp: receive_chunk_def wire.feed_chunk_def decode_all_def feed_def drain_buffer_def
      split: prod.splits option.splits)

lemma receive_chunks_feed_chunks:
  "foldl (receive_chunk cd) (\<lparr>pd_buffer = b\<rparr>, out) cs =
     (case foldl (wire.feed_chunk cd) (b, out) cs of (b', out') \<Rightarrow> (\<lparr>pd_buffer = b'\<rparr>, out'))"
  by (induction cs arbitrary: b out)
    (auto simp: receive_chunk_feed_chunk split: prod.split)

section \<open>Compression and payloads undone\<close>

lemma has_flag_or: "has_flag (f OR FLAG_CODEC_LZ4) FLAG_CODEC_LZ4"
proof -
  have "(f OR 128) AND 128 = (128 :: int)"
    by (rule bit_eqI) (auto simp: bit_and_iff bit_or_iff)
  then show ?thesis by (simp add: has_flag_def flag_defs)
qed

lemma compress_undone:
  assumes "compression_law cd p" and "compress cd p 0 = Inr (p', f')"
  shows "decompress_step cd f' p' = Some p"
  using assms
  by (auto simp: compress_def decompress_step_def compression_law_def has_flag_def flag_defs Let_def
      split: if_splits list.splits)

lemma serialize_undone:
  assumes "json_law cd v" and "serialize_data cd v = Inr bs"
    and "\<not> (\<exists>s. v = PStr s)" and "\<not> (\<exists>b. v = PBytes b)"
  shows "deserialize_data cd bs = v"
  using assms
  by (auto simp: serialize_data_def deserialize_data_def json_law_def utf8_decode_encode
      split: pyval.splits option.splits)

lemma find_packet_serialized:
  "packet_law cd p \<Longrightarrow> ser_Packet cd p = Some bs \<Longrightarrow> find_packet cd bs = Inr p"
  by (simp add: packet_law_def find_packet_def)

section \<open>A codec for the witnesses\<close>

text \<open>
  The smallest outside world in which all the laws hold: each serialiser knows one message and
  one byte string for it.
\<close>

definition knows :: "'a \<times> 'b \<Rightarrow> 'a \<Rightarrow> 'b option" where
  "knows ab x = (if x = fst ab then Some (snd ab) else None)"

definition knows_back :: "'a \<times> 'b \<Rightarrow> 'b \<Rightarrow> 'a option" where
  "knows_back ab y = (if y = snd ab then Some (fst ab) else None)"

definition sample_codec ::
  "Packet \<times> bytes \<Rightarrow> MessagePayload \<times> bytes \<Rightarrow> RPCRequestPayload \<times> bytes
     \<Rightarrow> RPCResponsePayload \<times> bytes \<Rightarrow> pyval \<times> string \<Rightarrow> codec" where
  "sample_codec pk mp rq rr js =
     \<lparr>ser_Packet = knows pk, parse_Packet = knows_back pk,
      ser_MessagePayload = knows mp, parse_MessagePayload = knows_back mp,
      ser_RPCRequest = knows rq, parse_RPCRequest = knows_back rq,
      ser_RPCResponse = knows rr, parse_RPCResponse = knows_back rr,
      ser_AuthRequest = (\<lambda>_. None), parse_AuthRequest = (\<lambda>_. None),
      ser_AuthResponse = (\<lambda>_. None), parse_AuthResponse = (\<lambda>_. None),
      json_dumps = knows js, json_loads = knows_back js, repr_str = (\<lambda>_. []),
      rust_compression = True, compress_payload = (\<lambda>p. 0 # p),
      decompress_payload = (\<lambda>p. case p of [] \<Rightarrow> None | _ # q \<Rightarrow> Some q),
      zlib_decompress = (\<lambda>_. None)\<rparr>"

lemma sample_codec_laws:
  "packet_law (sample_codec pk mp rq rr js) p"
  "message_law (sample_codec pk mp rq rr js) p1"
  "rpc_request_law (sample_codec pk mp rq rr js) p2"
  "rpc_response_law (sample_codec pk mp rq rr js) p3"
  "compression_law (sample_codec pk mp rq rr js) p4"
  "str_ok (snd js) \<Longrightarrow> snd js \<noteq> [] \<Longrightarrow> json_law (sample_codec pk mp rq rr js) v"
  by (simp_all add: packet_law_def message_law_def rpc_request_law_def rpc_response_law_def
      compression_law_def json_law_def sample_codec_def knows_def knows_back_def)

text \<open>A body that decodes, for the witnesses.\<close>

lemma sample_pause:
  "\<exists>m. decode_single (sample_codec (build_packet PAUSE [] None 0 None None False 0, [9, 9])
     mp rq rr js) [9, 9] = Inr m"
proof -
  let ?pk = "build_packet PAUSE [] None 0 None None False 0"
  let ?cd = "sample_codec (?pk, [9, 9]) mp rq rr js"
  have "find_packet ?cd [9, 9] = Inr ?pk"
    by (simp add: find_packet_def sample_codec_def knows_back_def)
  moreover have "decode_payload ?cd PAUSE [] = Some PNone"
    by (simp add: decode_payload_def deserialize_data_def)
  moreover have "MessageType_of 10 = Some PAUSE" by (simp add: MessageType_of_Some)
  ultimately show ?thesis
    by (simp add: decode_single_def decode_packet_def build_packet_def decompress_step_def
        has_flag_def)
qed

text \<open>The laws every round trip below assumes of the outside code.\<close>

definition wire_laws :: "codec \<Rightarrow> bool" where
  "wire_laws cd = ((\<forall>p. packet_law cd p) \<and> (\<forall>p. message_law cd p) \<and> (\<forall>p. rpc_request_law cd p)
     \<and> (\<forall>p. rpc_response_law cd p) \<and> (\<forall>p. compression_law cd p))"

lemma sample_wire_laws: "wire_laws (sample_codec pk mp rq rr js)"
  by (simp add: wire_laws_def sample_codec_laws)

section \<open>A frame the encoder built, read back\<close>

lemma encode_plain_frame:
  assumes enc: "encode_plain cd e t payload corr now = (Inr frame, e')"
    and corr: "corr \<noteq> None \<or> t \<noteq> RPC_REQUEST" and laws: "wire_laws cd"
  shows "\<exists>b p. frame = frame_of b \<and> find_packet cd b = Inr p \<and> parse_Packet cd b = Some p \<and> \<not> pkt_is_mesh p
     \<and> decompress_step cd (pkt_flags p) (pkt_payload p) = Some payload
     \<and> pkt_type p = MessageType_value t \<and> pkt_timestamp p = now_ms now
     \<and> pkt_correlation_id p = (case corr of None \<Rightarrow> 0 | Some c \<Rightarrow> c) \<and> e' = e"
proof -
  from enc obtain payload' flags' where
    c: "(if pe_enable_compression e \<and> payload \<noteq> [] then compress cd payload 0
         else Inr (payload, 0)) = Inr (payload', flags')"
    by (auto simp: encode_plain_def encode_def split: sum.splits)
  define p where "p = build_packet t payload' corr flags' None None False now"
  from enc c corr have fr: "frame_packet cd p = Inr frame" and e': "e' = e"
    by (auto simp: encode_plain_def encode_def p_def split: if_splits)
  from fr obtain b where b: "ser_Packet cd p = Some b" and f: "frame = frame_of b"
    by (auto simp: frame_packet_def frame_of_def to_bytes_be_def split: option.splits if_splits)
  have "find_packet cd b = Inr p"
    using laws b by (intro find_packet_serialized) (auto simp: wire_laws_def)
  moreover have "parse_Packet cd b = Some p" using laws b by (auto simp: wire_laws_def packet_law_def)
  moreover have "decompress_step cd flags' payload' = Some payload"
  proof (cases "pe_enable_compression e \<and> payload \<noteq> []")
    case True
    with c laws show ?thesis by (intro compress_undone) (auto simp: wire_laws_def)
  next
    case False
    with c show ?thesis by (auto simp: decompress_step_def has_flag_def)
  qed
  ultimately show ?thesis
    using f e' by (intro exI [of _ b] exI [of _ p]) (simp add: p_def build_packet_def)
qed

text \<open>The message such a frame gives, seen by the receiver that holds it at the front of its buffer.\<close>

lemma frame_delivered:
  assumes enc: "encode_plain cd e t payload corr now = (Inr frame, e')"
    and corr: "corr \<noteq> None \<or> t \<noteq> RPC_REQUEST" and laws: "wire_laws cd"
    and pl: "decode_payload cd t payload = Some v"
    and size: "length frame \<le> 100 * 1024 * 1024"
  shows "\<exists>m. decode_one cd \<lparr>pd_buffer = frame @ rest\<rparr> = (\<lparr>pd_buffer = rest\<rparr>, Inr (Some m))
     \<and> dm_payload m = v \<and> dm_message_type m = t \<and> dm_timestamp m = now_ms now
     \<and> dm_correlation_id m = (case corr of None \<Rightarrow> 0 | Some c \<Rightarrow> c)"
proof -
  from encode_plain_frame [OF enc corr laws] obtain b p where
    p: "frame = frame_of b" "find_packet cd b = Inr p"
      "decompress_step cd (pkt_flags p) (pkt_payload p) = Some payload"
      "pkt_type p = MessageType_value t" "pkt_timestamp p = now_ms now"
      "pkt_correlation_id p = (case corr of None \<Rightarrow> 0 | Some c \<Rightarrow> c)"
    by blast
  then obtain m where m: "decode_single cd b = Inr m" "dm_payload m = v" "dm_message_type m = t"
    "dm_timestamp m = now_ms now"
    "dm_correlation_id m = (case corr of None \<Rightarrow> 0 | Some c \<Rightarrow> c)"
    using pl by (simp add: decode_single_def decode_packet_def dm_message_type_def
        dm_correlation_id_def dm_timestamp_def)
  have "body_ok b" using p(1) size by (simp add: body_ok_def)
  from decode_one_frame [OF this] p(1) m show ?thesis by (intro exI [of _ m]) simp
qed

text \<open>
  The transport hands a frame over with its prefix, and \<open>decode_single\<close> tries to parse it as it
  is first.  A length prefix of up to 100 MiB begins with a byte below 8, a protobuf tag with field
  number 0, which every parser must reject.
\<close>

definition framed_law :: "codec \<Rightarrow> bool" where
  "framed_law cd = (\<forall>b. length b \<le> 100 * 1024 * 1024 \<longrightarrow> parse_Packet cd (frame_of b) = None)"

lemma frame_received:
  assumes enc: "encode_plain cd e t payload corr now = (Inr frame, e')"
    and corr: "corr \<noteq> None \<or> t \<noteq> RPC_REQUEST" and laws: "wire_laws cd" "framed_law cd"
    and pl: "decode_payload cd t payload = Some v"
    and size: "length frame \<le> 100 * 1024 * 1024"
  shows "\<exists>m. decode_single cd frame = Inr m \<and> dm_payload m = v \<and> dm_message_type m = t \<and> \<not> dm_is_mesh m
     \<and> dm_correlation_id m = (case corr of None \<Rightarrow> 0 | Some c \<Rightarrow> c)"
proof -
  from encode_plain_frame [OF enc corr laws(1)] obtain b p where
    p: "frame = frame_of b" "parse_Packet cd b = Some p" "\<not> pkt_is_mesh p"
      "decompress_step cd (pkt_flags p) (pkt_payload p) = Some payload"
      "pkt_type p = MessageType_value t" "pkt_correlation_id p = (case corr of None \<Rightarrow> 0 | Some c \<Rightarrow> c)"
    by blast
  have len: "length b \<le> 100 * 1024 * 1024" using p(1) size by (simp add: length_frame_of)
  then have "parse_Packet cd frame = None" using laws(2) p(1) by (simp add: framed_law_def)
  moreover have "from_be (take 4 frame) = length b" "drop 4 frame = b"
    using p(1) len by (simp_all add: frame_of_def from_be_digits)
  ultimately have "find_packet cd frame = Inr p"
    using p(1,2) by (simp add: find_packet_def length_frame_of Let_def)
  with p pl show ?thesis
    by (simp add: decode_single_def decode_packet_def dm_message_type_def dm_correlation_id_def)
qed

text \<open>Values that \<open>serialize_data\<close> writes as JSON, or not at all.\<close>

definition structured :: "pyval \<Rightarrow> bool" where
  "structured v = (case v of PStr _ \<Rightarrow> False | PBytes _ \<Rightarrow> False | _ \<Rightarrow> True)"

lemma structured_undone:
  "json_law cd v \<Longrightarrow> structured v \<Longrightarrow> serialize_data cd v = Inr bs \<Longrightarrow> deserialize_data cd bs = v"
  by (rule serialize_undone) (auto simp: structured_def)

section \<open>RPC frames\<close>

lemma rpc_request_encoded:
  assumes "encode_rpc_request cd e meth params None now = (Inr (frame, c), e')"
    and "wire_laws cd" and "json_law cd params" and "structured params"
  shows "c = int (pe_correlation_counter e) + 1 \<and> pe_correlation_counter e' = pe_correlation_counter e + 1
    \<and> (\<exists>e1 payload. encode_plain cd e1 RPC_REQUEST payload (Some c) now = (Inr frame, e')
      \<and> decode_payload cd RPC_REQUEST payload = Some (PDict [(''method'', PStr meth), (''params'', params)]))"
proof -
  define e1 where "e1 = e\<lparr>pe_correlation_counter := pe_correlation_counter e + 1\<rparr>"
  define k where "k = int (pe_correlation_counter e1)"
  have step: "encode_rpc_request cd e meth params None now =
      (case serialize_data cd params of
         Inl x \<Rightarrow> (Inl x, e1)
       | Inr bs \<Rightarrow> (case encode_serialized cd e1 RPC_REQUEST
             (ser_RPCRequest cd \<lparr>rq_method = meth, rq_params = bs\<rparr>) (Some k) now of
           (Inl x, e2) \<Rightarrow> (Inl x, e2) | (Inr fr, e2) \<Rightarrow> (Inr (fr, k), e2)))"
    by (simp add: encode_rpc_request_def next_correlation_id_def e1_def k_def Let_def
        split: sum.split prod.split)
  from assms(1)[unfolded step] obtain bs where bs: "serialize_data cd params = Inr bs"
    and enc: "encode_serialized cd e1 RPC_REQUEST
        (ser_RPCRequest cd \<lparr>rq_method = meth, rq_params = bs\<rparr>) (Some k) now = (Inr frame, e')"
    and c: "c = k"
    by (auto split: sum.splits prod.splits)
  from enc obtain payload where
    payload: "ser_RPCRequest cd \<lparr>rq_method = meth, rq_params = bs\<rparr> = Some payload"
    and enc: "encode_plain cd e1 RPC_REQUEST payload (Some k) now = (Inr frame, e')"
    by (auto simp: encode_serialized_def split: option.splits)
  from payload assms(2) have pl:
    "decode_payload cd RPC_REQUEST payload = Some (PDict [(''method'', PStr meth), (''params'', params)])"
    using structured_undone [OF assms(3,4) bs]
    by (auto simp: wire_laws_def rpc_request_law_def decode_payload_def)
  from encode_plain_frame [OF enc _ assms(2)] have "e' = e1" by auto
  with c enc pl show ?thesis by (auto simp: k_def e1_def)
qed

lemma rpc_response_encoded:
  assumes "encode_rpc_response cd e v corr True now = (Inr frame, e')"
    and "\<forall>d. v = PDict d \<longrightarrow> \<not> dict_has d ''success''"
    and "wire_laws cd" and "json_law cd v" and "structured v"
  shows "\<exists>payload. encode_plain cd e RPC_RESPONSE payload (Some corr) now = (Inr frame, e')
    \<and> decode_payload cd RPC_RESPONSE payload =
      Some (PDict [(''success'', PBool True), (''result'', v), (''error'', PNone), (''code'', PInt 0)])"
proof -
  from assms(1,2) obtain bs payload where bs: "serialize_data cd v = Inr bs"
    and payload: "ser_RPCResponse cd (response_ok bs) = Some payload"
    and enc: "encode_plain cd e RPC_RESPONSE payload (Some corr) now = (Inr frame, e')"
    by (auto simp: encode_rpc_response_def rpc_response_payload_def encode_serialized_def
        split: sum.splits option.splits pyval.splits if_splits)
  from payload assms(3) have "decode_payload cd RPC_RESPONSE payload =
      Some (PDict [(''success'', PBool True), (''result'', v), (''error'', PNone), (''code'', PInt 0)])"
    using structured_undone [OF assms(4,5) bs]
    by (auto simp: wire_laws_def rpc_response_law_def decode_payload_def response_ok_def)
  with enc show ?thesis by blast
qed

section \<open>Properties\<close>

text \<open>
  C3. Reassembly: however the transport cuts a stream of well-formed frames into chunks, feeding
  each chunk and draining with \<open>decode_all\<close> delivers exactly the decoded messages, in order, each
  once, and leaves an empty buffer.
\<close>

theorem stream_reassembly:
  assumes "\<forall>f \<in> set fs. body_ok (fst f) \<and> decode_single cd (fst f) = Inr (snd f)"
    and "concat chunks = concat (map (\<lambda>f. frame_of (fst f)) fs)"
  shows "foldl (receive_chunk cd) (new_decoder, []) chunks = (new_decoder, map snd fs)"
proof -
  have "\<forall>f \<in> set fs. sound_body cd f" using assms(1) by (simp add: sound_body_def)
  moreover have "frame_of (fst f) \<noteq> []" for f :: "bytes \<times> DecodedMessage"
    using length_frame_of [of "fst f"] by fastforce
  ultimately have "foldl (wire.feed_chunk cd) ([], []) chunks = ([], map snd fs)"
    using assms(2) by (intro wire.reassembly) auto
  then show ?thesis
    using receive_chunks_feed_chunks [of cd "[]" "[]" chunks] by (simp add: new_decoder_def)
qed

theorem stream_reassembly_witness:
  "\<exists>cd m. foldl (receive_chunk cd) (new_decoder, [])
       [[0, 0], [0, 2, 9], [9, 0, 0, 0, 2, 9, 9]] = (new_decoder, [m, m])"
proof -
  let ?pk = "build_packet PAUSE [] None 0 None None False 0"
  let ?cd = "sample_codec (?pk, [9, 9]) undefined undefined undefined (PNone, ''null'')"
  obtain m where m: "decode_single ?cd [9, 9] = Inr m" using sample_pause by blast
  have "\<forall>f \<in> set [([9, 9], m), ([9, 9], m)]. body_ok (fst f) \<and> decode_single ?cd (fst f) = Inr (snd f)"
    using m by (simp add: body_ok_def)
  moreover have "concat [[0, 0], [0, 2, 9], [9, 0, 0, 0, 2, 9, 9]] =
      concat (map (\<lambda>f. frame_of (fst f)) [([9, 9 :: byte], m), ([9, 9], m)])"
    by (simp add: frame_of_def be_digits_numeral)
  ultimately have "foldl (receive_chunk ?cd) (new_decoder, [])
       [[0, 0], [0, 2, 9], [9, 0, 0, 0, 2, 9, 9]] = (new_decoder, map snd [([9, 9 :: byte], m), ([9, 9], m)])"
    by (rule stream_reassembly)
  then show ?thesis by auto
qed

text \<open>
  C14. Message round trip: the frame that \<open>encode_message\<close> builds for a structured value (with or
  without compression) is taken off the front of the receive buffer as one message with the same
  type, data, correlation id and timestamp, and the bytes behind it stay.
\<close>

theorem message_roundtrip:
  assumes "encode_message cd e mt v corr now = (Inr frame, e')"
    and "wire_laws cd" and "json_law cd v" and "structured v"
    and "length frame \<le> 100 * 1024 * 1024"
  shows "\<exists>m. decode_one cd \<lparr>pd_buffer = frame @ rest\<rparr> = (\<lparr>pd_buffer = rest\<rparr>, Inr (Some m))
      \<and> get_message_type_str m = PStr mt \<and> get_data m = v
      \<and> dm_correlation_id m = (case corr of None \<Rightarrow> 0 | Some c \<Rightarrow> c)
      \<and> dm_timestamp m = now_ms now"
proof -
  from assms(1) obtain bs payload where bs: "serialize_data cd v = Inr bs"
    and payload: "ser_MessagePayload cd \<lparr>mp_type = mt, mp_data = bs\<rparr> = Some payload"
    and enc: "encode_plain cd e MESSAGE payload corr now = (Inr frame, e')"
    by (auto simp: encode_message_def encode_serialized_def split: sum.splits option.splits)
  from payload assms(2) have
    "decode_payload cd MESSAGE payload = Some (PDict [(''type'', PStr mt), (''data'', v)])"
    using structured_undone [OF assms(3,4) bs]
    by (auto simp: wire_laws_def message_law_def decode_payload_def)
  from frame_delivered [OF enc _ assms(2) this assms(5), of rest] show ?thesis
    by (auto simp: get_message_type_str_def get_data_def dict_get_def)
qed

theorem message_roundtrip_witness:
  "\<exists>cd e frame e' m. encode_message cd e ''hi'' (PInt 5) (Some 3) 2 = (Inr frame, e')
      \<and> decode_one cd \<lparr>pd_buffer = frame @ [7]\<rparr> = (\<lparr>pd_buffer = [7]\<rparr>, Inr (Some m))
      \<and> get_data m = PInt 5"
proof -
  let ?pk = "build_packet MESSAGE [8] (Some 3) 0 None None False 2"
  let ?mp = "\<lparr>mp_type = ''hi'', mp_data = utf8_encode ''5''\<rparr>"
  let ?cd = "sample_codec (?pk, [1, 2]) (?mp, [8]) undefined undefined (PInt 5, ''5'')"
  let ?e = "new_encoder True"
  have enc: "encode_message ?cd ?e ''hi'' (PInt 5) (Some 3) 2 = (Inr [0, 0, 0, 2, 1, 2], ?e)"
    by (simp add: encode_message_def serialize_data_def encode_simps compress_def
        sample_codec_def knows_def new_encoder_def to_bytes_be_def be_digits_numeral)
  have "json_law ?cd (PInt 5)"
    by (rule sample_codec_laws) (simp_all add: str_ok_def of_char_def)
  from message_roundtrip [OF enc sample_wire_laws this, of "[7]"] obtain m where
    "decode_one ?cd \<lparr>pd_buffer = [0, 0, 0, 2, 1, 2] @ [7]\<rparr> = (\<lparr>pd_buffer = [7]\<rparr>, Inr (Some m))"
    "get_data m = PInt 5"
    by (auto simp: structured_def)
  with enc show ?thesis
    by (intro exI [of _ ?cd] exI [of _ ?e] exI [of _ "[0, 0, 0, 2, 1, 2]"] exI [of _ m] conjI)
qed

text \<open>
  RPC request round trip: a call encoded without a correlation id takes the next id of the
  encoder's counter, and the receiver reads back the method, the parameters (an empty dict unless
  they are a dict) and that id.
\<close>

lemma rpc_request_roundtrip:
  assumes "encode_rpc_request cd e meth params None now = (Inr (frame, c), e')"
    and "wire_laws cd" and "json_law cd params" and "structured params"
    and "length frame \<le> 100 * 1024 * 1024"
  shows "c = int (pe_correlation_counter e) + 1 \<and> pe_correlation_counter e' = pe_correlation_counter e + 1
      \<and> (\<exists>m. decode_one cd \<lparr>pd_buffer = frame @ rest\<rparr> = (\<lparr>pd_buffer = rest\<rparr>, Inr (Some m))
        \<and> get_rpc_method m = PStr meth \<and> dm_correlation_id m = c
        \<and> get_rpc_params m = (case params of PDict p \<Rightarrow> p | _ \<Rightarrow> []))"
proof -
  from rpc_request_encoded [OF assms(1-4)] obtain e1 payload where
    c: "c = int (pe_correlation_counter e) + 1" "pe_correlation_counter e' = pe_correlation_counter e + 1"
    and enc: "encode_plain cd e1 RPC_REQUEST payload (Some c) now = (Inr frame, e')"
    and pl: "decode_payload cd RPC_REQUEST payload = Some (PDict [(''method'', PStr meth), (''params'', params)])"
    by blast
  from frame_delivered [OF enc _ assms(2) pl assms(5), of rest] show ?thesis
    using c by (auto simp: get_rpc_method_def get_rpc_params_def dict_get_def)
qed

text \<open>
  RPC result round trip: a structured result that does not carry a "success" key of its own is
  sent as an RPC_RESPONSE, and the caller reads back that result under the request's id.
\<close>

lemma rpc_response_roundtrip:
  assumes "encode_rpc_response cd e v corr True now = (Inr frame, e')"
    and "\<forall>d. v = PDict d \<longrightarrow> \<not> dict_has d ''success''"
    and "wire_laws cd" and "json_law cd v" and "structured v"
    and "length frame \<le> 100 * 1024 * 1024"
  shows "\<exists>m. decode_one cd \<lparr>pd_buffer = frame @ rest\<rparr> = (\<lparr>pd_buffer = rest\<rparr>, Inr (Some m))
      \<and> dm_message_type m = RPC_RESPONSE \<and> dm_correlation_id m = corr
      \<and> get_rpc_result m = v \<and> dm_is_success m = PBool True"
proof -
  from rpc_response_encoded [OF assms(1-5)] obtain payload where
    enc: "encode_plain cd e RPC_RESPONSE payload (Some corr) now = (Inr frame, e')"
    and pl: "decode_payload cd RPC_RESPONSE payload =
      Some (PDict [(''success'', PBool True), (''result'', v), (''error'', PNone), (''code'', PInt 0)])"
    by blast
  from frame_delivered [OF enc _ assms(3) pl assms(6), of rest] show ?thesis
    by (auto simp: get_rpc_result_def dm_is_success_def dict_get_def dict_has_def)
qed

text \<open>
  Text is not always text: a non-empty UTF-8 string sent as message data comes back as that
  string exactly when it is not itself the JSON text of another value; the empty string comes back
  as None.
\<close>

lemma text_payload_fidelity:
  assumes "str_ok s"
  shows "\<exists>bs. serialize_data cd (PStr s) = Inr bs
    \<and> (deserialize_data cd bs = PStr s \<longleftrightarrow>
         s \<noteq> [] \<and> (json_loads cd s = None \<or> json_loads cd s = Some (PStr s)))"
  using assms
  by (auto simp: serialize_data_def deserialize_data_def utf8_decode_encode split: option.splits)

text \<open>
  A frame whose body does not decode ends \<open>decode_all\<close> with a DecodeError: the frame is gone
  from the buffer, the bytes behind it stay, and the messages already decoded in front of it are
  not returned.
\<close>

lemma decode_all_drops_earlier:
  assumes "\<forall>f \<in> set fs. body_ok (fst f) \<and> decode_single cd (fst f) = Inr (snd f)"
    and "body_ok bad" and "decode_single cd bad = Inl x"
  shows "decode_all cd \<lparr>pd_buffer = concat (map (\<lambda>f. frame_of (fst f)) fs) @ frame_of bad @ rest\<rparr>
    = (\<lparr>pd_buffer = rest\<rparr>, Inl DecodeError)"
proof -
  have "drain_buffer cd (concat (map (\<lambda>f. frame_of (fst f)) fs) @ frame_of bad @ rest)
      = (map snd fs, rest, Some DecodeError)"
    using assms by (induction fs) (simp_all add: drain_buffer_step)
  then show ?thesis
    by (auto simp: drain_buffer_def decode_all_def split: prod.splits)
qed

end
