(* ===== verification/Flow.thy ===== *)
theory Flow
  imports Prelude
begin

text \<open>
  \<open>src/conduit/backpressure/flow_control.py\<close>: the watermark controller that pauses and resumes a
  sender.  The callbacks that send the signals are Boolean fields (set or not); an operation
  returns the signals it sent.  A callback that raises is logged and changes nothing; a callback
  that calls back into the controller is not modelled.
\<close>

section \<open>State\<close>

datatype BackpressureState = FLOWING | PAUSED | RESUMING

datatype flow_signal = SendPause | SendResume

record FlowStats =
  fs_pause_count :: nat
  fs_resume_count :: nat
  fs_total_pause_duration_ms :: time
  fs_current_pause_start :: "time option"

record FlowController =
  fc_high_watermark :: rat
  fc_low_watermark :: rat
  fc_enabled :: bool
  fc_on_pause :: bool
  fc_on_resume :: bool
  fc_state :: BackpressureState
  fc_stats :: FlowStats
  fc_paused_event :: bool \<comment> \<open>the event is set\<close>

definition new_flow_stats :: FlowStats where
  "new_flow_stats = \<lparr>fs_pause_count = 0, fs_resume_count = 0, fs_total_pause_duration_ms = 0,
     fs_current_pause_start = None\<rparr>"

definition new_flow_controller :: "rat \<Rightarrow> rat \<Rightarrow> bool \<Rightarrow> bool \<Rightarrow> bool \<Rightarrow> FlowController" where
  "new_flow_controller high low enabled on_pause on_resume =
     \<lparr>fc_high_watermark = high, fc_low_watermark = low, fc_enabled = enabled,
      fc_on_pause = on_pause, fc_on_resume = on_resume, fc_state = FLOWING,
      fc_stats = new_flow_stats, fc_paused_event = True\<rparr>"

section \<open>Operations\<close>

definition set_callbacks :: "bool \<Rightarrow> bool \<Rightarrow> FlowController \<Rightarrow> FlowController" where
  "set_callbacks on_pause on_resume c = c\<lparr>fc_on_pause := on_pause, fc_on_resume := on_resume\<rparr>"

definition trigger_pause :: "time \<Rightarrow> FlowController \<Rightarrow> FlowController \<times> flow_signal list" where
  "trigger_pause now c =
     (if fc_state c = PAUSED then (c, [])
      else
        (c\<lparr>fc_state := PAUSED,
           fc_stats := (fc_stats c)\<lparr>fs_pause_count := fs_pause_count (fc_stats c) + 1,
                                   fs_current_pause_start := Some now\<rparr>,
           fc_paused_event := False\<rparr>,
         if fc_on_pause c then [SendPause] else []))"

text \<open>\<open>if self._stats.current_pause_start\<close> is false for None and for 0.0.\<close>

definition end_pause :: "time \<Rightarrow> FlowStats \<Rightarrow> FlowStats" where
  "end_pause now s =
     (case fs_current_pause_start s of
        None \<Rightarrow> s
      | Some start \<Rightarrow>
          if start = 0 then s
          else s\<lparr>fs_total_pause_duration_ms :=
                   fs_total_pause_duration_ms s + (now - start) * 1000,
                 fs_current_pause_start := None\<rparr>)"

definition trigger_resume :: "time \<Rightarrow> FlowController \<Rightarrow> FlowController \<times> flow_signal list" where
  "trigger_resume now c =
     (if fc_state c = FLOWING then (c, [])
      else
        (c\<lparr>fc_state := FLOWING,
           fc_stats := end_pause now
             ((fc_stats c)\<lparr>fs_resume_count := fs_resume_count (fc_stats c) + 1\<rparr>),
           fc_paused_event := True\<rparr>,
         if fc_on_resume c then [SendResume] else []))"

definition check_and_update ::
  "rat \<Rightarrow> time \<Rightarrow> FlowController \<Rightarrow> (FlowController \<times> flow_signal list) \<times> BackpressureState" where
  "check_and_update fill_ratio now c =
     (if \<not> fc_enabled c then ((c, []), FLOWING)
      else
        (let r = (if fc_state c = FLOWING then
                    (if fill_ratio \<ge> fc_high_watermark c then trigger_pause now c else (c, []))
                  else if fc_state c = PAUSED then
                    (if fill_ratio \<le> fc_low_watermark c then trigger_resume now c else (c, []))
                  else (c, []))
         in (r, fc_state (fst r))))"

text \<open>
  \<open>wait_for_resume\<close>: the event is set by an operation of another task, \<open>wakes_after\<close> is when that
  happens first (None: never).  None is a wait that never returns.
\<close>

definition wait_for_resume :: "time option \<Rightarrow> time option \<Rightarrow> FlowController \<Rightarrow> bool option" where
  "wait_for_resume timeout wakes_after c =
     (if fc_paused_event c then Some True
      else case timeout of
        Some t \<Rightarrow>
          (if t = 0 then map_option (\<lambda>_. True) wakes_after
           else case wakes_after of Some w \<Rightarrow> Some (w < t) | None \<Rightarrow> Some False)
      | None \<Rightarrow> map_option (\<lambda>_. True) wakes_after)"

definition handle_remote_pause :: "FlowController \<Rightarrow> FlowController" where
  "handle_remote_pause c =
     c\<lparr>fc_state := PAUSED, fc_paused_event := False,
       fc_stats := (fc_stats c)\<lparr>fs_pause_count := fs_pause_count (fc_stats c) + 1\<rparr>\<rparr>"

definition handle_remote_resume :: "FlowController \<Rightarrow> FlowController" where
  "handle_remote_resume c =
     c\<lparr>fc_state := FLOWING, fc_paused_event := True,
       fc_stats := (fc_stats c)\<lparr>fs_resume_count := fs_resume_count (fc_stats c) + 1\<rparr>\<rparr>"

definition flow_is_paused :: "FlowController \<Rightarrow> bool" where
  "flow_is_paused c = (fc_state c = PAUSED)"

definition flow_is_flowing :: "FlowController \<Rightarrow> bool" where
  "flow_is_flowing c = (fc_state c = FLOWING)"

definition set_enabled :: "bool \<Rightarrow> FlowController \<Rightarrow> FlowController" where
  "set_enabled v c =
     (let c' = c\<lparr>fc_enabled := v\<rparr>
      in if \<not> v then c'\<lparr>fc_state := FLOWING, fc_paused_event := True\<rparr> else c')"

definition flow_reset :: "FlowController \<Rightarrow> FlowController" where
  "flow_reset c =
     c\<lparr>fc_state := FLOWING, fc_paused_event := True,
       fc_stats := (fc_stats c)\<lparr>fs_current_pause_start := None\<rparr>\<rparr>"

lemmas flow_ops =
  set_callbacks_def trigger_pause_def trigger_resume_def check_and_update_def
  handle_remote_pause_def handle_remote_resume_def set_enabled_def flow_reset_def Let_def

section \<open>Every reachable controller\<close>

text \<open>The calls of a controller, by name, and one call.\<close>

datatype flow_call =
    CheckAndUpdate rat time
  | HandleRemotePause
  | HandleRemoteResume
  | SetEnabled bool
  | SetCallbacks bool bool
  | FlowReset

fun do_flow_call :: "FlowController \<Rightarrow> flow_call \<Rightarrow> FlowController" where
  "do_flow_call c (CheckAndUpdate r now) = fst (fst (check_and_update r now c))"
| "do_flow_call c HandleRemotePause = handle_remote_pause c"
| "do_flow_call c HandleRemoteResume = handle_remote_resume c"
| "do_flow_call c (SetEnabled v) = set_enabled v c"
| "do_flow_call c (SetCallbacks p r) = set_callbacks p r c"
| "do_flow_call c FlowReset = flow_reset c"

definition flow_ok :: "FlowController \<Rightarrow> bool" where
  "flow_ok c = (fc_state c \<noteq> RESUMING \<and> (fc_paused_event c \<longleftrightarrow> fc_state c = FLOWING))"

definition flow_signals_seen :: "FlowController \<Rightarrow> nat" where
  "flow_signals_seen c = fs_pause_count (fc_stats c) + fs_resume_count (fc_stats c)"

interpretation flow: monotone_machine do_flow_call flow_ok flow_signals_seen
proof
  fix c e
  assume "flow_ok c"
  then show "flow_ok (do_flow_call c e)" "flow_signals_seen c \<le> flow_signals_seen (do_flow_call c e)"
    by (cases e; auto simp: flow_ok_def flow_signals_seen_def flow_ops end_pause_def
        split: option.splits)+
qed

lemma new_flow_ok: "flow_ok (new_flow_controller h l e p r)"
  by (simp add: flow_ok_def new_flow_controller_def)

section \<open>A run of fill ratios\<close>

text \<open>The signals a run of \<open>check_and_update\<close> calls sends, and the controller it leaves.\<close>

fun flow_run :: "FlowController \<Rightarrow> (rat \<times> time) list \<Rightarrow> FlowController \<times> flow_signal list" where
  "flow_run c [] = (c, [])"
| "flow_run c ((r, now) # rs) =
     (case check_and_update r now c of
        ((c', s), _) \<Rightarrow> (case flow_run c' rs of (c'', ss) \<Rightarrow> (c'', s @ ss)))"

text \<open>Signals that alternate, the next one being \<open>s\<close>.\<close>

fun alternating :: "flow_signal \<Rightarrow> flow_signal list \<Rightarrow> bool" where
  "alternating s [] = True"
| "alternating s (t # ts) =
     (t = s \<and> alternating (if s = SendPause then SendResume else SendPause) ts)"

text \<open>The sender must hold back: some ratio reached the high mark and none since fell to the low one.\<close>

fun overfull :: "rat \<Rightarrow> rat \<Rightarrow> bool \<Rightarrow> rat list \<Rightarrow> bool" where
  "overfull low high b [] = b"
| "overfull low high b (r # rs) = overfull low high (if b then \<not> r \<le> low else r \<ge> high) rs"

lemma overfull_iff:
  assumes "low < high"
  shows "overfull low high b rs \<longleftrightarrow>
    (\<exists>pre r post. rs = pre @ r # post \<and> r \<ge> high \<and> (\<forall>x \<in> set post. low < x))
    \<or> (b \<and> (\<forall>x \<in> set rs. low < x))"
proof (induction rs arbitrary: b)
  case Nil
  then show ?case by simp
next
  case (Cons r rs)
  have split: "(\<exists>pre q post. r # rs = pre @ q # post \<and> q \<ge> high \<and> (\<forall>x \<in> set post. low < x)) \<longleftrightarrow>
      (r \<ge> high \<and> (\<forall>x \<in> set rs. low < x)) \<or>
      (\<exists>pre q post. rs = pre @ q # post \<and> q \<ge> high \<and> (\<forall>x \<in> set post. low < x))"
    by (auto simp: Cons_eq_append_conv)
  show ?case
    using Cons.IH [of "if b then \<not> r \<le> low else r \<ge> high"] assms by (auto simp: split)
qed

lemma flow_run_overfull:
  assumes "flow_ok c" and "fc_enabled c" and "fc_on_pause c" and "fc_on_resume c"
  shows "case flow_run c rs of (c', ss) \<Rightarrow>
     (fc_state c' = PAUSED \<longleftrightarrow>
        overfull (fc_low_watermark c) (fc_high_watermark c) (fc_state c = PAUSED) (map fst rs))
     \<and> alternating (if fc_state c = PAUSED then SendResume else SendPause) ss
     \<and> fs_pause_count (fc_stats c') = fs_pause_count (fc_stats c) + count_list ss SendPause
     \<and> fs_resume_count (fc_stats c') = fs_resume_count (fc_stats c) + count_list ss SendResume
     \<and> flow_ok c'"
  using assms
proof (induction rs arbitrary: c)
  case Nil
  then show ?case by simp
next
  case (Cons p rs)
  obtain r now where p: "p = (r, now)" by (cases p)
  obtain c1 s b where u: "check_and_update r now c = ((c1, s), b)"
    by (cases "check_and_update r now c") auto
  have c1: "flow_ok c1" "fc_enabled c1" "fc_on_pause c1" "fc_on_resume c1"
    "fc_low_watermark c1 = fc_low_watermark c" "fc_high_watermark c1 = fc_high_watermark c"
    using u Cons.prems by (auto simp: flow_ok_def flow_ops split: if_splits)
  have st: "fc_state c1 = PAUSED \<longleftrightarrow> (if fc_state c = PAUSED then \<not> r \<le> fc_low_watermark c
      else r \<ge> fc_high_watermark c)"
    "s = (if fc_state c1 = fc_state c then []
          else if fc_state c = PAUSED then [SendResume] else [SendPause])"
    "fs_pause_count (fc_stats c1) = fs_pause_count (fc_stats c) + count_list s SendPause"
    "fs_resume_count (fc_stats c1) = fs_resume_count (fc_stats c) + count_list s SendResume"
    using u Cons.prems
    by (cases "fc_state c";
        auto simp: flow_ok_def flow_ops end_pause_def split: if_splits option.splits)+
  obtain c2 ss where run: "flow_run c1 rs = (c2, ss)" by (cases "flow_run c1 rs")
  have states: "fc_state c \<noteq> RESUMING" "fc_state c1 \<noteq> RESUMING"
    using Cons.prems(1) c1(1) by (simp_all add: flow_ok_def)
  from Cons.IH [OF c1(1-4)] run st c1(5,6) states show ?case
    by (cases "fc_state c"; cases "fc_state c1") (auto simp: p u)
qed

section \<open>Properties\<close>

text \<open>
  C29. Hysteresis: after any run of fill ratios an enabled controller is paused exactly when some
  ratio reached the high watermark and none since has fallen to the low one; the signals it sent
  alternate, beginning with a pause, and are what its counters count.
\<close>

theorem flow_hysteresis:
  assumes "low < high"
    and "flow_run (new_flow_controller high low True True True) rs = (c, signals)"
  shows "(flow_is_paused c \<longleftrightarrow>
      (\<exists>pre r post. map fst rs = pre @ r # post \<and> high \<le> r \<and> (\<forall>x \<in> set post. low < x)))
    \<and> alternating SendPause signals
    \<and> fs_pause_count (fc_stats c) = count_list signals SendPause
    \<and> fs_resume_count (fc_stats c) = count_list signals SendResume"
  using flow_run_overfull [OF new_flow_ok, of high low True True True rs] assms
  by (simp add: new_flow_controller_def new_flow_stats_def overfull_iff flow_is_paused_def)

theorem flow_hysteresis_witness:
  "\<exists>c. flow_run (new_flow_controller (4 / 5) (1 / 2) True True True)
      [(9 / 10, 1), (7 / 10, 2), (2 / 5, 3), (7 / 10, 4)] = (c, [SendPause, SendResume])
    \<and> \<not> flow_is_paused c \<and> alternating SendPause [SendPause, SendResume]"
proof -
  let ?run = "flow_run (new_flow_controller (4 / 5) (1 / 2) True True True)
      [(9 / 10, 1), (7 / 10, 2), (2 / 5, 3), (7 / 10, 4)]"
  have s: "snd ?run = [SendPause, SendResume]" "fc_state (fst ?run) = FLOWING"
    by (simp_all add: new_flow_controller_def flow_ops)
  then obtain c where c: "?run = (c, [SendPause, SendResume])" by (cases ?run) simp
  have "alternating SendPause [SendPause, SendResume]"
    using flow_hysteresis [OF _ c] by simp
  moreover have "fc_state c = FLOWING" using c s(2) by (metis fst_conv)
  ultimately show ?thesis using c by (auto simp: flow_is_paused_def)
qed

text \<open>
  Whatever calls a controller has had - local checks, remote signals, enabling, disabling,
  resets - a sender waits exactly while the controller is paused: if it is not, \<open>wait_for_resume\<close>
  returns True at once; if it is, it waits for a wake-up within the timeout.  A pause is never
  forgotten by the counters.
\<close>

lemma waiting_iff_paused:
  "let c = foldl do_flow_call (new_flow_controller high low enabled on_p on_r) calls
   in flow_is_flowing c \<noteq> flow_is_paused c
    \<and> wait_for_resume timeout wake c =
        (if flow_is_paused c
         then (if timeout = None \<or> timeout = Some 0 then map_option (\<lambda>_. True) wake
               else Some (\<exists>w. wake = Some w \<and> w < the timeout))
         else Some True)
    \<and> flow_signals_seen (foldl do_flow_call (new_flow_controller high low enabled on_p on_r) (take n calls))
        \<le> flow_signals_seen c"
proof -
  let ?start = "new_flow_controller high low enabled on_p on_r"
  let ?c = "foldl do_flow_call ?start calls"
  have ok: "flow_ok ?c" by (rule flow.run_inv [OF new_flow_ok])
  have "flow_signals_seen (foldl do_flow_call ?start (take n calls)) \<le>
      flow_signals_seen (foldl do_flow_call (foldl do_flow_call ?start (take n calls)) (drop n calls))"
    by (rule flow.run_level [OF flow.run_inv [OF new_flow_ok]])
  also have "\<dots> = flow_signals_seen ?c"
    by (metis append_take_drop_id foldl_append)
  finally show ?thesis
    using ok by (cases "fc_state ?c")
      (auto simp: Let_def flow_ok_def flow_is_paused_def flow_is_flowing_def wait_for_resume_def
        split: option.splits)
qed

end
