(* ===== verification/Rate.thy ===== *)
theory Rate
  imports Prelude
begin

text \<open>
  \<open>src/conduit/ratelimit/limiter.py\<close>: the token bucket of a connection.  Every public method takes
  the lock for its whole body, so an operation is one step; the clock it reads is its argument.
\<close>

section \<open>State and operations\<close>

record RateLimiter =
  rl_messages_per_second :: int
  rl_bytes_per_second :: int
  rl_message_tokens :: rat
  rl_byte_tokens :: rat
  rl_last_refill :: time

definition new_rate_limiter :: "int \<Rightarrow> int \<Rightarrow> time \<Rightarrow> RateLimiter" where
  "new_rate_limiter mps bps now =
     \<lparr>rl_messages_per_second = mps, rl_bytes_per_second = bps,
      rl_message_tokens = of_int mps, rl_byte_tokens = of_int bps, rl_last_refill = now\<rparr>"

definition refill :: "time \<Rightarrow> RateLimiter \<Rightarrow> RateLimiter" where
  "refill now r =
     (let elapsed = now - rl_last_refill r;
          mps = rl_messages_per_second r; bps = rl_bytes_per_second r
      in r\<lparr>rl_last_refill := now,
           rl_message_tokens :=
             (if mps > 0 then min (rl_message_tokens r + elapsed * of_int mps) (of_int mps)
              else rl_message_tokens r),
           rl_byte_tokens :=
             (if bps > 0 then min (rl_byte_tokens r + elapsed * of_int bps) (of_int bps)
              else rl_byte_tokens r)\<rparr>)"

definition try_acquire :: "nat \<Rightarrow> time \<Rightarrow> RateLimiter \<Rightarrow> RateLimiter \<times> bool" where
  "try_acquire bytes_count now r =
     (if rl_messages_per_second r = 0 \<and> rl_bytes_per_second r = 0 then (r, True)
      else
        (let r1 = refill now r; mps = rl_messages_per_second r; bps = rl_bytes_per_second r
         in if mps > 0 \<and> rl_message_tokens r1 < 1 then (r1, False)
            else if bps > 0 \<and> rl_byte_tokens r1 < of_nat bytes_count then (r1, False)
            else (r1\<lparr>rl_message_tokens :=
                       (if mps > 0 then rl_message_tokens r1 - 1 else rl_message_tokens r1),
                     rl_byte_tokens :=
                       (if bps > 0 then rl_byte_tokens r1 - of_nat bytes_count
                        else rl_byte_tokens r1)\<rparr>, True)))"

definition time_until_allowed :: "nat \<Rightarrow> time \<Rightarrow> RateLimiter \<Rightarrow> RateLimiter \<times> time" where
  "time_until_allowed bytes_count now r =
     (if rl_messages_per_second r = 0 \<and> rl_bytes_per_second r = 0 then (r, 0)
      else
        (let r1 = refill now r; mps = rl_messages_per_second r; bps = rl_bytes_per_second r;
             w1 = (if mps > 0 \<and> rl_message_tokens r1 < 1
                   then max 0 ((1 - rl_message_tokens r1) / of_int mps) else 0);
             w2 = (if bps > 0 \<and> rl_byte_tokens r1 < of_nat bytes_count
                   then max w1 ((of_nat bytes_count - rl_byte_tokens r1) / of_int bps) else w1)
         in (r1, w2)))"

definition rate_is_enabled :: "RateLimiter \<Rightarrow> bool" where
  "rate_is_enabled r = (rl_messages_per_second r > 0 \<or> rl_bytes_per_second r > 0)"

record RateLimitConfig =
  rlc_enabled :: bool
  rlc_messages_per_second :: int
  rlc_bytes_per_second :: int

definition default_RateLimitConfig :: RateLimitConfig where
  "default_RateLimitConfig = \<lparr>rlc_enabled = False, rlc_messages_per_second = 100,
     rlc_bytes_per_second = 10 * 1024 * 1024\<rparr>"

definition create_limiter :: "time \<Rightarrow> RateLimitConfig \<Rightarrow> RateLimiter" where
  "create_limiter now c =
     (if \<not> rlc_enabled c then new_rate_limiter 0 0 now
      else new_rate_limiter (rlc_messages_per_second c) (rlc_bytes_per_second c) now)"

lemmas rate_ops = refill_def try_acquire_def time_until_allowed_def Let_def

section \<open>The buckets never overflow\<close>

definition rate_ok :: "int \<Rightarrow> int \<Rightarrow> RateLimiter \<Rightarrow> bool" where
  "rate_ok mps bps r =
     (rl_messages_per_second r = mps \<and> rl_bytes_per_second r = bps
      \<and> (mps > 0 \<longrightarrow> rl_message_tokens r \<le> of_int mps)
      \<and> (bps > 0 \<longrightarrow> rl_byte_tokens r \<le> of_int bps))"

datatype rate_call = TryAcquire nat time | TimeUntilAllowed nat time

fun do_rate_call :: "RateLimiter \<Rightarrow> rate_call \<Rightarrow> RateLimiter" where
  "do_rate_call r (TryAcquire b now) = fst (try_acquire b now r)"
| "do_rate_call r (TimeUntilAllowed b now) = fst (time_until_allowed b now r)"

lemma refill_ok: "rate_ok mps bps r \<Longrightarrow> rate_ok mps bps (refill now r)"
  by (simp add: rate_ok_def refill_def Let_def)

lemma refill_rates [simp]:
  "rl_messages_per_second (refill now r) = rl_messages_per_second r"
  "rl_bytes_per_second (refill now r) = rl_bytes_per_second r"
  "rl_last_refill (refill now r) = now"
  by (simp_all add: refill_def Let_def)

lemma try_acquire_ok: "rate_ok mps bps r \<Longrightarrow> rate_ok mps bps (fst (try_acquire b now r))"
  using refill_ok [of mps bps r now]
  by (auto simp: rate_ok_def try_acquire_def Let_def intro: order_trans [rotated])

interpretation limiter: op_machine do_rate_call "rate_ok mps bps" for mps bps
proof
  fix r e
  assume "rate_ok mps bps r"
  then show "rate_ok mps bps (do_rate_call r e)"
    by (cases e) (auto simp: try_acquire_ok time_until_allowed_def Let_def refill_ok)
qed

lemma new_rate_ok: "rate_ok mps bps (new_rate_limiter mps bps now)"
  by (simp add: rate_ok_def new_rate_limiter_def)

lemma oversize_refused:
  assumes "rate_ok mps bps r" and "0 < bps" and "bps < int b"
  shows "\<not> snd (try_acquire b now r)"
proof -
  from assms have "rl_byte_tokens (refill now r) \<le> of_int bps" "rl_bytes_per_second r = bps"
    using refill_ok [OF assms(1), of now] by (simp_all add: rate_ok_def)
  moreover have "(of_int bps :: rat) < of_nat b"
    using assms(3) by (metis of_int_less_iff of_int_of_nat_eq)
  ultimately show ?thesis
    using assms(2) by (auto simp: try_acquire_def Let_def)
qed

text \<open>A bucket that needs \<open>n\<close> tokens has them after the wait the limiter computes.\<close>

lemma bucket_filled:
  fixes rate d t n cap :: rat
  assumes "0 < rate" and "0 \<le> d" and "t < n \<Longrightarrow> (n - t) / rate \<le> d" and "n \<le> cap"
  shows "n \<le> min (t + d * rate) cap"
proof (cases "t < n")
  case True
  with assms show ?thesis by (simp add: pos_divide_le_eq)
next
  case False
  have "0 \<le> d * rate" using assms by (intro mult_nonneg_nonneg) auto
  with False assms(4) show ?thesis by linarith
qed

section \<open>How much a run of requests is granted\<close>

text \<open>The sizes of the requests granted, each request a size and the time it is made.\<close>

fun grants :: "RateLimiter \<Rightarrow> (nat \<times> time) list \<Rightarrow> nat list" where
  "grants r [] = []"
| "grants r ((b, now) # qs) =
     (let (r', allowed) = try_acquire b now r
      in if allowed then b # grants r' qs else grants r' qs)"

text \<open>Request times that do not fall, from \<open>t\<close> to at most \<open>u\<close>.\<close>

fun times_within :: "time \<Rightarrow> time \<Rightarrow> (nat \<times> time) list \<Rightarrow> bool" where
  "times_within t u [] = (t \<le> u)"
| "times_within t u ((b, now) # qs) = (t \<le> now \<and> times_within now u qs)"

lemma times_within_le: "times_within t u qs \<Longrightarrow> t \<le> u"
  by (induction qs arbitrary: t) force+

text \<open>One request: what it takes from a bucket that has refilled.\<close>

lemma try_acquire_message_tokens:
  assumes "rl_messages_per_second r > 0" and "try_acquire b now r = (r', a)"
  shows "rl_messages_per_second r' = rl_messages_per_second r \<and> rl_last_refill r' = now
    \<and> rl_message_tokens r' + of_bool a
        \<le> rl_message_tokens r + (now - rl_last_refill r) * of_int (rl_messages_per_second r)
    \<and> (0 \<le> rl_message_tokens r \<longrightarrow> rl_last_refill r \<le> now \<longrightarrow> 0 \<le> rl_message_tokens r')"
  using assms by (auto simp: try_acquire_def refill_def Let_def split: if_splits)

lemma try_acquire_byte_tokens:
  assumes "rl_bytes_per_second r > 0" and "try_acquire b now r = (r', a)"
  shows "rl_bytes_per_second r' = rl_bytes_per_second r \<and> rl_last_refill r' = now
    \<and> rl_byte_tokens r' + (if a then of_nat b else 0)
        \<le> rl_byte_tokens r + (now - rl_last_refill r) * of_int (rl_bytes_per_second r)
    \<and> (0 \<le> rl_byte_tokens r \<longrightarrow> rl_last_refill r \<le> now \<longrightarrow> 0 \<le> rl_byte_tokens r')"
  using assms by (auto simp: try_acquire_def refill_def Let_def split: if_splits)

lemma grants_messages:
  assumes "rl_messages_per_second r > 0" and "0 \<le> rl_message_tokens r"
    and "times_within (rl_last_refill r) u qs"
  shows "of_nat (length (grants r qs))
    \<le> rl_message_tokens r + (u - rl_last_refill r) * of_int (rl_messages_per_second r)"
  using assms
proof (induction qs arbitrary: r)
  case Nil
  then show ?case by simp
next
  case (Cons q qs)
  obtain b now where q: "q = (b, now)" by (cases q)
  obtain r' a where t: "try_acquire b now r = (r', a)" by (cases "try_acquire b now r")
  from try_acquire_message_tokens [OF Cons.prems(1) t] Cons.prems
  have r': "rl_messages_per_second r' = rl_messages_per_second r" "rl_last_refill r' = now"
    "rl_message_tokens r' + of_bool a
        \<le> rl_message_tokens r + (now - rl_last_refill r) * of_int (rl_messages_per_second r)"
    "0 \<le> rl_message_tokens r'"
    by (auto simp: q)
  have "of_nat (length (grants r' qs))
      \<le> rl_message_tokens r' + (u - now) * of_int (rl_messages_per_second r)"
    using Cons.IH [of r'] Cons.prems r' by (simp add: q)
  with r'(3) show ?case by (cases a) (simp_all add: q t algebra_simps)
qed

lemma grants_bytes:
  assumes "rl_bytes_per_second r > 0" and "0 \<le> rl_byte_tokens r"
    and "times_within (rl_last_refill r) u qs"
  shows "of_nat (sum_list (grants r qs))
    \<le> rl_byte_tokens r + (u - rl_last_refill r) * of_int (rl_bytes_per_second r)"
  using assms
proof (induction qs arbitrary: r)
  case Nil
  then show ?case by simp
next
  case (Cons q qs)
  obtain b now where q: "q = (b, now)" by (cases q)
  obtain r' a where t: "try_acquire b now r = (r', a)" by (cases "try_acquire b now r")
  from try_acquire_byte_tokens [OF Cons.prems(1) t] Cons.prems
  have r': "rl_bytes_per_second r' = rl_bytes_per_second r" "rl_last_refill r' = now"
    "rl_byte_tokens r' + (if a then of_nat b else 0)
        \<le> rl_byte_tokens r + (now - rl_last_refill r) * of_int (rl_bytes_per_second r)"
    "0 \<le> rl_byte_tokens r'"
    by (auto simp: q)
  have "of_nat (sum_list (grants r' qs))
      \<le> rl_byte_tokens r' + (u - now) * of_int (rl_bytes_per_second r)"
    using Cons.IH [of r'] Cons.prems r' by (simp add: q)
  with r'(3) show ?case by (cases a) (simp_all add: q t algebra_simps)
qed

section \<open>Properties\<close>

text \<open>
  C11. The limit is a limit: whatever requests are made between the creation of a limiter and a
  later time, the messages granted are at most one second's worth (the burst) plus the rate times
  the time passed, and so are the bytes.
\<close>

theorem rate_limit_enforced:
  assumes "times_within start stop requests"
  shows "(mps > 0 \<longrightarrow> of_nat (length (grants (new_rate_limiter mps bps start) requests))
            \<le> of_int mps * (1 + (stop - start)))
    \<and> (bps > 0 \<longrightarrow> of_nat (sum_list (grants (new_rate_limiter mps bps start) requests))
            \<le> of_int bps * (1 + (stop - start)))"
  using grants_messages [of "new_rate_limiter mps bps start" stop requests]
    grants_bytes [of "new_rate_limiter mps bps start" stop requests] assms
  by (simp add: new_rate_limiter_def algebra_simps)

theorem rate_limit_enforced_witness:
  "times_within 0 (1 / 2) [(5, 0), (5, 0), (5, 0), (5, 1 / 2)]
    \<and> grants (new_rate_limiter 2 0 0) [(5, 0), (5, 0), (5, 0), (5, 1 / 2)] = [5, 5, 5]
    \<and> (of_nat (length (grants (new_rate_limiter 2 0 0) [(5, 0), (5, 0), (5, 0), (5, 1 / 2)])) :: rat)
        \<le> 2 * (1 + (1 / 2 - 0))"
proof -
  let ?qs = "[(5, 0), (5, 0), (5, 0), (5, 1 / 2)] :: (nat \<times> time) list"
  have t: "times_within 0 (1 / 2) ?qs" by simp
  moreover have "grants (new_rate_limiter 2 0 0) ?qs = [5, 5, 5]"
    by (simp add: new_rate_limiter_def rate_ops)
  ultimately show ?thesis using rate_limit_enforced [OF t, of 2 0] by simp
qed

text \<open>
  Waiting pays: if \<open>time_until_allowed\<close> says how long to wait for a message that is no larger
  than the byte bucket, a caller that waits that long (or longer) is granted it by
  \<open>try_acquire\<close>; and an answer of 0 is given exactly when it would be granted at once.
\<close>

lemma wait_then_granted:
  assumes "rl_bytes_per_second r > 0 \<longrightarrow> int b \<le> rl_bytes_per_second r"
    and "time_until_allowed b now r = (r', w)"
  shows "0 \<le> w \<and> (\<forall>later \<ge> now + w. snd (try_acquire b later r'))
    \<and> (w = 0 \<longleftrightarrow> snd (try_acquire b now r))"
proof -
  let ?m = "rl_messages_per_second r" and ?b = "rl_bytes_per_second r"
  let ?tm = "rl_message_tokens (refill now r)" and ?tb = "rl_byte_tokens (refill now r)"
  have limited: "?thesis" if en: "\<not> (?m = 0 \<and> ?b = 0)"
  proof -
    define wm where "wm = (if ?m > 0 \<and> ?tm < 1 then (1 - ?tm) / of_int ?m else 0)"
    define wb where "wb = (if ?b > 0 \<and> ?tb < of_nat b then (of_nat b - ?tb) / of_int ?b else 0)"
    have pos: "0 \<le> wm" "0 \<le> wb" by (auto simp: wm_def wb_def)
    have w: "r' = refill now r" "w = max wm wb"
      using assms(2) en pos by (auto simp: time_until_allowed_def Let_def wm_def wb_def split: if_splits)
    have granted: "snd (try_acquire b later r')" if "later \<ge> now + w" for later
    proof -
      have wait: "0 \<le> later - now" "wm \<le> later - now" "wb \<le> later - now"
        using that w(2) pos by auto
      have "1 \<le> rl_message_tokens (refill later r')" if "?m > 0"
        using bucket_filled [of "of_int ?m" "later - now" ?tm 1 "of_int ?m"] that wait
        by (simp add: w refill_def [of later] Let_def wm_def split: if_splits)
      moreover have "of_nat b \<le> rl_byte_tokens (refill later r')" if "?b > 0"
      proof -
        have "(of_nat b :: rat) \<le> of_int ?b"
          using assms(1) that by (metis of_int_le_iff of_int_of_nat_eq)
        then show ?thesis
          using bucket_filled [of "of_int ?b" "later - now" ?tb "of_nat b" "of_int ?b"] that wait
          by (simp add: w refill_def [of later] Let_def wb_def split: if_splits)
      qed
      ultimately show ?thesis by (auto simp: try_acquire_def Let_def w)
    qed
    have "w = 0 \<longleftrightarrow> wm = 0 \<and> wb = 0" using pos w(2) by auto
    also have "\<dots> \<longleftrightarrow> snd (try_acquire b now r)"
      using en by (auto simp: try_acquire_def Let_def wm_def wb_def)
    finally show ?thesis using granted pos w(2) by auto
  qed
  show ?thesis
  proof (cases "?m = 0 \<and> ?b = 0")
    case True
    with assms(2) show ?thesis by (auto simp: time_until_allowed_def try_acquire_def)
  next
    case False
    then show ?thesis by (rule limited)
  qed
qed

text \<open>
  A message larger than one second's worth of bytes is never granted, whatever calls the
  limiter has had and however long the caller waits.
\<close>

lemma oversize_never_granted:
  assumes "0 < bps" and "bps < int b"
  shows "\<not> snd (try_acquire b now (foldl do_rate_call (new_rate_limiter mps bps start) calls))"
  by (rule oversize_refused [OF limiter.run_inv [OF new_rate_ok] assms])

end
