(* ===== verification/Queue.thy ===== *)
theory Queue
  imports Prelude "HOL-Library.Multiset"
begin

text \<open>
  \<open>src/conduit/messages/queue.py\<close>: the bounded FIFO queue with its pause switch and counters, and
  the priority queue.  \<open>asyncio.Queue\<close> and \<open>asyncio.PriorityQueue\<close> are modelled as the standard
  library defines them; the client's view of a bounded queue is the locale \<open>bounded_queue\<close>,
  interpreted on the model of \<open>asyncio.Queue\<close>.
\<close>

section \<open>The contract of a bounded queue\<close>

locale bounded_queue =
  fixes enq :: "'q \<Rightarrow> 'a \<Rightarrow> 'q option" \<comment> \<open>None: full\<close>
    and deq :: "'q \<Rightarrow> ('a \<times> 'q) option" \<comment> \<open>None: empty\<close>
    and elems :: "'q \<Rightarrow> 'a list"
    and room :: "'q \<Rightarrow> nat \<Rightarrow> bool" \<comment> \<open>that many elements are allowed\<close>
  assumes enq_Some: "enq q x = Some q' \<Longrightarrow>
      elems q' = elems q @ [x] \<and> room q = room q' \<and> room q (length (elems q'))"
    and enq_None: "enq q x = None \<longleftrightarrow> \<not> room q (Suc (length (elems q)))"
    and deq_Some: "deq q = Some (x, q') \<Longrightarrow> elems q = x # elems q' \<and> room q = room q'"
    and deq_None: "deq q = None \<longleftrightarrow> elems q = []"
    and room_down: "room q (Suc n) \<Longrightarrow> room q n"
begin

text \<open>Everything ever accepted is what has left, in the order it left, and then what is still there.\<close>

definition accounted :: "'a list \<Rightarrow> 'a list \<Rightarrow> 'q \<Rightarrow> bool" where
  "accounted accepted gone q = (accepted = gone @ elems q \<and> room q (length (elems q)))"

lemma accounted_enq:
  "accounted acc gone q \<Longrightarrow> enq q x = Some q' \<Longrightarrow> accounted (acc @ [x]) gone q'"
  using enq_Some [of q x q'] by (auto simp: accounted_def)

lemma accounted_deq:
  "accounted acc gone q \<Longrightarrow> deq q = Some (x, q') \<Longrightarrow> accounted acc (gone @ [x]) q'"
  using deq_Some [of q x q'] by (auto simp: accounted_def dest: room_down)

lemma deq_shorter: "deq q = Some (x, q') \<Longrightarrow> length (elems q') < length (elems q)"
  using deq_Some [of q x q'] by simp

end

section \<open>The queue of the standard library\<close>

record 'a AsyncQueue =
  q_items :: "'a list"
  q_maxsize :: int
  q_unfinished :: nat

definition q_full :: "'a AsyncQueue \<Rightarrow> bool" where
  "q_full q = (q_maxsize q > 0 \<and> int (length (q_items q)) \<ge> q_maxsize q)"

definition q_put_nowait :: "'a AsyncQueue \<Rightarrow> 'a \<Rightarrow> 'a AsyncQueue option" where
  "q_put_nowait q x =
     (if q_full q then None
      else Some (q\<lparr>q_items := q_items q @ [x], q_unfinished := q_unfinished q + 1\<rparr>))"

definition q_get_nowait :: "'a AsyncQueue \<Rightarrow> ('a \<times> 'a AsyncQueue) option" where
  "q_get_nowait q = (case q_items q of [] \<Rightarrow> None | x # xs \<Rightarrow> Some (x, q\<lparr>q_items := xs\<rparr>))"

definition q_room :: "'a AsyncQueue \<Rightarrow> nat \<Rightarrow> bool" where
  "q_room q n = (q_maxsize q \<le> 0 \<or> int n \<le> q_maxsize q)"

interpretation aq: bounded_queue q_put_nowait q_get_nowait q_items q_room
  by unfold_locales
    (auto simp: q_put_nowait_def q_get_nowait_def q_room_def q_full_def fun_eq_iff
      split: if_splits list.splits)

section \<open>MessageQueue\<close>

record 'a MessageQueue =
  mq_queue :: "'a AsyncQueue"
  mq_maxsize :: int
  mq_total_enqueued :: nat
  mq_total_dequeued :: nat
  mq_paused :: bool

definition new_message_queue :: "int \<Rightarrow> 'a MessageQueue" where
  "new_message_queue maxsize =
     \<lparr>mq_queue = \<lparr>q_items = [], q_maxsize = maxsize, q_unfinished = 0\<rparr>, mq_maxsize = maxsize,
      mq_total_enqueued = 0, mq_total_dequeued = 0, mq_paused = False\<rparr>"

text \<open>
  \<open>put\<close> after its pause check, also when it is resumed after waiting for room (a pause in the
  meantime is not looked at again).  None: it waits; \<open>expired\<close>: the timeout is over.
\<close>

definition mq_put_rest :: "bool \<Rightarrow> 'a \<Rightarrow> 'a MessageQueue \<Rightarrow> ('a MessageQueue \<times> bool) option" where
  "mq_put_rest expired x m =
     (case q_put_nowait (mq_queue m) x of
        Some q \<Rightarrow> Some (m\<lparr>mq_queue := q, mq_total_enqueued := mq_total_enqueued m + 1\<rparr>, True)
      | None \<Rightarrow> if expired then Some (m, False) else None)"

definition mq_put :: "bool \<Rightarrow> 'a \<Rightarrow> 'a MessageQueue \<Rightarrow> ('a MessageQueue \<times> bool) option" where
  "mq_put expired x m = (if mq_paused m then Some (m, False) else mq_put_rest expired x m)"

definition mq_put_nowait :: "'a \<Rightarrow> 'a MessageQueue \<Rightarrow> 'a MessageQueue \<times> bool" where
  "mq_put_nowait x m =
     (if mq_paused m then (m, False)
      else case q_put_nowait (mq_queue m) x of
        Some q \<Rightarrow> (m\<lparr>mq_queue := q, mq_total_enqueued := mq_total_enqueued m + 1\<rparr>, True)
      | None \<Rightarrow> (m, False))"

definition mq_get_nowait :: "'a MessageQueue \<Rightarrow> 'a MessageQueue \<times> 'a option" where
  "mq_get_nowait m =
     (case q_get_nowait (mq_queue m) of
        Some (x, q) \<Rightarrow> (m\<lparr>mq_queue := q, mq_total_dequeued := mq_total_dequeued m + 1\<rparr>, Some x)
      | None \<Rightarrow> (m, None))"

text \<open>\<open>get\<close>, first called or resumed: outer None is "waits".\<close>

definition mq_get :: "bool \<Rightarrow> 'a MessageQueue \<Rightarrow> ('a MessageQueue \<times> 'a option) option" where
  "mq_get expired m =
     (case q_get_nowait (mq_queue m) of
        Some (x, q) \<Rightarrow>
          Some (m\<lparr>mq_queue := q, mq_total_dequeued := mq_total_dequeued m + 1\<rparr>, Some x)
      | None \<Rightarrow> if expired then Some (m, None) else None)"

text \<open>None: ValueError, called more often than items were put.\<close>

definition mq_task_done :: "'a MessageQueue \<Rightarrow> 'a MessageQueue option" where
  "mq_task_done m =
     (let q = mq_queue m
      in if q_unfinished q = 0 then None
         else Some (m\<lparr>mq_queue := q\<lparr>q_unfinished := q_unfinished q - 1\<rparr>\<rparr>))"

text \<open>\<open>join\<close> returns as soon as no task is unfinished; False: it waits.\<close>

definition mq_join :: "'a MessageQueue \<Rightarrow> bool" where
  "mq_join m = (q_unfinished (mq_queue m) = 0)"

definition mq_pause :: "'a MessageQueue \<Rightarrow> 'a MessageQueue" where
  "mq_pause m = m\<lparr>mq_paused := True\<rparr>"
definition mq_resume :: "'a MessageQueue \<Rightarrow> 'a MessageQueue" where
  "mq_resume m = m\<lparr>mq_paused := False\<rparr>"
definition mq_size :: "'a MessageQueue \<Rightarrow> nat" where
  "mq_size m = length (q_items (mq_queue m))"
definition mq_is_full :: "'a MessageQueue \<Rightarrow> bool" where
  "mq_is_full m = q_full (mq_queue m)"
definition mq_is_empty :: "'a MessageQueue \<Rightarrow> bool" where
  "mq_is_empty m = (q_items (mq_queue m) = [])"
definition mq_fill_ratio :: "'a MessageQueue \<Rightarrow> rat" where
  "mq_fill_ratio m = (if mq_maxsize m = 0 then 0 else of_nat (mq_size m) / of_int (mq_maxsize m))"

text \<open>The loop of \<open>clear\<close>: take items until none is left, counting.\<close>

function clear_loop :: "'a AsyncQueue \<Rightarrow> 'a AsyncQueue \<times> nat" where
  "clear_loop q =
     (case q_get_nowait q of
        None \<Rightarrow> (q, 0)
      | Some (x, q') \<Rightarrow> (case clear_loop q' of (q'', n) \<Rightarrow> (q'', Suc n)))"
  by pat_completeness auto
termination
  by (relation "measure (\<lambda>q. length (q_items q))") (auto dest: aq.deq_shorter [OF sym] aq.deq_shorter)

declare clear_loop.simps [simp del]

definition mq_clear :: "'a MessageQueue \<Rightarrow> 'a MessageQueue \<times> nat" where
  "mq_clear m = (case clear_loop (mq_queue m) of (q, n) \<Rightarrow> (m\<lparr>mq_queue := q\<rparr>, n))"

definition mq_stats :: "'a MessageQueue \<Rightarrow> (string, pyval) dict" where
  "mq_stats m =
     [(''size'', PInt (int (mq_size m))), (''maxsize'', PInt (mq_maxsize m)),
      (''is_full'', PBool (mq_is_full m)), (''is_empty'', PBool (mq_is_empty m)),
      (''is_paused'', PBool (mq_paused m)), (''fill_ratio'', PFloat (mq_fill_ratio m)),
      (''total_enqueued'', PInt (int (mq_total_enqueued m))),
      (''total_dequeued'', PInt (int (mq_total_dequeued m)))]"

lemma clear_loop_eq: "clear_loop q = (q\<lparr>q_items := []\<rparr>, length (q_items q))"
proof (induction q rule: clear_loop.induct)
  case (1 q)
  then show ?case
    by (cases "q_items q") (simp_all add: clear_loop.simps [of q] q_get_nowait_def)
qed

section \<open>A run of calls with what it accepted and what left\<close>

datatype 'a mq_call =
    Put bool 'a \<comment> \<open>a \<open>put\<close> that ends or waits; the flag: its timeout is over\<close>
  | PutResumed bool 'a \<comment> \<open>a waiting \<open>put\<close> goes on\<close>
  | PutNowait 'a
  | Get bool
  | GetNowait
  | TaskDone
  | Pause
  | Resume
  | Clear

text \<open>
  The queue, the items accepted so far and the items that left it, each with whether it was
  delivered (or cleared).
\<close>

type_synonym 'a mq_run = "'a MessageQueue \<times> 'a list \<times> ('a \<times> bool) list"

definition accept_put :: "'a \<Rightarrow> 'a mq_run \<Rightarrow> ('a MessageQueue \<times> bool) option \<Rightarrow> 'a mq_run" where
  "accept_put x r res =
     (case r of (m, acc, gone) \<Rightarrow>
       (case res of None \<Rightarrow> r | Some (m', b) \<Rightarrow> (m', if b then acc @ [x] else acc, gone)))"

definition deliver_get :: "'a mq_run \<Rightarrow> ('a MessageQueue \<times> 'a option) option \<Rightarrow> 'a mq_run" where
  "deliver_get r res =
     (case r of (m, acc, gone) \<Rightarrow>
       (case res of None \<Rightarrow> r
        | Some (m', None) \<Rightarrow> (m', acc, gone)
        | Some (m', Some x) \<Rightarrow> (m', acc, gone @ [(x, True)])))"

fun do_mq_call :: "'a mq_run \<Rightarrow> 'a mq_call \<Rightarrow> 'a mq_run" where
  "do_mq_call (m, acc, gone) (Put t x) = accept_put x (m, acc, gone) (mq_put t x m)"
| "do_mq_call (m, acc, gone) (PutResumed t x) = accept_put x (m, acc, gone) (mq_put_rest t x m)"
| "do_mq_call (m, acc, gone) (PutNowait x) = accept_put x (m, acc, gone) (Some (mq_put_nowait x m))"
| "do_mq_call (m, acc, gone) (Get t) = deliver_get (m, acc, gone) (mq_get t m)"
| "do_mq_call (m, acc, gone) GetNowait = deliver_get (m, acc, gone) (Some (mq_get_nowait m))"
| "do_mq_call (m, acc, gone) TaskDone =
     ((case mq_task_done m of None \<Rightarrow> m | Some m' \<Rightarrow> m'), acc, gone)"
| "do_mq_call (m, acc, gone) Pause = (mq_pause m, acc, gone)"
| "do_mq_call (m, acc, gone) Resume = (mq_resume m, acc, gone)"
| "do_mq_call (m, acc, gone) Clear =
     (fst (mq_clear m), acc, gone @ map (\<lambda>x. (x, False)) (q_items (mq_queue m)))"

fun mq_ok :: "int \<Rightarrow> 'a mq_run \<Rightarrow> bool" where
  "mq_ok maxsize (m, acc, gone) =
     (aq.accounted acc (map fst gone) (mq_queue m)
      \<and> mq_maxsize m = maxsize \<and> q_maxsize (mq_queue m) = maxsize
      \<and> mq_total_enqueued m = length acc \<and> mq_total_dequeued m = length (filter snd gone))"

lemma q_put_nowait_maxsize: "q_put_nowait q x = Some q' \<Longrightarrow> q_maxsize q' = q_maxsize q"
  by (auto simp: q_put_nowait_def split: if_splits)

lemma q_get_nowait_maxsize: "q_get_nowait q = Some (x, q') \<Longrightarrow> q_maxsize q' = q_maxsize q"
  by (auto simp: q_get_nowait_def split: list.splits)

lemma put_rest_ok:
  assumes "mq_ok maxsize (m, acc, gone)" and "mq_put_rest t x m = Some (m', b)"
  shows "mq_ok maxsize (m', if b then acc @ [x] else acc, gone)"
  using assms
  by (auto simp: mq_put_rest_def q_put_nowait_maxsize aq.accounted_enq
      split: option.splits if_splits)

lemma put_nowait_rest: "\<not> mq_paused m \<Longrightarrow> mq_put_rest True x m = Some (mq_put_nowait x m)"
  by (simp add: mq_put_rest_def mq_put_nowait_def split: option.split)

lemma get_ok:
  assumes "mq_ok maxsize (m, acc, gone)" and "mq_get t m = Some (m', Some x)"
  shows "mq_ok maxsize (m', acc, gone @ [(x, True)])"
  using assms
  by (auto simp: mq_get_def q_get_nowait_maxsize aq.accounted_deq split: option.splits if_splits)

lemma get_None: "mq_get t m = Some (m', None) \<Longrightarrow> m' = m"
  by (auto simp: mq_get_def split: option.splits if_splits)

lemma get_nowait_get: "mq_get True m = Some (mq_get_nowait m)"
  by (simp add: mq_get_def mq_get_nowait_def split: option.split)

interpretation mq: op_machine do_mq_call "mq_ok maxsize" for maxsize
proof
  fix r :: "'a mq_run" and e :: "'a mq_call"
  assume ok: "mq_ok maxsize r"
  obtain m acc gone where r: "r = (m, acc, gone)" by (cases r)
  have put: "mq_ok maxsize (accept_put x r res)"
    if "res = None \<or> res = Some (m, False) \<or> res = mq_put_rest t x m" for x t res
    using that ok put_rest_ok [of maxsize m acc gone t x]
    by (auto simp: r accept_put_def split: option.split)
  have get: "mq_ok maxsize (deliver_get r (mq_get t m))" for t
    using ok get_ok [of maxsize m acc gone t]
    by (auto simp: r deliver_get_def split: option.split dest: get_None)
  show "mq_ok maxsize (do_mq_call r e)"
  proof (cases e)
    case (Put t x)
    then show ?thesis using put [of "mq_put t x m" t x] by (simp add: r mq_put_def split: if_splits)
  next
    case (PutResumed t x)
    then show ?thesis using put [of "mq_put_rest t x m" t x] by (simp add: r)
  next
    case (PutNowait x)
    then show ?thesis
      using put [of "Some (mq_put_nowait x m)" True x] put_nowait_rest [of m x]
      by (cases "mq_paused m") (simp_all add: r mq_put_nowait_def)
  next
    case (Get t)
    then show ?thesis using get [of t] by (simp add: r)
  next
    case GetNowait
    then show ?thesis using get [of True] by (simp add: r get_nowait_get)
  next
    case TaskDone
    then show ?thesis
      using ok by (auto simp: r mq_task_done_def aq.accounted_def q_room_def Let_def)
  next
    case Clear
    then show ?thesis
      using ok by (auto simp: r mq_clear_def clear_loop_eq aq.accounted_def q_room_def comp_def)
  qed (use ok in \<open>simp_all add: r mq_pause_def mq_resume_def\<close>)
qed

section \<open>PriorityMessageQueue\<close>

text \<open>
  \<open>asyncio.PriorityQueue\<close> keeps a heap; what its users see is that \<open>get\<close> takes out the least
  entry.  The entries are kept in the order they were put; the counters differ, so two entries
  are never compared by their items.
\<close>

type_synonym 'a pentry = "int \<times> nat \<times> 'a"

record 'a PriorityMessageQueue =
  pq_entries :: "'a pentry list"
  pq_maxsize :: int
  pq_counter :: nat

definition new_priority_queue :: "int \<Rightarrow> 'a PriorityMessageQueue" where
  "new_priority_queue maxsize = \<lparr>pq_entries = [], pq_maxsize = maxsize, pq_counter = 0\<rparr>"

definition pentry_less :: "'a pentry \<Rightarrow> 'a pentry \<Rightarrow> bool" where
  "pentry_less a b = (fst a < fst b \<or> fst a = fst b \<and> fst (snd a) < fst (snd b))"

fun least_entry :: "'a pentry \<Rightarrow> 'a pentry list \<Rightarrow> 'a pentry" where
  "least_entry a [] = a"
| "least_entry a (b # bs) = least_entry (if pentry_less b a then b else a) bs"

text \<open>The counter is taken before \<open>put\<close> may wait for room; the entry goes in when there is room.\<close>

definition pq_put :: "'a \<Rightarrow> int \<Rightarrow> 'a PriorityMessageQueue \<Rightarrow> 'a PriorityMessageQueue \<times> 'a pentry option" where
  "pq_put x priority p =
     (let n = pq_counter p + 1; p' = p\<lparr>pq_counter := n\<rparr>; entry = (priority, n, x)
      in if pq_maxsize p > 0 \<and> int (length (pq_entries p)) \<ge> pq_maxsize p
         then (p', Some entry) \<comment> \<open>waits with this entry\<close>
         else (p'\<lparr>pq_entries := pq_entries p @ [entry]\<rparr>, None))"

definition remove_entry :: "'a pentry \<Rightarrow> 'a pentry list \<Rightarrow> 'a pentry list" where
  "remove_entry e es = filter (\<lambda>x. fst (snd x) \<noteq> fst (snd e)) es"

definition pq_get :: "'a PriorityMessageQueue \<Rightarrow> ('a \<times> 'a PriorityMessageQueue) option" where
  "pq_get p =
     (case pq_entries p of
        [] \<Rightarrow> None \<comment> \<open>waits\<close>
      | e # es \<Rightarrow>
          (let least = least_entry e es
           in Some (snd (snd least), p\<lparr>pq_entries := remove_entry least (pq_entries p)\<rparr>)))"

definition pq_size :: "'a PriorityMessageQueue \<Rightarrow> nat" where
  "pq_size p = length (pq_entries p)"

definition pq_is_empty :: "'a PriorityMessageQueue \<Rightarrow> bool" where
  "pq_is_empty p = (pq_entries p = [])"

lemma pentry_less_trans:
  "pentry_less a b \<Longrightarrow> pentry_less b c \<Longrightarrow> pentry_less a c"
  by (auto simp: pentry_less_def)

lemma least_entry_in: "least_entry a bs \<in> set (a # bs)"
  by (induction bs arbitrary: a) (auto split: if_splits)

lemma least_entry_least: "x \<in> set (a # bs) \<Longrightarrow> \<not> pentry_less x (least_entry a bs)"
proof (induction bs arbitrary: a x)
  case Nil
  then show ?case by (simp add: pentry_less_def)
next
  case (Cons b bs)
  let ?m = "if pentry_less b a then b else a"
  have m: "\<not> pentry_less y (least_entry ?m bs)" if "y \<in> set (?m # bs)" for y
    using that by (rule Cons.IH)
  show ?case
  proof (cases "x \<in> set (?m # bs)")
    case True
    then show ?thesis using m by simp
  next
    case False
    then have "x = (if pentry_less b a then a else b)" using Cons.prems by (auto split: if_splits)
    then have "\<not> pentry_less x ?m"
      by (auto simp: pentry_less_def split: if_splits)
    then show ?thesis
      using m [of ?m] pentry_less_trans [of ?m x "least_entry ?m bs"]
      by (auto simp: pentry_less_def)
  qed
qed

text \<open>Taking everything out.\<close>

fun pq_drain :: "nat \<Rightarrow> 'a PriorityMessageQueue \<Rightarrow> 'a list" where
  "pq_drain 0 p = []"
| "pq_drain (Suc n) p = (case pq_get p of None \<Rightarrow> [] | Some (x, p') \<Rightarrow> x # pq_drain n p')"

definition counters_rise :: "'a pentry list \<Rightarrow> bool" where
  "counters_rise es = sorted_wrt (<) (map (\<lambda>e. fst (snd e)) es)"

lemma sort_head_least:
  assumes "counters_rise es" and "sort_key fst es = y # ys" and "x \<in> set es" and "x \<noteq> y"
  shows "pentry_less y x"
proof -
  have mem: "set es = set (y # ys)" using assms(2) by (metis set_sort)
  have "sorted (map fst (y # ys))" using assms(2) by (metis sorted_sort_key)
  then have le: "fst y \<le> fst x" using assms(3) mem by auto
  have "fst (snd y) < fst (snd x)" if eq: "fst x = fst y"
  proof -
    let ?F = "filter (\<lambda>e. fst e = fst y)"
    have F: "?F es = y # ?F ys"
      using sort_key_stable [of fst "fst y" es] assms(2) by simp
    have "sorted_wrt (<) (map (\<lambda>e. fst (snd e)) (?F es))"
      using assms(1) by (simp add: counters_rise_def sorted_wrt_map sorted_wrt_filter)
    moreover have "x \<in> set (?F ys)"
      using assms(3,4) mem eq by auto
    ultimately show ?thesis by (cases x) (auto simp: F)
  qed
  with le show ?thesis by (auto simp: pentry_less_def)
qed

lemma counters_rise_distinct:
  "counters_rise es \<Longrightarrow> x \<in> set es \<Longrightarrow> y \<in> set es \<Longrightarrow> fst (snd x) = fst (snd y) \<Longrightarrow> x = y"
proof -
  assume "counters_rise es" and xy: "x \<in> set es" "y \<in> set es" "fst (snd x) = fst (snd y)"
  then have "distinct (map (\<lambda>e. fst (snd e)) es)"
    by (simp add: counters_rise_def strict_sorted_iff)
  with xy show "x = y" by (auto simp: distinct_map inj_on_def)
qed

lemma pq_get_least:
  assumes "counters_rise (pq_entries p)" and "sort_key fst (pq_entries p) = y # ys"
  shows "\<exists>es. pq_get p = Some (snd (snd y), p\<lparr>pq_entries := es\<rparr>)
    \<and> sort_key fst es = ys \<and> counters_rise es"
proof -
  obtain e es where es: "pq_entries p = e # es"
    using assms(2) by (cases "pq_entries p") auto
  have y: "y \<in> set (e # es)" using assms(2) es by (metis list.set_intros(1) set_sort)
  have least: "least_entry e es = y"
  proof (rule ccontr)
    assume "least_entry e es \<noteq> y"
    then have "pentry_less y (least_entry e es)"
      using sort_head_least [OF assms, of "least_entry e es"] least_entry_in [of e es] es by auto
    with least_entry_least [OF y] show False by blast
  qed
  have dist: "distinct (pq_entries p)"
    using assms(1) by (auto simp: counters_rise_def strict_sorted_iff distinct_map)
  then have "distinct (y # ys)" using assms(2) by (metis distinct_sort)
  moreover have "set (y # ys) = set (pq_entries p)" using assms(2) by (metis set_sort)
  ultimately have "fst (snd x) \<noteq> fst (snd y)" if "x \<in> set ys" for x
    using counters_rise_distinct [OF assms(1), of x y] that by auto
  then have "filter (\<lambda>x. fst (snd x) \<noteq> fst (snd y)) (y # ys) = ys"
    by simp
  then have "sort_key fst (remove_entry y (pq_entries p)) = ys"
    by (simp add: remove_entry_def filter_sort [symmetric] assms(2))
  moreover have "counters_rise (remove_entry y (pq_entries p))"
    using assms(1) by (simp add: remove_entry_def counters_rise_def sorted_wrt_map sorted_wrt_filter)
  ultimately show ?thesis
    using least es by (intro exI [of _ "remove_entry y (pq_entries p)"]) (simp add: pq_get_def Let_def)
qed

lemma pq_drain_sorted:
  assumes "counters_rise (pq_entries p)" and "length (pq_entries p) \<le> n"
  shows "pq_drain n p = map (\<lambda>e. snd (snd e)) (sort_key fst (pq_entries p))"
  using assms
proof (induction n arbitrary: p)
  case 0
  then show ?case by simp
next
  case (Suc n)
  show ?case
  proof (cases "sort_key fst (pq_entries p)")
    case Nil
    then have "pq_entries p = []" by (metis length_0_conv length_sort)
    then show ?thesis by (simp add: pq_get_def)
  next
    case (Cons y ys)
    from pq_get_least [OF Suc.prems(1) this] obtain es where
      es: "pq_get p = Some (snd (snd y), p\<lparr>pq_entries := es\<rparr>)" "sort_key fst es = ys"
        "counters_rise es" by blast
    have "length (pq_entries p) = Suc (length ys)" using Cons by (metis length_Cons length_sort)
    then have "length es \<le> n" using es(2) Suc.prems(2) by (metis Suc_le_mono length_sort)
    with Suc.IH [of "p\<lparr>pq_entries := es\<rparr>"] es Cons show ?thesis by simp
  qed
qed

text \<open>A queue filled with the given items and priorities, none waiting for room.\<close>

definition pq_fill :: "('a \<times> int) list \<Rightarrow> 'a PriorityMessageQueue" where
  "pq_fill xs = foldl (\<lambda>p (x, priority). fst (pq_put x priority p)) (new_priority_queue 0) xs"

lemma pq_fill_entries:
  "pq_maxsize (pq_fill xs) = 0 \<and> pq_counter (pq_fill xs) = length xs
   \<and> map (\<lambda>e. (snd (snd e), fst e)) (pq_entries (pq_fill xs)) = xs
   \<and> counters_rise (pq_entries (pq_fill xs))
   \<and> (\<forall>e \<in> set (pq_entries (pq_fill xs)). fst (snd e) \<le> length xs)"
proof (induction xs rule: rev_induct)
  case Nil
  then show ?case by (simp add: pq_fill_def new_priority_queue_def counters_rise_def)
next
  case (snoc x xs)
  obtain a pr where x: "x = (a, pr)" by (cases x)
  have step: "pq_fill (xs @ [(a, pr)]) = fst (pq_put a pr (pq_fill xs))"
    by (simp add: pq_fill_def)
  from snoc show ?case
    by (auto simp: x step pq_put_def Let_def counters_rise_def sorted_wrt_append less_Suc_eq_le)
qed

lemma sort_key_map_entries:
  "map f (sort_key (\<lambda>e. g (f e)) xs) = sort_key g (map f xs)"
proof (rule sym, rule properties_for_sort_key)
  show "mset (map f (sort_key (\<lambda>e. g (f e)) xs)) = mset (map f xs)" by simp
  show "sorted (map g (map f (sort_key (\<lambda>e. g (f e)) xs)))"
    using sorted_sort_key [of "\<lambda>e. g (f e)" xs] by (simp add: comp_def)
  fix k
  show "filter (\<lambda>x. g k = g x) (map f (sort_key (\<lambda>e. g (f e)) xs)) =
      filter (\<lambda>x. g k = g x) (map f xs)"
    using sort_key_stable [of "\<lambda>e. g (f e)" "g k" xs]
    by (simp add: filter_map comp_def eq_commute [of "g k"])
qed

section \<open>Properties\<close>

text \<open>
  C30. FIFO and accounting: after any calls, waits and resumptions, everything the queue accepted
  is what left it, in the order it left, followed by what it holds; the two totals count the
  accepted and the delivered items, and a bounded queue never holds more than its bound.
\<close>

theorem message_queue_fifo:
  "case foldl do_mq_call (new_message_queue maxsize, [], []) calls of
     (m, accepted, gone) \<Rightarrow>
       accepted = map fst gone @ q_items (mq_queue m)
       \<and> mq_total_enqueued m = length accepted
       \<and> mq_total_dequeued m = length (filter snd gone)
       \<and> (maxsize \<le> 0 \<or> int (mq_size m) \<le> maxsize)"
proof -
  have "mq_ok maxsize (new_message_queue maxsize, [], [])"
    by (auto simp: new_message_queue_def aq.accounted_def q_room_def)
  then have "mq_ok maxsize (foldl do_mq_call (new_message_queue maxsize, [], []) calls)"
    by (rule mq.run_inv)
  then show ?thesis
    by (cases "foldl do_mq_call (new_message_queue maxsize, [], []) calls")
      (auto simp: aq.accounted_def q_room_def mq_size_def)
qed

text \<open>
  Priorities: the items put into a priority queue come out as the stable sort by their
  priority number, so the lowest number first and equal priorities in the order they were put.
\<close>

lemma priority_queue_stable:
  "pq_drain (length xs) (pq_fill xs) = map fst (sort_key snd xs)"
proof -
  let ?es = "pq_entries (pq_fill xs)"
  have fill: "map (\<lambda>e. (snd (snd e), fst e)) ?es = xs" "counters_rise ?es"
    using pq_fill_entries [of xs] by simp_all
  then have "length ?es = length xs" by (metis length_map)
  then have "pq_drain (length xs) (pq_fill xs) = map (\<lambda>e. snd (snd e)) (sort_key fst ?es)"
    by (intro pq_drain_sorted fill) simp
  also have "\<dots> = map fst (map (\<lambda>e. (snd (snd e), fst e)) (sort_key fst ?es))"
    by simp
  also have "\<dots> = map fst (sort_key snd xs)"
    using sort_key_map_entries [of "\<lambda>e. (snd (snd e), fst e)" snd ?es] fill(1) by simp
  finally show ?thesis .
qed

end
