(* ===== verification/Router.thy ===== *)
theory Router
  imports Prelude "HOL-Library.Multiset"
begin

text \<open>
  \<open>src/conduit/messages/message.py\<close> and \<open>src/conduit/messages/router.py\<close>: the message object, the
  pending-message retry record, and the router that calls the handlers of a message type.  What a
  handler does is a parameter (its outcome); the calls made are returned as a list of events.
\<close>

section \<open>Messages\<close>

record Message =
  ms_type :: pyval
  ms_data :: pyval
  ms_correlation_id :: pyval
  ms_timestamp :: pyval
  ms_metadata :: pyval
  ms_id :: string
  ms_acknowledged :: bool
  ms_sent_at :: "int option"
  ms_received_at :: "int option"

text \<open>The constructor with every field given; \<open>uid\<close> is the fresh \<open>uuid4\<close>.\<close>

definition new_message :: "pyval \<Rightarrow> pyval \<Rightarrow> pyval \<Rightarrow> pyval \<Rightarrow> pyval \<Rightarrow> string \<Rightarrow> Message" where
  "new_message t d c ts md uid =
     \<lparr>ms_type = t, ms_data = d, ms_correlation_id = c, ms_timestamp = ts, ms_metadata = md,
      ms_id = uid, ms_acknowledged = False, ms_sent_at = None, ms_received_at = None\<rparr>"

definition message_to_dict :: "Message \<Rightarrow> (string, pyval) dict" where
  "message_to_dict m =
     [(''type'', ms_type m), (''data'', ms_data m), (''correlation_id'', ms_correlation_id m),
      (''timestamp'', ms_timestamp m), (''metadata'', ms_metadata m)]"

text \<open>\<open>d.get(k, default)\<close>.\<close>

definition dict_get_default :: "(string, pyval) dict \<Rightarrow> string \<Rightarrow> pyval \<Rightarrow> pyval" where
  "dict_get_default d k v = (case map_of d k of None \<Rightarrow> v | Some x \<Rightarrow> x)"

definition message_from_dict :: "(string, pyval) dict \<Rightarrow> time \<Rightarrow> string \<Rightarrow> Message" where
  "message_from_dict d now uid =
     new_message (dict_get_default d ''type'' (PStr [])) (dict_get d ''data'')
       (dict_get d ''correlation_id'') (dict_get_default d ''timestamp'' (PInt (now_ms now)))
       (dict_get_default d ''metadata'' (PDict [])) uid"

definition mark_sent :: "time \<Rightarrow> Message \<Rightarrow> Message" where
  "mark_sent now m = m\<lparr>ms_sent_at := Some (now_ms now)\<rparr>"
definition mark_received :: "time \<Rightarrow> Message \<Rightarrow> Message" where
  "mark_received now m = m\<lparr>ms_received_at := Some (now_ms now)\<rparr>"
definition mark_acknowledged :: "Message \<Rightarrow> Message" where
  "mark_acknowledged m = m\<lparr>ms_acknowledged := True\<rparr>"

definition message_latency_ms :: "Message \<Rightarrow> int option" where
  "message_latency_ms m =
     (case (ms_sent_at m, ms_received_at m) of
        (Some s, Some r) \<Rightarrow> if s \<noteq> 0 \<and> r \<noteq> 0 then Some (r - s) else None
      | _ \<Rightarrow> None)"

record PendingMessage =
  pm_message :: Message
  pm_retries :: int
  pm_max_retries :: int
  pm_queued_at :: int
  pm_last_attempt :: "int option"

definition can_retry :: "PendingMessage \<Rightarrow> bool" where
  "can_retry p = (pm_retries p < pm_max_retries p)"
definition record_attempt :: "time \<Rightarrow> PendingMessage \<Rightarrow> PendingMessage" where
  "record_attempt now p = p\<lparr>pm_retries := pm_retries p + 1, pm_last_attempt := Some (now_ms now)\<rparr>"
definition age_ms :: "time \<Rightarrow> PendingMessage \<Rightarrow> int" where
  "age_ms now p = now_ms now - pm_queued_at p"

section \<open>The router\<close>

record 'h RegisteredHandler =
  rh_message_type :: string
  rh_handler :: 'h
  rh_requires_auth :: bool
  rh_priority :: int

record 'h MessageRouter =
  mr_handlers :: "(string, 'h RegisteredHandler list) dict"
  mr_default_handler :: "'h option"
  mr_error_handler :: bool

definition new_router :: "'h MessageRouter" where
  "new_router = \<lparr>mr_handlers = [], mr_default_handler = None, mr_error_handler = False\<rparr>"

definition router_handlers :: "'h MessageRouter \<Rightarrow> string \<Rightarrow> 'h RegisteredHandler list" where
  "router_handlers r t = (case map_of (mr_handlers r) t of None \<Rightarrow> [] | Some hs \<Rightarrow> hs)"

text \<open>\<open>list.sort\<close> is stable, as is \<open>sort_key\<close>.\<close>

definition router_register ::
  "string \<Rightarrow> 'h \<Rightarrow> bool \<Rightarrow> int \<Rightarrow> 'h MessageRouter \<Rightarrow> 'h MessageRouter" where
  "router_register t h requires_auth priority r =
     (let reg = \<lparr>rh_message_type = t, rh_handler = h, rh_requires_auth = requires_auth,
                 rh_priority = priority\<rparr>
      in r\<lparr>mr_handlers := AList.update t
             (sort_key (\<lambda>x. - rh_priority x) (router_handlers r t @ [reg])) (mr_handlers r)\<rparr>)"

definition router_unregister :: "string \<Rightarrow> 'h MessageRouter \<Rightarrow> 'h MessageRouter \<times> bool" where
  "router_unregister t r =
     (if dict_has (mr_handlers r) t
      then (r\<lparr>mr_handlers := AList.delete t (mr_handlers r)\<rparr>, True) else (r, False))"

definition set_default_handler :: "'h \<Rightarrow> 'h MessageRouter \<Rightarrow> 'h MessageRouter" where
  "set_default_handler h r = r\<lparr>mr_default_handler := Some h\<rparr>"
definition set_error_handler :: "'h MessageRouter \<Rightarrow> 'h MessageRouter" where
  "set_error_handler r = r\<lparr>mr_error_handler := True\<rparr>"

datatype 'h route_event = Called 'h | ErrorReported 'h

text \<open>The loop over the handlers; \<open>call h\<close> is what the call of \<open>h\<close> does.\<close>

fun route_loop ::
  "('h \<Rightarrow> outcome) \<Rightarrow> bool \<Rightarrow> bool \<Rightarrow> 'h RegisteredHandler list \<Rightarrow> pyval
     \<Rightarrow> 'h route_event list \<times> outcome" where
  "route_loop call err auth [] result = ([], Returned result)"
| "route_loop call err auth (h # hs) result =
     (if rh_requires_auth h \<and> \<not> auth then route_loop call err auth hs result
      else case call (rh_handler h) of
        Returned v \<Rightarrow>
          (case route_loop call err auth hs v of (ev, out) \<Rightarrow> (Called (rh_handler h) # ev, out))
      | Raised x \<Rightarrow>
          (case route_loop call err auth hs result of
             (ev, out) \<Rightarrow>
               (Called (rh_handler h) # (if err then [ErrorReported (rh_handler h)] else []) @ ev, out))
      | Cancelled \<Rightarrow> ([Called (rh_handler h)], Cancelled))"

definition route ::
  "('h \<Rightarrow> outcome) \<Rightarrow> 'h MessageRouter \<Rightarrow> string \<Rightarrow> bool \<Rightarrow> 'h route_event list \<times> outcome" where
  "route call r t authenticated =
     (let hs = router_handlers r t;
          hs' = (if hs = [] then
                   (case mr_default_handler r of
                      Some h \<Rightarrow> [\<lparr>rh_message_type = t, rh_handler = h, rh_requires_auth = False,
                                 rh_priority = 0\<rparr>]
                    | None \<Rightarrow> [])
                 else hs)
      in if hs' = [] then ([], Returned PNone)
         else route_loop call (mr_error_handler r) authenticated hs' PNone)"

text \<open>The message it builds carries the type and the data; the handlers see only the data.\<close>

definition route_dict ::
  "('h \<Rightarrow> pyval \<Rightarrow> outcome) \<Rightarrow> 'h MessageRouter \<Rightarrow> string \<Rightarrow> pyval \<Rightarrow> bool
     \<Rightarrow> 'h route_event list \<times> outcome" where
  "route_dict call r t dat authenticated = route (\<lambda>h. call h dat) r t authenticated"

definition has_handler :: "'h MessageRouter \<Rightarrow> string \<Rightarrow> bool" where
  "has_handler r t = (router_handlers r t \<noteq> [])"

definition list_types :: "'h MessageRouter \<Rightarrow> string list" where
  "list_types r = map fst (mr_handlers r)"

definition router_clear :: "'h MessageRouter \<Rightarrow> 'h MessageRouter" where
  "router_clear r = r\<lparr>mr_handlers := [], mr_default_handler := None\<rparr>"

section \<open>A run of registrations\<close>

datatype 'h router_call =
    Register string 'h bool int
  | Unregister string
  | SetDefault 'h
  | SetError
  | RouterClear

fun do_router_call :: "'h MessageRouter \<Rightarrow> 'h router_call \<Rightarrow> 'h MessageRouter" where
  "do_router_call r (Register t h a p) = router_register t h a p r"
| "do_router_call r (Unregister t) = fst (router_unregister t r)"
| "do_router_call r (SetDefault h) = set_default_handler h r"
| "do_router_call r SetError = set_error_handler r"
| "do_router_call r RouterClear = router_clear r"

text \<open>The registrations for a type since it was last removed, in the order they were made.\<close>

fun registered_for :: "string \<Rightarrow> 'h RegisteredHandler list \<Rightarrow> 'h router_call \<Rightarrow> 'h RegisteredHandler list" where
  "registered_for t hs (Register t' h a p) =
     (if t' = t then hs @ [\<lparr>rh_message_type = t, rh_handler = h, rh_requires_auth = a,
                            rh_priority = p\<rparr>] else hs)"
| "registered_for t hs (Unregister t') = (if t' = t then [] else hs)"
| "registered_for t hs RouterClear = []"
| "registered_for t hs _ = hs"

lemma sort_key_snoc_sorted: "sort_key f (sort_key f xs @ [x]) = sort_key f (xs @ [x])"
proof (rule sym, rule properties_for_sort_key)
  fix k
  assume "k \<in> set (sort_key f (sort_key f xs @ [x]))"
  show "filter (\<lambda>y. f k = f y) (sort_key f (sort_key f xs @ [x])) = filter (\<lambda>y. f k = f y) (xs @ [x])"
    using sort_key_stable [of f "f k" "sort_key f xs @ [x]"] sort_key_stable [of f "f k" xs]
    by (simp add: eq_commute [of "f k"])
qed simp_all

lemma router_handlers_call:
  "router_handlers (do_router_call r c) t =
     (if \<exists>h a p. c = Register t h a p
      then sort_key (\<lambda>x. - rh_priority x) (registered_for t (router_handlers r t) c)
      else registered_for t (router_handlers r t) c)"
proof (cases c)
  case (Unregister t')
  then show ?thesis
    by (auto simp: router_unregister_def router_handlers_def dict_has_def delete_conv'
        split: option.splits)
qed (auto simp: router_handlers_def router_register_def set_default_handler_def
    set_error_handler_def router_clear_def update_conv' Let_def)

lemma router_handlers_run:
  assumes "router_handlers r t = sort_key (\<lambda>x. - rh_priority x) hs"
  shows "router_handlers (foldl do_router_call r cs) t =
    sort_key (\<lambda>x. - rh_priority x) (foldl (registered_for t) hs cs)"
  using assms
proof (induction cs arbitrary: r hs)
  case Nil
  then show ?case by simp
next
  case (Cons c cs)
  have "router_handlers (do_router_call r c) t =
      sort_key (\<lambda>x. - rh_priority x) (registered_for t hs c)"
    unfolding router_handlers_call using Cons.prems by (cases c) (auto simp: sort_key_snoc_sorted)
  then show ?case using Cons.IH by simp
qed

section \<open>What a route does\<close>

definition permitted :: "bool \<Rightarrow> 'h RegisteredHandler \<Rightarrow> bool" where
  "permitted auth h = (auth \<or> \<not> rh_requires_auth h)"

text \<open>The last value returned, None if none was.\<close>

fun last_returned :: "pyval \<Rightarrow> outcome list \<Rightarrow> pyval" where
  "last_returned v [] = v"
| "last_returned v (Returned w # os) = last_returned w os"
| "last_returned v (x # os) = last_returned v os"

definition handlers_called :: "'h route_event list \<Rightarrow> 'h list" where
  "handlers_called ev = concat (map (\<lambda>e. case e of Called h \<Rightarrow> [h] | ErrorReported h \<Rightarrow> []) ev)"

lemma handlers_called_simps [simp]:
  "handlers_called [] = []"
  "handlers_called (Called h # ev) = h # handlers_called ev"
  "handlers_called (ErrorReported h # ev) = handlers_called ev"
  by (simp_all add: handlers_called_def)

lemma route_loop_calls:
  "\<forall>h \<in> set hs. call (rh_handler h) \<noteq> Cancelled \<Longrightarrow>
     handlers_called (fst (route_loop call err auth hs v)) = map rh_handler (filter (permitted auth) hs)
     \<and> snd (route_loop call err auth hs v) =
       Returned (last_returned v (map (\<lambda>h. call (rh_handler h)) (filter (permitted auth) hs)))"
  by (induction hs arbitrary: v) (auto simp: permitted_def split_def split: outcome.splits)

section \<open>Properties\<close>

text \<open>
  C34. Priorities: after any registrations and removals, the handlers of a type are called in the
  order of the stable sort by descending priority of what is registered for it, the protected ones
  only for an authenticated sender; a handler that raises stops no other, and the caller gets the
  last value returned.
\<close>

theorem route_by_priority:
  assumes "hs = foldl (registered_for t) [] calls" and "hs \<noteq> []"
    and "\<forall>h \<in> set hs. call (rh_handler h) \<noteq> Cancelled"
    and "todo = filter (\<lambda>h. auth \<or> \<not> rh_requires_auth h) (sort_key (\<lambda>h. - rh_priority h) hs)"
  shows "case route call (foldl do_router_call new_router calls) t auth of
    (events, out) \<Rightarrow>
      handlers_called events = map rh_handler todo
      \<and> out = Returned (last_returned PNone (map (\<lambda>h. call (rh_handler h)) todo))"
proof -
  have "router_handlers (foldl do_router_call new_router calls) t = sort_key (\<lambda>h. - rh_priority h) hs"
    using router_handlers_run [of new_router t "[]" calls] assms(1)
    by (simp add: new_router_def router_handlers_def)
  moreover have "sort_key (\<lambda>h. - rh_priority h) hs \<noteq> []"
    using assms(2) by (metis length_0_conv length_sort)
  moreover have "\<forall>h \<in> set (sort_key (\<lambda>h. - rh_priority h) hs). call (rh_handler h) \<noteq> Cancelled"
    using assms(3) by simp
  ultimately show ?thesis
    using route_loop_calls [of "sort_key (\<lambda>h. - rh_priority h) hs" call
        "mr_error_handler (foldl do_router_call new_router calls)" auth PNone] assms(4)
    by (auto simp: route_def Let_def permitted_def [abs_def] split: prod.split)
qed

theorem route_by_priority_witness:
  "case route (\<lambda>h. if h = CHR ''b'' then Raised [] else Returned (PInt (of_char h)))
      (foldl do_router_call new_router
        [Register ''t'' CHR ''a'' True 0, Register ''t'' CHR ''b'' False 5, Register ''t'' CHR ''c'' False 0])
      ''t'' False of
    (events, out) \<Rightarrow> handlers_called events = ''bc'' \<and> out = Returned (PInt 99)"
  using route_by_priority [of _ "''t''"
      "[Register ''t'' CHR ''a'' True 0, Register ''t'' CHR ''b'' False 5, Register ''t'' CHR ''c'' False 0]"
      "\<lambda>h. if h = CHR ''b'' then Raised [] else Returned (PInt (of_char h))" _ False,
      OF refl _ _ refl]
  by (simp add: of_char_def)

text \<open>
  Authentication gate: whatever the handlers do, a route for an unauthenticated sender calls a
  handler only if it is registered for the type as needing no authentication, or is the default
  handler of a type without handlers.
\<close>

lemma unauthenticated_route:
  "\<forall>h \<in> set (handlers_called (fst (route call r t False))).
     (\<exists>reg \<in> set (router_handlers r t). rh_handler reg = h \<and> \<not> rh_requires_auth reg)
     \<or> (router_handlers r t = [] \<and> mr_default_handler r = Some h)"
proof -
  have loop: "h \<in> set (handlers_called (fst (route_loop call err False hs v))) \<Longrightarrow>
      \<exists>reg \<in> set hs. rh_handler reg = h \<and> \<not> rh_requires_auth reg" for h err hs v
  proof (induction hs arbitrary: v)
    case Nil
    then show ?case by simp
  next
    case (Cons a hs)
    then show ?case
      by (cases "call (rh_handler a)") (auto simp: split_def split: if_splits)
  qed
  show ?thesis
    by (auto simp: route_def Let_def split: option.splits outcome.splits dest!: loop)
qed

end
