(* ===== verification/Metrics.thy ===== *)
theory Metrics
  imports Prelude
begin

text \<open>
  \<open>src/conduit/metrics/metrics.py\<close>: the counters, their lock, and the derived figures.  The lock is
  a \<open>threading.Lock\<close>, which is not reentrant: a method that takes it while it is held waits for
  ever, unless another thread releases it; \<open>with_lock\<close> is None then.
\<close>

record Metrics =
  met_messages_sent :: nat
  met_messages_received :: nat
  met_bytes_sent :: nat
  met_bytes_received :: nat
  met_rpc_calls_made :: nat
  met_rpc_calls_received :: nat
  met_rpc_errors :: nat
  met_connections_total :: nat
  met_connections_active :: nat
  met_connections_failed :: nat
  met_start_time :: time
  met_last_message_time :: time
  met_latency_sum :: rat
  met_latency_count :: nat
  met_locked :: bool

definition new_metrics :: "time \<Rightarrow> Metrics" where
  "new_metrics now =
     \<lparr>met_messages_sent = 0, met_messages_received = 0, met_bytes_sent = 0, met_bytes_received = 0,
      met_rpc_calls_made = 0, met_rpc_calls_received = 0, met_rpc_errors = 0,
      met_connections_total = 0, met_connections_active = 0, met_connections_failed = 0,
      met_start_time = now, met_last_message_time = 0, met_latency_sum = 0,
      met_latency_count = 0, met_locked = False\<rparr>"

text \<open>\<open>with self._lock: body\<close>.  The body gets the object with the lock held.\<close>

definition with_lock :: "(Metrics \<Rightarrow> (Metrics \<times> 'a) option) \<Rightarrow> Metrics \<Rightarrow> (Metrics \<times> 'a) option" where
  "with_lock body m =
     (if met_locked m then None
      else case body (m\<lparr>met_locked := True\<rparr>) of
        None \<Rightarrow> None
      | Some (m', v) \<Rightarrow> Some (m'\<lparr>met_locked := False\<rparr>, v))"

definition locked_update :: "(Metrics \<Rightarrow> Metrics) \<Rightarrow> Metrics \<Rightarrow> Metrics option" where
  "locked_update f m = map_option fst (with_lock (\<lambda>m. Some (f m, ())) m)"

definition record_message_sent :: "nat \<Rightarrow> time \<Rightarrow> Metrics \<Rightarrow> Metrics option" where
  "record_message_sent n now = locked_update (\<lambda>m.
     m\<lparr>met_messages_sent := met_messages_sent m + 1, met_bytes_sent := met_bytes_sent m + n,
       met_last_message_time := now\<rparr>)"

definition record_message_received :: "nat \<Rightarrow> time \<Rightarrow> Metrics \<Rightarrow> Metrics option" where
  "record_message_received n now = locked_update (\<lambda>m.
     m\<lparr>met_messages_received := met_messages_received m + 1,
       met_bytes_received := met_bytes_received m + n, met_last_message_time := now\<rparr>)"

definition record_rpc_call :: "Metrics \<Rightarrow> Metrics option" where
  "record_rpc_call = locked_update (\<lambda>m. m\<lparr>met_rpc_calls_made := met_rpc_calls_made m + 1\<rparr>)"

definition record_rpc_received :: "Metrics \<Rightarrow> Metrics option" where
  "record_rpc_received =
     locked_update (\<lambda>m. m\<lparr>met_rpc_calls_received := met_rpc_calls_received m + 1\<rparr>)"

definition record_rpc_error :: "Metrics \<Rightarrow> Metrics option" where
  "record_rpc_error = locked_update (\<lambda>m. m\<lparr>met_rpc_errors := met_rpc_errors m + 1\<rparr>)"

definition metrics_record_latency :: "rat \<Rightarrow> Metrics \<Rightarrow> Metrics option" where
  "metrics_record_latency ms = locked_update (\<lambda>m.
     m\<lparr>met_latency_sum := met_latency_sum m + ms, met_latency_count := met_latency_count m + 1\<rparr>)"

definition record_connection :: "Metrics \<Rightarrow> Metrics option" where
  "record_connection = locked_update (\<lambda>m.
     m\<lparr>met_connections_total := met_connections_total m + 1,
       met_connections_active := met_connections_active m + 1\<rparr>)"

text \<open>\<open>max(0, active - 1)\<close> is subtraction on natural numbers.\<close>

definition record_disconnection :: "Metrics \<Rightarrow> Metrics option" where
  "record_disconnection = locked_update (\<lambda>m.
     m\<lparr>met_connections_active := met_connections_active m - 1\<rparr>)"

definition record_connection_failure :: "Metrics \<Rightarrow> Metrics option" where
  "record_connection_failure = locked_update (\<lambda>m.
     m\<lparr>met_connections_failed := met_connections_failed m + 1\<rparr>)"

definition uptime_seconds :: "time \<Rightarrow> Metrics \<Rightarrow> time" where
  "uptime_seconds now m = now - met_start_time m"

definition avg_latency_ms :: "Metrics \<Rightarrow> (Metrics \<times> rat) option" where
  "avg_latency_ms = with_lock (\<lambda>m.
     Some (m, if met_latency_count m = 0 then 0 else met_latency_sum m / of_nat (met_latency_count m)))"

definition messages_per_second :: "time \<Rightarrow> Metrics \<Rightarrow> (Metrics \<times> rat) option" where
  "messages_per_second now m =
     (let uptime = uptime_seconds now m
      in if uptime = 0 then Some (m, 0)
         else with_lock (\<lambda>m. Some (m,
           of_nat (met_messages_sent m + met_messages_received m) / uptime)) m)"

definition metrics_to_dict :: "time \<Rightarrow> Metrics \<Rightarrow> (Metrics \<times> (string, pyval) dict) option" where
  "metrics_to_dict now = with_lock (\<lambda>m.
     let counters =
       [(''messages_sent'', PInt (int (met_messages_sent m))),
        (''messages_received'', PInt (int (met_messages_received m))),
        (''bytes_sent'', PInt (int (met_bytes_sent m))),
        (''bytes_received'', PInt (int (met_bytes_received m))),
        (''rpc_calls_made'', PInt (int (met_rpc_calls_made m))),
        (''rpc_calls_received'', PInt (int (met_rpc_calls_received m))),
        (''rpc_errors'', PInt (int (met_rpc_errors m))),
        (''connections_total'', PInt (int (met_connections_total m))),
        (''connections_active'', PInt (int (met_connections_active m))),
        (''connections_failed'', PInt (int (met_connections_failed m))),
        (''uptime_seconds'', PFloat (uptime_seconds now m))]
     in case avg_latency_ms m of
          None \<Rightarrow> None
        | Some (m1, avg) \<Rightarrow>
            (case messages_per_second now m1 of
               None \<Rightarrow> None
             | Some (m2, mps) \<Rightarrow>
                 Some (m2, counters @ [(''avg_latency_ms'', PFloat avg),
                                       (''messages_per_second'', PFloat mps)])))"

definition metrics_reset :: "time \<Rightarrow> Metrics \<Rightarrow> Metrics option" where
  "metrics_reset now = locked_update (\<lambda>m.
     (new_metrics now)\<lparr>met_last_message_time := met_last_message_time m,
                       met_locked := met_locked m\<rparr>)"

text \<open>The module's global instance: \<open>get_metrics\<close> makes it on first use.\<close>

definition get_metrics :: "time \<Rightarrow> Metrics option \<Rightarrow> Metrics option \<times> Metrics" where
  "get_metrics now g = (case g of None \<Rightarrow> (Some (new_metrics now), new_metrics now) | Some m \<Rightarrow> (g, m))"

definition set_metrics :: "Metrics \<Rightarrow> Metrics option \<Rightarrow> Metrics option" where
  "set_metrics m g = Some m"

section \<open>A run of calls\<close>

datatype metrics_call =
    MessageSent nat time
  | MessageReceived nat time
  | RpcCall | RpcReceived | RpcError
  | Latency rat
  | Connection | Disconnection | ConnectionFailure

fun do_metrics_call :: "Metrics \<Rightarrow> metrics_call \<Rightarrow> Metrics option" where
  "do_metrics_call m (MessageSent n t) = record_message_sent n t m"
| "do_metrics_call m (MessageReceived n t) = record_message_received n t m"
| "do_metrics_call m RpcCall = record_rpc_call m"
| "do_metrics_call m RpcReceived = record_rpc_received m"
| "do_metrics_call m RpcError = record_rpc_error m"
| "do_metrics_call m (Latency l) = metrics_record_latency l m"
| "do_metrics_call m Connection = record_connection m"
| "do_metrics_call m Disconnection = record_disconnection m"
| "do_metrics_call m ConnectionFailure = record_connection_failure m"

lemmas metrics_ops =
  record_message_sent_def record_message_received_def record_rpc_call_def record_rpc_received_def
  record_rpc_error_def metrics_record_latency_def record_connection_def record_disconnection_def
  record_connection_failure_def locked_update_def with_lock_def

text \<open>A call on an unlocked object returns, and leaves it unlocked.\<close>

lemma metrics_call_returns:
  "\<not> met_locked m \<Longrightarrow> \<exists>m'. do_metrics_call m c = Some m' \<and> \<not> met_locked m'"
  by (cases c) (simp_all add: metrics_ops)

definition metrics_step :: "Metrics \<Rightarrow> metrics_call \<Rightarrow> Metrics" where
  "metrics_step m c = (case do_metrics_call m c of None \<Rightarrow> m | Some m' \<Rightarrow> m')"

definition metrics_ok :: "Metrics \<Rightarrow> bool" where
  "metrics_ok m = (\<not> met_locked m \<and> met_connections_active m \<le> met_connections_total m)"

interpretation metrics: monotone_machine metrics_step metrics_ok
  "\<lambda>m. met_messages_sent m + met_messages_received m + met_bytes_sent m + met_bytes_received m
     + met_rpc_calls_made m + met_rpc_calls_received m + met_rpc_errors m + met_connections_total m
     + met_connections_failed m + met_latency_count m"
proof
  fix m c
  assume "metrics_ok m"
  then show "metrics_ok (metrics_step m c)"
    by (cases c) (auto simp: metrics_step_def metrics_ok_def metrics_ops)
  show "met_messages_sent m + met_messages_received m + met_bytes_sent m + met_bytes_received m
     + met_rpc_calls_made m + met_rpc_calls_received m + met_rpc_errors m + met_connections_total m
     + met_connections_failed m + met_latency_count m
    \<le> met_messages_sent (metrics_step m c) + met_messages_received (metrics_step m c)
     + met_bytes_sent (metrics_step m c) + met_bytes_received (metrics_step m c)
     + met_rpc_calls_made (metrics_step m c) + met_rpc_calls_received (metrics_step m c)
     + met_rpc_errors (metrics_step m c) + met_connections_total (metrics_step m c)
     + met_connections_failed (metrics_step m c) + met_latency_count (metrics_step m c)"
    by (cases c) (simp_all add: metrics_step_def metrics_ops)
qed

definition latencies :: "metrics_call list \<Rightarrow> rat list" where
  "latencies cs = concat (map (\<lambda>c. case c of Latency l \<Rightarrow> [l] | _ \<Rightarrow> []) cs)"

lemma latencies_run:
  assumes "\<not> met_locked m"
  shows "met_latency_sum (foldl metrics_step m cs) = met_latency_sum m + sum_list (latencies cs)
    \<and> met_latency_count (foldl metrics_step m cs) = met_latency_count m + length (latencies cs)"
  using assms
proof (induction cs arbitrary: m)
  case Nil
  then show ?case by (simp add: latencies_def)
next
  case (Cons c cs)
  then have "\<not> met_locked (metrics_step m c)"
    using metrics_call_returns [of m c] by (auto simp: metrics_step_def)
  from Cons.IH [OF this] Cons.prems show ?case
    by (cases c) (simp_all add: latencies_def metrics_step_def metrics_ops)
qed

section \<open>Properties\<close>

text \<open>
  The average is the average: after any recording calls on a fresh object, each of which
  returns, \<open>avg_latency_ms\<close> returns the mean of the latencies recorded (0 when there are none), and
  the connections counted active are never more than those ever counted.
\<close>

lemma metrics_average:
  "let m = foldl metrics_step (new_metrics now) calls
   in (\<exists>m'. avg_latency_ms m = Some (m',
        if latencies calls = [] then 0
        else sum_list (latencies calls) / of_nat (length (latencies calls))))
    \<and> met_connections_active m \<le> met_connections_total m"
proof -
  let ?m = "foldl metrics_step (new_metrics now) calls"
  have "metrics_ok ?m" by (rule metrics.run_inv) (simp add: metrics_ok_def new_metrics_def)
  then show ?thesis
    using latencies_run [of "new_metrics now" calls]
    by (simp add: Let_def metrics_ok_def avg_latency_ms_def with_lock_def new_metrics_def)
qed

text \<open>
  \<open>to_dict\<close> never returns: it holds the lock while it reads \<open>avg_latency_ms\<close>, which takes the
  same lock, so it waits for ever on every object, fresh or used, where \<open>avg_latency_ms\<close> alone
  returns.
\<close>

lemma to_dict_deadlocks:
  "metrics_to_dict later m = None
   \<and> avg_latency_ms (foldl metrics_step (new_metrics now) calls) \<noteq> None
   \<and> metrics_to_dict later (foldl metrics_step (new_metrics now) calls) = None"
proof -
  have "metrics_to_dict later m = None" for m
    by (simp add: metrics_to_dict_def with_lock_def avg_latency_ms_def Let_def)
  moreover have "metrics_ok (foldl metrics_step (new_metrics now) calls)"
    by (rule metrics.run_inv) (simp add: metrics_ok_def new_metrics_def)
  ultimately show ?thesis by (simp add: metrics_ok_def avg_latency_ms_def with_lock_def)
qed

end
