(* ===== verification/Heartbeat.thy ===== *)
theory Heartbeat
  imports Prelude
begin

text \<open>
  \<open>src/conduit/heartbeat/manager.py\<close> and \<open>src/conduit/heartbeat/monitor.py\<close>: the per-target
  liveness manager of the server and the single-connection monitor with its latency statistics.
  One iteration of a background loop, from the end of its sleep to the next sleep, is one
  operation; the pings sent and the callbacks fired are returned as events.
\<close>

section \<open>HeartbeatManager\<close>

record HeartbeatManager =
  hm_interval :: time
  hm_timeout :: time
  hm_max_missed :: int
  hm_on_stale :: bool
  hm_last_pong :: "(string, time) dict"
  hm_missed :: "(string, int) dict"
  hm_senders :: "string list" \<comment> \<open>the keys, in insertion order\<close>
  hm_running :: bool

datatype hb_event = PingTo string | Stale string

definition new_heartbeat_manager :: "time \<Rightarrow> time \<Rightarrow> int \<Rightarrow> bool \<Rightarrow> HeartbeatManager" where
  "new_heartbeat_manager interval timeout max_missed on_stale =
     \<lparr>hm_interval = interval, hm_timeout = timeout, hm_max_missed = max_missed,
      hm_on_stale = on_stale, hm_last_pong = [], hm_missed = [], hm_senders = [],
      hm_running = False\<rparr>"

definition hm_register :: "time \<Rightarrow> string \<Rightarrow> HeartbeatManager \<Rightarrow> HeartbeatManager" where
  "hm_register now t h =
     h\<lparr>hm_last_pong := AList.update t now (hm_last_pong h),
       hm_missed := AList.update t 0 (hm_missed h),
       hm_senders := (if t \<in> set (hm_senders h) then hm_senders h else hm_senders h @ [t])\<rparr>"

definition hm_unregister :: "string \<Rightarrow> HeartbeatManager \<Rightarrow> HeartbeatManager" where
  "hm_unregister t h =
     h\<lparr>hm_last_pong := AList.delete t (hm_last_pong h),
       hm_missed := AList.delete t (hm_missed h),
       hm_senders := filter (\<lambda>x. x \<noteq> t) (hm_senders h)\<rparr>"

definition hm_record_pong :: "time \<Rightarrow> string \<Rightarrow> HeartbeatManager \<Rightarrow> HeartbeatManager" where
  "hm_record_pong now t h =
     h\<lparr>hm_last_pong := AList.update t now (hm_last_pong h),
       hm_missed := AList.update t 0 (hm_missed h)\<rparr>"

definition hm_is_alive :: "time \<Rightarrow> string \<Rightarrow> HeartbeatManager \<Rightarrow> bool" where
  "hm_is_alive now t h =
     (case map_of (hm_last_pong h) t of None \<Rightarrow> False | Some l \<Rightarrow> now - l < hm_timeout h)"

text \<open>\<open>start\<close> makes the background task (the flag) unless it runs; \<open>stop\<close> cancels it.\<close>

definition hm_start :: "HeartbeatManager \<Rightarrow> HeartbeatManager \<times> bool" where
  "hm_start h = (if hm_running h then (h, False) else (h\<lparr>hm_running := True\<rparr>, True))"

definition hm_stop :: "HeartbeatManager \<Rightarrow> HeartbeatManager" where
  "hm_stop h = h\<lparr>hm_running := False\<rparr>"

text \<open>
  One target of a tick: the ping (a send that raises is only logged), then the liveness check.
  \<open>cb\<close> is what the \<open>on_stale\<close> callback does to the manager while it is awaited.
\<close>

definition tick_target ::
  "(string \<Rightarrow> HeartbeatManager \<Rightarrow> HeartbeatManager) \<Rightarrow> time \<Rightarrow> string
     \<Rightarrow> HeartbeatManager \<Rightarrow> HeartbeatManager \<times> hb_event list" where
  "tick_target cb now t h =
     (let last = (case map_of (hm_last_pong h) t of None \<Rightarrow> now | Some l \<Rightarrow> l)
      in if now - last > hm_timeout h then
           (let n = (case map_of (hm_missed h) t of None \<Rightarrow> 0 | Some k \<Rightarrow> k) + 1;
                h1 = h\<lparr>hm_missed := AList.update t n (hm_missed h)\<rparr>
            in if n \<ge> hm_max_missed h \<and> hm_on_stale h then (cb t h1, [PingTo t, Stale t])
               else (h1, [PingTo t]))
         else (h, [PingTo t]))"

fun tick_loop ::
  "(string \<Rightarrow> HeartbeatManager \<Rightarrow> HeartbeatManager) \<Rightarrow> time \<Rightarrow> string list
     \<Rightarrow> HeartbeatManager \<Rightarrow> HeartbeatManager \<times> hb_event list" where
  "tick_loop cb now [] h = (h, [])"
| "tick_loop cb now (t # ts) h =
     (case tick_target cb now t h of
        (h1, ev) \<Rightarrow> (case tick_loop cb now ts h1 of (h2, evs) \<Rightarrow> (h2, ev @ evs)))"

text \<open>The targets are the senders registered when the tick begins.\<close>

definition hm_tick ::
  "(string \<Rightarrow> HeartbeatManager \<Rightarrow> HeartbeatManager) \<Rightarrow> time
     \<Rightarrow> HeartbeatManager \<Rightarrow> HeartbeatManager \<times> hb_event list" where
  "hm_tick cb now h = tick_loop cb now (hm_senders h) h"

text \<open>One turn of \<open>_loop\<close> after its sleep: no tick once stopped; whether the loop goes on.\<close>

definition hm_loop_turn ::
  "(string \<Rightarrow> HeartbeatManager \<Rightarrow> HeartbeatManager) \<Rightarrow> time
     \<Rightarrow> HeartbeatManager \<Rightarrow> (HeartbeatManager \<times> hb_event list) \<times> bool" where
  "hm_loop_turn cb now h =
     (if \<not> hm_running h then ((h, []), False)
      else let r = hm_tick cb now h in (r, hm_running (fst r)))"

text \<open>The done-callback of the task.\<close>

definition hm_on_task_done :: "HeartbeatManager \<Rightarrow> HeartbeatManager" where
  "hm_on_task_done h = h\<lparr>hm_running := False\<rparr>"

section \<open>HeartbeatMonitor\<close>

record HeartbeatStats =
  hs_pings_sent :: nat
  hs_pongs_received :: nat
  hs_pongs_sent :: nat
  hs_pings_received :: nat
  hs_last_ping_sent :: "time option"
  hs_last_pong_received :: "time option"
  hs_last_ping_received :: "time option"
  hs_last_pong_sent :: "time option"
  hs_current_latency_ms :: rat
  hs_avg_latency_ms :: rat
  hs_min_latency_ms :: "rat option" \<comment> \<open>None is \<open>float('inf')\<close>\<close>
  hs_max_latency_ms :: rat
  hs_timeouts :: nat

definition new_heartbeat_stats :: HeartbeatStats where
  "new_heartbeat_stats =
     \<lparr>hs_pings_sent = 0, hs_pongs_received = 0, hs_pongs_sent = 0, hs_pings_received = 0,
      hs_last_ping_sent = None, hs_last_pong_received = None, hs_last_ping_received = None,
      hs_last_pong_sent = None, hs_current_latency_ms = 0, hs_avg_latency_ms = 0,
      hs_min_latency_ms = None, hs_max_latency_ms = 0, hs_timeouts = 0\<rparr>"

definition record_latency :: "rat \<Rightarrow> HeartbeatStats \<Rightarrow> HeartbeatStats" where
  "record_latency ms s =
     s\<lparr>hs_current_latency_ms := ms,
       hs_min_latency_ms := Some (case hs_min_latency_ms s of None \<Rightarrow> ms | Some m \<Rightarrow> min m ms),
       hs_max_latency_ms := max (hs_max_latency_ms s) ms,
       hs_avg_latency_ms := (if hs_avg_latency_ms s = 0 then ms
                             else 3 / 10 * ms + (1 - 3 / 10) * hs_avg_latency_ms s)\<rparr>"

record HeartbeatMonitor =
  hb_interval :: time
  hb_timeout :: time
  hb_on_send_ping :: bool
  hb_on_timeout :: bool
  hb_use_thread :: bool
  hb_running :: bool
  hb_stats :: HeartbeatStats
  hb_last_pong_time :: time
  hb_pending_ping_time :: "time option"

definition new_heartbeat_monitor :: "time \<Rightarrow> time \<Rightarrow> bool \<Rightarrow> bool \<Rightarrow> bool \<Rightarrow> HeartbeatMonitor" where
  "new_heartbeat_monitor interval timeout send_ping on_timeout use_thread =
     \<lparr>hb_interval = interval, hb_timeout = timeout, hb_on_send_ping = send_ping,
      hb_on_timeout = on_timeout, hb_use_thread = use_thread, hb_running = False,
      hb_stats = new_heartbeat_stats, hb_last_pong_time = 0, hb_pending_ping_time = None\<rparr>"

definition hb_set_callbacks :: "HeartbeatMonitor \<Rightarrow> HeartbeatMonitor" where
  "hb_set_callbacks h = h\<lparr>hb_on_send_ping := True, hb_on_timeout := True\<rparr>"

text \<open>\<open>start\<close>: None is the ValueError for the missing callback.\<close>

definition hb_start :: "time \<Rightarrow> HeartbeatMonitor \<Rightarrow> HeartbeatMonitor option" where
  "hb_start now h =
     (if hb_running h then Some h
      else if \<not> hb_on_send_ping h then None
      else Some (h\<lparr>hb_running := True, hb_last_pong_time := now\<rparr>))"

definition hb_stop :: "HeartbeatMonitor \<Rightarrow> HeartbeatMonitor" where
  "hb_stop h = (if \<not> hb_running h then h else h\<lparr>hb_running := False\<rparr>)"

datatype monitor_event = SendPing | TimedOut

text \<open>
  One turn of either loop after its sleep, up to the call of a callback: both record the same.
  The threaded loop first looks whether the main loop is closed, and ends if it is.
\<close>

definition hb_turn :: "time \<Rightarrow> HeartbeatMonitor \<Rightarrow> HeartbeatMonitor \<times> monitor_event list" where
  "hb_turn now h =
     (if now - hb_last_pong_time h > hb_timeout h then
        (h\<lparr>hb_stats := (hb_stats h)\<lparr>hs_timeouts := hs_timeouts (hb_stats h) + 1\<rparr>\<rparr>,
         if hb_on_timeout h then [TimedOut] else [])
      else
        (h\<lparr>hb_pending_ping_time := Some now,
           hb_stats := (hb_stats h)\<lparr>hs_pings_sent := hs_pings_sent (hb_stats h) + 1,
                                   hs_last_ping_sent := Some now\<rparr>\<rparr>,
         if hb_on_send_ping h then [SendPing] else []))"

definition heartbeat_loop_turn ::
  "time \<Rightarrow> HeartbeatMonitor \<Rightarrow> (HeartbeatMonitor \<times> monitor_event list) \<times> bool" where
  "heartbeat_loop_turn now h =
     (if \<not> hb_running h then ((h, []), False) else (hb_turn now h, True))"

definition heartbeat_loop_threaded_turn ::
  "bool \<Rightarrow> time \<Rightarrow> HeartbeatMonitor \<Rightarrow> (HeartbeatMonitor \<times> monitor_event list) \<times> bool" where
  "heartbeat_loop_threaded_turn main_loop_open now h =
     (if \<not> hb_running h \<or> \<not> main_loop_open then ((h, []), False) else (hb_turn now h, True))"

definition hb_record_pong :: "time \<Rightarrow> HeartbeatMonitor \<Rightarrow> HeartbeatMonitor" where
  "hb_record_pong now h =
     (let s = (hb_stats h)\<lparr>hs_pongs_received := hs_pongs_received (hb_stats h) + 1,
                           hs_last_pong_received := Some now\<rparr>;
          h1 = h\<lparr>hb_last_pong_time := now, hb_stats := s\<rparr>
      in case hb_pending_ping_time h of
           None \<Rightarrow> h1
         | Some p \<Rightarrow> h1\<lparr>hb_stats := record_latency ((now - p) * 1000) s,
                        hb_pending_ping_time := None\<rparr>)"

definition hb_record_ping :: "time \<Rightarrow> HeartbeatMonitor \<Rightarrow> HeartbeatMonitor" where
  "hb_record_ping now h =
     h\<lparr>hb_stats := (hb_stats h)\<lparr>hs_pings_received := hs_pings_received (hb_stats h) + 1,
                                hs_last_ping_received := Some now\<rparr>\<rparr>"

definition hb_record_pong_sent :: "time \<Rightarrow> HeartbeatMonitor \<Rightarrow> HeartbeatMonitor" where
  "hb_record_pong_sent now h =
     h\<lparr>hb_stats := (hb_stats h)\<lparr>hs_pongs_sent := hs_pongs_sent (hb_stats h) + 1,
                                hs_last_pong_sent := Some now\<rparr>\<rparr>"

definition hb_reset :: "time \<Rightarrow> HeartbeatMonitor \<Rightarrow> HeartbeatMonitor" where
  "hb_reset now h = h\<lparr>hb_last_pong_time := now, hb_pending_ping_time := None\<rparr>"

definition time_since_last_pong :: "time \<Rightarrow> HeartbeatMonitor \<Rightarrow> time" where
  "time_since_last_pong now h = (if hb_last_pong_time h = 0 then 0 else now - hb_last_pong_time h)"

definition is_healthy :: "time \<Rightarrow> HeartbeatMonitor \<Rightarrow> bool" where
  "is_healthy now h = (time_since_last_pong now h < hb_timeout h)"

section \<open>When a target of the manager goes stale\<close>

text \<open>
  What happens to a manager, seen from outside: calls and ticks of its loop.  The callback is the
  server's, which unregisters the stale target before anything else.
\<close>

datatype hm_call =
    HmRegister string time
  | HmUnregister string
  | HmPong string time
  | HmTick time

fun do_hm_call :: "HeartbeatManager \<Rightarrow> hm_call \<Rightarrow> HeartbeatManager \<times> hb_event list" where
  "do_hm_call h (HmRegister t now) = (hm_register now t h, [])"
| "do_hm_call h (HmUnregister t) = (hm_unregister t h, [])"
| "do_hm_call h (HmPong t now) = (hm_record_pong now t h, [])"
| "do_hm_call h (HmTick now) = hm_tick hm_unregister now h"

text \<open>What a manager knows of one target, and its settings.\<close>

definition entry :: "HeartbeatManager \<Rightarrow> string \<Rightarrow> bool \<times> time option \<times> int option" where
  "entry h t = (t \<in> set (hm_senders h), map_of (hm_last_pong h) t, map_of (hm_missed h) t)"

definition hm_settings :: "HeartbeatManager \<Rightarrow> time \<times> int \<times> bool" where
  "hm_settings h = (hm_timeout h, hm_max_missed h, hm_on_stale h)"

definition hm_ok :: "HeartbeatManager \<Rightarrow> bool" where
  "hm_ok h = (distinct (hm_senders h)
     \<and> (\<forall>t \<in> set (hm_senders h). \<exists>l n. entry h t = (True, Some l, Some n)))"

lemma tick_target_frame:
  assumes "tick_target hm_unregister now u h = (h', ev)"
  shows "hm_settings h' = hm_settings h \<and> set (hm_senders h') \<subseteq> set (hm_senders h)
    \<and> (distinct (hm_senders h) \<longrightarrow> distinct (hm_senders h'))
    \<and> (t \<noteq> u \<longrightarrow> entry h' t = entry h t \<and> Stale t \<notin> set ev)"
  using assms
  by (auto simp: tick_target_def Let_def hm_settings_def hm_unregister_def entry_def update_conv' delete_conv'
      split: if_splits)

lemma tick_loop_frame:
  "tick_loop hm_unregister now ts h = (h', ev) \<Longrightarrow>
    hm_settings h' = hm_settings h \<and> set (hm_senders h') \<subseteq> set (hm_senders h)
    \<and> (distinct (hm_senders h) \<longrightarrow> distinct (hm_senders h'))
    \<and> (t \<notin> set ts \<longrightarrow> entry h' t = entry h t \<and> Stale t \<notin> set ev)"
proof (induction ts arbitrary: h ev)
  case (Cons u ts)
  obtain h1 e1 where t: "tick_target hm_unregister now u h = (h1, e1)"
    by (cases "tick_target hm_unregister now u h")
  with Cons.prems obtain e2 where l: "tick_loop hm_unregister now ts h1 = (h', e2)" "ev = e1 @ e2"
    by (auto split: prod.splits)
  from Cons.IH [OF l(1)] tick_target_frame [OF t, of t] l(2) show ?case by auto
qed simp

text \<open>
  One target as its owner sees it: when it was last heard of, and the ticks since then that found
  it silent for longer than the timeout; None when it is not registered.
\<close>

definition too_old :: "time \<Rightarrow> time \<Rightarrow> time \<Rightarrow> bool" where
  "too_old timeout l now = (now - l > timeout)"

definition goes_stale :: "time \<times> int \<times> bool \<Rightarrow> time \<times> int \<Rightarrow> time \<Rightarrow> bool" where
  "goes_stale st v now = (case st of (timeout, max_missed, on_stale) \<Rightarrow>
     on_stale \<and> too_old timeout (fst v) now \<and> snd v + 1 \<ge> max_missed)"

fun target_view :: "time \<times> int \<times> bool \<Rightarrow> string \<Rightarrow> (time \<times> int) option \<Rightarrow> hm_call \<Rightarrow> (time \<times> int) option" where
  "target_view st t s (HmRegister u now) = (if u = t then Some (now, 0) else s)"
| "target_view st t s (HmUnregister u) = (if u = t then None else s)"
| "target_view st t s (HmPong u now) = (if u = t then map_option (\<lambda>_. (now, 0)) s else s)"
| "target_view st t s (HmTick now) =
     (case s of
        None \<Rightarrow> None
      | Some v \<Rightarrow> if goes_stale st v now then None
                  else Some (fst v, if too_old (fst st) (fst v) now then snd v + 1 else snd v))"

definition view :: "HeartbeatManager \<Rightarrow> string \<Rightarrow> (time \<times> int) option" where
  "view h t = (case entry h t of (True, Some l, Some n) \<Rightarrow> Some (l, n) | _ \<Rightarrow> None)"

lemma view_Some: "entry h t = (True, Some l, Some n) \<Longrightarrow> view h t = Some (l, n)"
  by (simp add: view_def)

lemma view_None: "\<not> fst (entry h t) \<Longrightarrow> view h t = None"
  by (cases "entry h t") (simp add: view_def)

lemma tick_target_self:
  assumes "entry h t = (True, Some l, Some n)" and "tick_target hm_unregister now t h = (h', ev)"
  shows "entry h' t = (if goes_stale (hm_settings h) (l, n) now then (False, None, None)
      else (True, Some l, Some (if too_old (hm_timeout h) l now then n + 1 else n)))
    \<and> (Stale t \<in> set ev \<longleftrightarrow> goes_stale (hm_settings h) (l, n) now)"
  using assms
  by (auto simp: tick_target_def Let_def entry_def hm_unregister_def update_conv' delete_conv' hm_settings_def
      goes_stale_def too_old_def split: if_splits)

lemma tick_loop_target:
  assumes "distinct ts" and "t \<in> set ts" and "tick_loop hm_unregister now ts h = (h', ev)"
    and "entry h t = (True, Some l, Some n)"
  shows "entry h' t = (if goes_stale (hm_settings h) (l, n) now then (False, None, None)
      else (True, Some l, Some (if too_old (hm_timeout h) l now then n + 1 else n)))
    \<and> (Stale t \<in> set ev \<longleftrightarrow> goes_stale (hm_settings h) (l, n) now)"
  using assms
proof (induction ts arbitrary: h ev)
  case (Cons u ts)
  obtain h1 e1 where t1: "tick_target hm_unregister now u h = (h1, e1)"
    by (cases "tick_target hm_unregister now u h")
  with Cons.prems(3) obtain e2 where l: "tick_loop hm_unregister now ts h1 = (h', e2)" "ev = e1 @ e2"
    by (auto split: prod.splits)
  show ?case
  proof (cases "u = t")
    case True
    with Cons.prems(1) have "t \<notin> set ts" by simp
    with tick_target_self [OF Cons.prems(4) t1[unfolded True]] tick_loop_frame [OF l(1), of t] l(2) show ?thesis by auto
  next
    case False
    with tick_target_frame [OF t1, of t] have "entry h1 t = entry h t" "hm_settings h1 = hm_settings h" "Stale t \<notin> set e1"
      by auto
    with Cons.IH [OF _ _ l(1)] Cons.prems False l(2) show ?thesis by (simp add: hm_settings_def)
  qed
qed simp

interpretation manager: op_machine "\<lambda>h c. fst (do_hm_call h c)" hm_ok
proof
  fix h c
  assume ok: "hm_ok h"
  show "hm_ok (fst (do_hm_call h c))"
  proof (cases c)
    case (HmTick now)
    obtain h' ev where t: "tick_loop hm_unregister now (hm_senders h) h = (h', ev)"
      by (cases "tick_loop hm_unregister now (hm_senders h) h")
    have "\<exists>l n. entry h' u = (True, Some l, Some n)" if u: "u \<in> set (hm_senders h')" for u
    proof -
      from u tick_loop_frame [OF t] have "u \<in> set (hm_senders h)" by auto
      with ok obtain l n where e: "entry h u = (True, Some l, Some n)" by (auto simp: hm_ok_def)
      from ok have "distinct (hm_senders h)" by (simp add: hm_ok_def)
      from tick_loop_target [OF this \<open>u \<in> set (hm_senders h)\<close> t e] u show ?thesis
        by (auto simp: entry_def split: if_splits)
    qed
    with tick_loop_frame [OF t] ok show ?thesis by (auto simp: HmTick hm_tick_def t hm_ok_def)
  qed (use ok in \<open>auto simp: hm_ok_def entry_def hm_register_def hm_unregister_def hm_record_pong_def
         update_conv' delete_conv'\<close>)
qed

lemma tick_view:
  assumes "hm_ok h"
  shows "view (fst (hm_tick hm_unregister now h)) t = target_view (hm_settings h) t (view h t) (HmTick now)
    \<and> (Stale t \<in> set (snd (hm_tick hm_unregister now h)) \<longleftrightarrow>
        (\<exists>v. view h t = Some v \<and> goes_stale (hm_settings h) v now))"
proof -
  obtain h' ev where t: "tick_loop hm_unregister now (hm_senders h) h = (h', ev)"
    by (cases "tick_loop hm_unregister now (hm_senders h) h")
  show ?thesis
  proof (cases "t \<in> set (hm_senders h)")
    case True
    with assms obtain l n where e: "entry h t = (True, Some l, Some n)" by (auto simp: hm_ok_def)
    from assms have "distinct (hm_senders h)" by (simp add: hm_ok_def)
    from tick_loop_target [OF this True t e] view_Some [OF e] show ?thesis
      by (simp add: hm_tick_def t view_def hm_settings_def)
  next
    case False
    with tick_loop_frame [OF t, of t] have "\<not> fst (entry h' t)" "\<not> fst (entry h t)" "Stale t \<notin> set ev"
      by (simp_all add: entry_def)
    then show ?thesis by (simp add: hm_tick_def t view_None)
  qed
qed

lemma view_step:
  assumes "hm_ok h"
  shows "view (fst (do_hm_call h c)) t = target_view (hm_settings h) t (view h t) c
    \<and> hm_settings (fst (do_hm_call h c)) = hm_settings h"
proof (cases c)
  case (HmTick now)
  obtain h' ev where t: "tick_loop hm_unregister now (hm_senders h) h = (h', ev)"
    by (cases "tick_loop hm_unregister now (hm_senders h) h")
  from tick_view [OF assms, of now t] tick_loop_frame [OF t] show ?thesis
    by (simp add: HmTick hm_tick_def t)
next
  case (HmPong u now)
  have "\<exists>l n. entry h t = (True, Some l, Some n)" if "t \<in> set (hm_senders h)" using assms that by (simp add: hm_ok_def)
  then show ?thesis
    by (cases "t \<in> set (hm_senders h)")
      (auto simp: HmPong view_def entry_def hm_record_pong_def update_conv' hm_settings_def)
qed (auto simp: view_def entry_def hm_register_def hm_unregister_def update_conv' delete_conv' hm_settings_def)

lemma view_run:
  assumes "hm_ok h"
  shows "view (foldl (\<lambda>h c. fst (do_hm_call h c)) h cs) t = foldl (target_view (hm_settings h) t) (view h t) cs
    \<and> hm_settings (foldl (\<lambda>h c. fst (do_hm_call h c)) h cs) = hm_settings h"
  using assms
proof (induction cs arbitrary: h)
  case (Cons c cs)
  from Cons.IH [OF manager.step_inv [OF Cons.prems, of c]] view_step [OF Cons.prems, of c t] show ?case by simp
qed simp

text \<open>
  The next tick reports a target stale exactly when it is registered, has been silent for longer
  than the timeout, and this is at least the \<open>max_missed\<close>-th tick since it was last heard of to find
  it so.
\<close>

lemma stale_exactly:
  assumes "hm_ok h"
  shows "Stale t \<in> set (snd (do_hm_call (foldl (\<lambda>h c. fst (do_hm_call h c)) h calls) (HmTick now))) \<longleftrightarrow>
    (\<exists>v. foldl (target_view (hm_settings h) t) (view h t) calls = Some v \<and> goes_stale (hm_settings h) v now)"
  using tick_view [OF manager.run_inv [OF assms, of calls], of now t] view_run [OF assms, of calls t] by simp

section \<open>A silent target\<close>

text \<open>The target that a call is about, and the times of the ticks.\<close>

fun about :: "hm_call \<Rightarrow> string option" where
  "about (HmRegister t now) = Some t"
| "about (HmUnregister t) = Some t"
| "about (HmPong t now) = Some t"
| "about (HmTick now) = None"

fun tick_times :: "hm_call list \<Rightarrow> time list" where
  "tick_times [] = []"
| "tick_times (HmTick now # cs) = now # tick_times cs"
| "tick_times (c # cs) = tick_times cs"

lemma silent_view:
  assumes "\<forall>c \<in> set cs. about c \<noteq> Some t" and "n < max_missed"
  shows "foldl (target_view (timeout, max_missed, True) t) (Some (l, n)) cs =
    (let k = n + int (length (filter (too_old timeout l) (tick_times cs)))
     in if k < max_missed then Some (l, k) else None)"
  using assms
proof (induction cs arbitrary: n)
  case (Cons c cs)
  have none: "foldl (target_view (timeout, max_missed, True) t) None cs = None"
    using Cons.prems(1)
  proof (induction cs)
    case (Cons d cs)
    then have "target_view (timeout, max_missed, True) t None d = None" by (cases d) auto
    with Cons show ?case by simp
  qed simp
  show ?case
  proof (cases c)
    case (HmTick now)
    show ?thesis
    proof (cases "too_old timeout l now")
      case True
      show ?thesis
      proof (cases "n + 1 < max_missed")
        case small: True
        with Cons.IH [of "n + 1"] Cons.prems True HmTick show ?thesis by (simp add: goes_stale_def Let_def)
      qed (use Cons.prems True HmTick none in \<open>simp add: goes_stale_def Let_def\<close>)
    qed (use Cons HmTick in \<open>simp add: goes_stale_def Let_def\<close>)
  qed (use Cons in auto)
qed simp

lemma late_ticks:
  fixes i timeout l :: rat
  assumes "0 < i" and "0 \<le> timeout"
  shows "too_old timeout l (l + of_nat j * i) \<longleftrightarrow> \<lfloor>timeout / i\<rfloor> < int j"
    and "int (length (filter (too_old timeout l) (map (\<lambda>j. l + of_nat j * i) [1..<k]))) = max 0 (int k - 1 - \<lfloor>timeout / i\<rfloor>)"
proof -
  show late: "too_old timeout l (l + of_nat j * i) \<longleftrightarrow> \<lfloor>timeout / i\<rfloor> < int j" for j
    using assms by (simp add: too_old_def floor_less_iff pos_divide_less_eq)
  have pos: "0 \<le> \<lfloor>timeout / i\<rfloor>" using assms by simp
  show "int (length (filter (too_old timeout l) (map (\<lambda>j. l + of_nat j * i) [1..<k]))) = max 0 (int k - 1 - \<lfloor>timeout / i\<rfloor>)"
  proof (induction k)
    case (Suc k)
    show ?case
    proof (cases "k = 0")
      case False
      then have "[1..<Suc k] = [1..<k] @ [k]" by simp
      with Suc late [of k] pos show ?thesis by auto
    qed (use pos in simp)
  next
    case 0
    have "max 0 (int 0 - 1 - \<lfloor>timeout / i\<rfloor>) = 0" using pos by (intro max_absorb1) linarith
    then show ?case by simp
  qed
qed

section \<open>The latency figures stay within the measurements\<close>

definition latency_run :: "rat list \<Rightarrow> HeartbeatStats" where
  "latency_run ls = foldl (\<lambda>s l. record_latency l s) new_heartbeat_stats ls"

lemma record_latency_between:
  assumes "hs_min_latency_ms s = Some lo" and "lo \<le> hs_avg_latency_ms s"
    and "hs_avg_latency_ms s \<le> hi"
  shows "\<exists>lo'. hs_min_latency_ms (record_latency l s) = Some lo' \<and> lo' = min lo l
    \<and> lo' \<le> hs_avg_latency_ms (record_latency l s) \<and> hs_avg_latency_ms (record_latency l s) \<le> max hi l"
proof -
  let ?a = "hs_avg_latency_ms s"
  have "min lo l \<le> min ?a l" "max ?a l \<le> max hi l" using assms by auto
  moreover have "min ?a l \<le> 3 / 10 * l + (1 - 3 / 10) * ?a" "3 / 10 * l + (1 - 3 / 10) * ?a \<le> max ?a l"
    by (cases "?a \<le> l"; simp add: min_def max_def field_simps)+
  ultimately show ?thesis using assms(1) by (auto simp: record_latency_def)
qed

lemma latency_run_bounds:
  assumes "ls \<noteq> []"
  shows "hs_min_latency_ms (latency_run ls) = Some (Min (set ls))
    \<and> Min (set ls) \<le> hs_avg_latency_ms (latency_run ls)
    \<and> hs_avg_latency_ms (latency_run ls) \<le> Max (set ls)
    \<and> hs_max_latency_ms (latency_run ls) = max 0 (Max (set ls))
    \<and> hs_current_latency_ms (latency_run ls) = last ls"
  using assms
proof (induction ls rule: rev_nonempty_induct)
  case (single l)
  then show ?case
    by (simp add: latency_run_def record_latency_def new_heartbeat_stats_def)
next
  case (snoc l ls)
  let ?s = "latency_run ls"
  have run: "latency_run (ls @ [l]) = record_latency l ?s" by (simp add: latency_run_def)
  have m: "Min (set (ls @ [l])) = min (Min (set ls)) l" "Max (set (ls @ [l])) = max (Max (set ls)) l"
    using snoc.hyps by (simp_all add: min.commute max.commute)
  from snoc.IH have b: "hs_min_latency_ms ?s = Some (Min (set ls))"
    "Min (set ls) \<le> hs_avg_latency_ms ?s" "hs_avg_latency_ms ?s \<le> Max (set ls)" by simp_all
  from record_latency_between [OF b, of l] snoc.IH show ?case
    unfolding run m by (simp add: record_latency_def max.assoc)
qed

section \<open>Properties\<close>

text \<open>
  C28. A silent peer is given up later than documented.  The documentation promises that a peer is dead
  after \<open>max_missed\<close> unanswered pings, or when the timeout has passed; but the ticks before the timeout
  are not counted.  When the ticks come every interval after the peer was last heard of, and whatever
  happens to other targets, it is reported stale - and then no more - at exactly one of them, the one
  with the number floor (timeout / interval) + \<open>max_missed\<close>: by then it has been silent for more than
  the timeout and \<open>max_missed\<close> - 1 further intervals.
\<close>

theorem silent_peer_outlives_timeout:
  assumes h: "h = foldl (\<lambda>h c. fst (do_hm_call h c)) (new_heartbeat_manager interval timeout max_missed True) calls"
    and known: "t \<in> set (hm_senders h)"
    and settings: "0 < interval" "0 \<le> timeout" "1 \<le> max_missed"
    and quiet: "\<forall>c \<in> set cs. about c \<noteq> Some t"
    and ticks: "tick_times cs @ [now] = map (\<lambda>j. l + of_nat j * interval) [1..<Suc k]" "1 \<le> k"
  shows "(Stale t \<in> set (snd (do_hm_call (foldl (\<lambda>h c. fst (do_hm_call h c)) (hm_record_pong l t h) cs) (HmTick now)))
      \<longleftrightarrow> int k = \<lfloor>timeout / interval\<rfloor> + max_missed)
    \<and> (int k = \<lfloor>timeout / interval\<rfloor> + max_missed \<longrightarrow>
        max_missed \<le> int k \<and> timeout + of_int (max_missed - 1) * interval < now - l)"
proof -
  let ?start = "new_heartbeat_manager interval timeout max_missed True"
  let ?F = "\<lfloor>timeout / interval\<rfloor>"
  have ok0: "hm_ok ?start" "hm_settings ?start = (timeout, max_missed, True)"
    by (simp_all add: hm_ok_def new_heartbeat_manager_def hm_settings_def)
  have ok: "hm_ok h" "hm_settings h = (timeout, max_missed, True)"
    using manager.run_inv [OF ok0(1), of calls] view_run [OF ok0(1), of calls t] by (simp_all add: h ok0)
  obtain l0 n0 where "entry h t = (True, Some l0, Some n0)" using ok(1) known by (auto simp: hm_ok_def)
  then have v: "view (hm_record_pong l t h) t = Some (l, 0)"
    by (simp add: view_def entry_def hm_record_pong_def update_conv')
  have ok1: "hm_ok (hm_record_pong l t h)" "hm_settings (hm_record_pong l t h) = (timeout, max_missed, True)"
    using manager.step_inv [OF ok(1), of "HmPong t l"] view_step [OF ok(1), of "HmPong t l" t] ok(2) by simp_all
  have split: "tick_times cs = map (\<lambda>j. l + of_nat j * interval) [1..<k]" "now = l + of_nat k * interval"
    using ticks by (simp_all add: upt_Suc_append)
  have count: "int (length (filter (too_old timeout l) (tick_times cs))) = max 0 (int k - 1 - ?F)"
    unfolding split(1) by (rule late_ticks(2) [OF settings(1,2)])
  have late: "too_old timeout l now \<longleftrightarrow> ?F < int k"
    unfolding split(2) by (rule late_ticks(1) [OF settings(1,2)])
  have pos: "0 \<le> ?F" using settings by simp
  have "Stale t \<in> set (snd (do_hm_call (foldl (\<lambda>h c. fst (do_hm_call h c)) (hm_record_pong l t h) cs) (HmTick now)))
      \<longleftrightarrow> max 0 (int k - 1 - ?F) < max_missed \<and> ?F < int k \<and> max_missed \<le> max 0 (int k - 1 - ?F) + 1"
    unfolding stale_exactly [OF ok1(1)] ok1(2) v
    using silent_view [OF quiet, of 0 max_missed timeout l] settings(3)
    by (auto simp: Let_def count goes_stale_def late)
  also have "\<dots> \<longleftrightarrow> int k = ?F + max_missed" using settings(3) pos by auto
  finally have stale: "Stale t \<in> set (snd (do_hm_call (foldl (\<lambda>h c. fst (do_hm_call h c)) (hm_record_pong l t h) cs)
      (HmTick now))) \<longleftrightarrow> int k = ?F + max_missed" .
  have "timeout + of_int (max_missed - 1) * interval < now - l" if k: "int k = ?F + max_missed"
  proof -
    have "timeout / interval < of_int ?F + 1" by linarith
    then have "timeout < (of_int ?F + 1) * interval" using settings(1) by (simp add: pos_divide_less_eq)
    moreover have "(of_nat k :: rat) = of_int ?F + of_int max_missed" using k by (metis of_int_add of_int_of_nat_eq)
    ultimately show ?thesis by (simp add: split(2) algebra_simps)
  qed
  with stale pos show ?thesis by auto
qed

text \<open>With the defaults - 30 seconds, 90 seconds, 3 pings - the peer is given up after 180 seconds.\<close>

theorem silent_peer_outlives_timeout_witness:
  "Stale ''a'' \<in> set (snd (do_hm_call (foldl (\<lambda>h c. fst (do_hm_call h c))
      (hm_record_pong 0 ''a'' (hm_register 0 ''a'' (new_heartbeat_manager 30 90 3 True)))
      [HmTick 30, HmTick 60, HmRegister ''b'' 70, HmTick 90, HmTick 120, HmTick 150]) (HmTick 180)))"
proof -
  have up: "[1..<Suc 6] = [1, 2, 3, 4, 5, 6]" by code_simp
  have f: "\<lfloor>90 / 30 :: rat\<rfloor> = 3" by simp
  let ?h = "foldl (\<lambda>h c. fst (do_hm_call h c)) (new_heartbeat_manager 30 90 3 True) [HmRegister ''a'' 0]"
  let ?cs = "[HmTick 30, HmTick 60, HmRegister ''b'' 70, HmTick 90, HmTick 120, HmTick 150]"
  have known: "''a'' \<in> set (hm_senders ?h)" by (simp add: hm_register_def new_heartbeat_manager_def)
  have quiet: "\<forall>c \<in> set ?cs. about c \<noteq> Some ''a''" by simp
  have ticks: "tick_times ?cs @ [180] = map (\<lambda>j. 0 + of_nat j * 30) [1..<Suc 6]" unfolding up by simp
  from silent_peer_outlives_timeout [OF refl known _ _ _ quiet ticks] f show ?thesis by simp
qed

text \<open>
  Latency figures: after any non-empty series of measurements, the minimum is the least of
  them, the moving average lies between the least and the greatest, the maximum is the greatest
  (or 0), and the current latency is the last.
\<close>

lemma latency_figures:
  assumes "ls \<noteq> []"
  shows "hs_min_latency_ms (latency_run ls) = Some (Min (set ls))
    \<and> hs_avg_latency_ms (latency_run ls) \<in> {Min (set ls)..Max (set ls)}
    \<and> hs_max_latency_ms (latency_run ls) = max 0 (Max (set ls))
    \<and> hs_current_latency_ms (latency_run ls) = last ls"
  using latency_run_bounds [OF assms] by simp

end
