(* ===== verification/Response.thy ===== *)
theory Response
  imports Prelude
begin

text \<open>
  \<open>src/conduit/response/response.py\<close> and \<open>src/conduit/response/error.py\<close>: the dicts that wrap the
  results and errors of RPC handlers.  Values are what JSON carries (\<open>pyval\<close>); Pydantic models and
  other objects, which are turned into dicts first, are not values of the model.  \<open>repr\<close> is
  \<open>str\<close> on values that are not strings.
\<close>

section \<open>Success\<close>

definition response_call :: "pyval \<Rightarrow> (string, pyval) dict option \<Rightarrow> (string, pyval) dict" where
  "response_call v metadata =
     [(''success'', PBool True), (''data'', v)]
     @ (case metadata of None \<Rightarrow> [] | Some md \<Rightarrow> if md \<noteq> [] then [(''metadata'', PDict md)] else [])"

definition response_ok_wrap :: "pyval \<Rightarrow> string \<Rightarrow> (string, pyval) dict" where
  "response_ok_wrap v msg =
     [(''success'', PBool True)]
     @ (if v \<noteq> PNone then [(''data'', v)] else [])
     @ (if msg \<noteq> [] then [(''message'', PStr msg)] else [])"

text \<open>\<open>(total + page_size - 1) // page_size\<close>: None is ZeroDivisionError.\<close>

definition with_pagination :: "pyval list \<Rightarrow> int \<Rightarrow> int \<Rightarrow> int \<Rightarrow> (string, pyval) dict option" where
  "with_pagination items tot page page_size =
     (if page_size = 0 then None
      else Some
       [(''success'', PBool True), (''data'', PList items),
        (''pagination'', PDict
          [(''total'', PInt tot), (''page'', PInt page), (''page_size'', PInt page_size),
           (''total_pages'', PInt ((tot + page_size - 1) div page_size)),
           (''has_next'', PBool (page * page_size < tot)),
           (''has_prev'', PBool (page > 1))])])"

section \<open>Errors\<close>

datatype ErrorCode =
    UNKNOWN | INTERNAL | TIMEOUT | CANCELLED
  | VALIDATION | MISSING_FIELD | INVALID_TYPE | INVALID_VALUE
  | AUTH_REQUIRED | AUTH_FAILED | AUTH_EXPIRED | PERMISSION_DENIED
  | METHOD_NOT_FOUND | INVALID_PARAMS | EXECUTION_ERROR
  | CONNECTION_ERROR | DISCONNECTED | RECONNECTING
  | RATE_LIMITED | QUOTA_EXCEEDED

fun ErrorCode_value :: "ErrorCode \<Rightarrow> int" where
  "ErrorCode_value UNKNOWN = 1000"
| "ErrorCode_value INTERNAL = 1001"
| "ErrorCode_value TIMEOUT = 1002"
| "ErrorCode_value CANCELLED = 1003"
| "ErrorCode_value VALIDATION = 2000"
| "ErrorCode_value MISSING_FIELD = 2001"
| "ErrorCode_value INVALID_TYPE = 2002"
| "ErrorCode_value INVALID_VALUE = 2003"
| "ErrorCode_value AUTH_REQUIRED = 3000"
| "ErrorCode_value AUTH_FAILED = 3001"
| "ErrorCode_value AUTH_EXPIRED = 3002"
| "ErrorCode_value PERMISSION_DENIED = 3003"
| "ErrorCode_value METHOD_NOT_FOUND = 4000"
| "ErrorCode_value INVALID_PARAMS = 4001"
| "ErrorCode_value EXECUTION_ERROR = 4002"
| "ErrorCode_value CONNECTION_ERROR = 5000"
| "ErrorCode_value DISCONNECTED = 5001"
| "ErrorCode_value RECONNECTING = 5002"
| "ErrorCode_value RATE_LIMITED = 6000"
| "ErrorCode_value QUOTA_EXCEEDED = 6001"

definition error_call ::
  "string \<Rightarrow> int option \<Rightarrow> (string, pyval) dict option \<Rightarrow> (string, pyval) dict" where
  "error_call msg code details =
     [(''success'', PBool False), (''error'', PStr msg)]
     @ (case code of None \<Rightarrow> [] | Some c \<Rightarrow> [(''code'', PInt c)])
     @ (case details of None \<Rightarrow> [] | Some d \<Rightarrow> if d \<noteq> [] then [(''details'', PDict d)] else [])"

text \<open>\<open>str(v)\<close>.\<close>

definition text_of :: "(pyval \<Rightarrow> string) \<Rightarrow> pyval \<Rightarrow> string" where
  "text_of repr v = (case v of PStr s \<Rightarrow> s | _ \<Rightarrow> repr v)"

definition error_validation ::
  "(pyval \<Rightarrow> string) \<Rightarrow> string \<Rightarrow> string \<Rightarrow> string \<Rightarrow> pyval \<Rightarrow> (string, pyval) dict" where
  "error_validation repr msg field_name expected received =
     (let details =
        (if field_name \<noteq> [] then [(''field'', PStr field_name)] else [])
        @ (if expected \<noteq> [] then [(''expected'', PStr expected)] else [])
        @ (if received \<noteq> PNone then [(''received'', PStr (text_of repr received))] else [])
      in error_call msg (Some (ErrorCode_value VALIDATION))
           (if details \<noteq> [] then Some details else None))"

definition error_not_found :: "(pyval \<Rightarrow> string) \<Rightarrow> string \<Rightarrow> pyval \<Rightarrow> (string, pyval) dict" where
  "error_not_found repr resource ident =
     error_call
       (if truthy ident then resource @ '' not found: '' @ text_of repr ident
        else resource @ '' not found'')
       (Some (ErrorCode_value METHOD_NOT_FOUND)) None"

definition error_permission_denied :: "string \<Rightarrow> (string, pyval) dict" where
  "error_permission_denied action =
     error_call (if action \<noteq> [] then ''Permission denied: '' @ action else ''Permission denied'')
       (Some (ErrorCode_value PERMISSION_DENIED)) None"

definition error_internal :: "string \<Rightarrow> (string, pyval) dict" where
  "error_internal msg = error_call msg (Some (ErrorCode_value INTERNAL)) None"

definition error_timeout :: "string \<Rightarrow> (string, pyval) dict" where
  "error_timeout operation =
     error_call (if operation \<noteq> [] then ''Operation timed out: '' @ operation
                 else ''Operation timed out'')
       (Some (ErrorCode_value TIMEOUT)) None"

definition error_rate_limited :: "int option \<Rightarrow> (string, pyval) dict" where
  "error_rate_limited retry_after =
     error_call ''Rate limit exceeded'' (Some (ErrorCode_value RATE_LIMITED))
       (case retry_after of
          Some n \<Rightarrow> if n \<noteq> 0 then Some [(''retry_after'', PInt n)] else None
        | None \<Rightarrow> None)"

lemmas error_defs =
  error_validation_def error_not_found_def error_permission_denied_def error_internal_def
  error_timeout_def error_rate_limited_def

text \<open>Every wrapper says whether it succeeded.\<close>

definition answers :: "bool \<Rightarrow> (string, pyval) dict \<Rightarrow> bool" where
  "answers b d = (map_of d ''success'' = Some (PBool b))"

lemma answers_simps [simp]:
  "answers True (response_call v md)"
  "answers True (response_ok_wrap v msg)"
  "answers False (error_call msg code details)"
  "answers False (error_validation repr msg f e r)"
  "answers False (error_not_found repr res ident)"
  "answers False (error_permission_denied a)"
  "answers False (error_internal msg)"
  "answers False (error_timeout op)"
  "answers False (error_rate_limited ra)"
  by (simp_all add: answers_def response_call_def response_ok_wrap_def error_call_def error_defs Let_def)

lemma answers_has: "answers b d \<Longrightarrow> dict_has d ''success''"
  by (simp add: answers_def dict_has_def)

lemma dict_get_append_fresh: "\<not> dict_has d k \<Longrightarrow> dict_get (d @ e) k = dict_get e k"
  by (simp add: dict_get_def dict_has_def map_add_def split: option.split)

lemma le_div_iff:
  fixes a b k :: int
  assumes "0 < b"
  shows "k \<le> a div b \<longleftrightarrow> k * b \<le> a"
proof
  assume "k \<le> a div b"
  then have "k * b \<le> a div b * b" using assms by (simp add: mult_right_mono)
  also have "\<dots> \<le> a" using assms by (metis add_le_cancel_left add.commute add_0 div_mult_mod_eq pos_mod_sign)
  finally show "k * b \<le> a" .
next
  assume "k * b \<le> a"
  then have "(k * b) div b \<le> a div b" using assms by (intro zdiv_mono1)
  then show "k \<le> a div b" using assms by simp
qed

lemma le_pages_iff:
  fixes tot ps k :: int
  assumes "0 < ps"
  shows "k \<le> (tot + ps - 1) div ps \<longleftrightarrow> (k - 1) * ps < tot"
  using assms by (auto simp: le_div_iff algebra_simps)

section \<open>Property\<close>

text \<open>
  Pagination covers the list: for a positive page size, \<open>k\<close> is one of the \<open>total_pages\<close>
  pages exactly when the first item of page \<open>k\<close> exists, and \<open>has_next\<close> is true exactly for the
  pages before the last.
\<close>

lemma pagination_covers:
  assumes "0 < page_size"
  shows "\<exists>d pg pages. with_pagination items tot page page_size = Some d
      \<and> dict_get d ''pagination'' = PDict pg \<and> dict_get pg ''total_pages'' = PInt pages
      \<and> (k \<le> pages \<longleftrightarrow> (k - 1) * page_size < tot)
      \<and> dict_get pg ''has_next'' = PBool (page < pages)"
proof -
  have "page * page_size < tot \<longleftrightarrow> page < (tot + page_size - 1) div page_size"
    using le_pages_iff [OF assms, of "page + 1" tot] by (simp add: add1_zle_eq)
  then show ?thesis
    using assms le_pages_iff [OF assms, of k tot] by (simp add: with_pagination_def dict_get_def)
qed

end
