(* ===== verification/Rpc.thy ===== *)
theory Rpc
  imports Response
begin

text \<open>
  \<open>src/conduit/rpc\<close>: the registry of methods, the dispatcher that runs a request, the argument
  helpers and the client's reading of a reply.  Pydantic, the inspection of a Python function and
  the run of a handler are parameters: what the registry and the dispatcher read of a handler is
  the record \<open>handler_info\<close>, what they call is the record \<open>rpc_env\<close>.
\<close>

section \<open>Handlers\<close>

text \<open>A type hint: a plain type by its name, or a Pydantic model with its fields and their types.\<close>

datatype hint = Plain string | Model string "(string \<times> string) list"

record handler_info =
  hi_name :: string \<comment> \<open>\<open>__name__\<close>\<close>
  hi_doc :: "string option" \<comment> \<open>\<open>inspect.getdoc\<close>\<close>
  hi_hints :: "(string \<times> hint) list option" \<comment> \<open>\<open>get_type_hints\<close>; None: it raised\<close>
  hi_params :: "(string \<times> hint \<times> bool) list" \<comment> \<open>name, annotation, has a default\<close>

text \<open>A bound argument: a value as it came, or a validated model.\<close>

datatype arg = Raw pyval | Validated string "(string, pyval) dict"

datatype exc =
    ValidationErr "(string \<times> string \<times> string) list" \<comment> \<open>field, message and type of each error\<close>
  | TypeErr string
  | OtherErr string
  | CancelledErr

record 'h rpc_env =
  env_info :: "'h \<Rightarrow> handler_info"
  env_model :: "string \<Rightarrow> (string, pyval) dict \<Rightarrow> exc + (string, pyval) dict"
    \<comment> \<open>\<open>Model(**fields)\<close>\<close>
  env_call :: "'h \<Rightarrow> (string \<times> arg) list \<Rightarrow> exc + pyval" \<comment> \<open>\<open>handler(**params)\<close>, awaited\<close>
  env_repr :: "pyval \<Rightarrow> string"

section \<open>Registry\<close>

record 'h RPCMethod =
  rm_name :: string
  rm_handler :: 'h
  rm_description :: string
  rm_parameters :: "(string, string) dict"
  rm_return_type :: string
  rm_requires_auth :: bool
  rm_pydantic_model :: "string option"

definition to_info_dict :: "'h RPCMethod \<Rightarrow> (string, pyval) dict" where
  "to_info_dict m =
     [(''name'', PStr (rm_name m)), (''description'', PStr (rm_description m)),
      (''parameters'', PDict (map (\<lambda>(k, v). (k, PStr v)) (rm_parameters m))),
      (''return_type'', PStr (rm_return_type m)), (''requires_auth'', PBool (rm_requires_auth m))]"

type_synonym 'h RPCRegistry = "(string, 'h RPCMethod) dict"

definition new_registry :: "'h RPCRegistry" where
  "new_registry = []"

definition hint_name :: "hint \<Rightarrow> string" where
  "hint_name h = (case h of Plain n \<Rightarrow> n | Model n fs \<Rightarrow> n)"

text \<open>The loop over the hints: parameter types by name, and the last model seen.\<close>

fun scan_hints ::
  "(string \<times> hint) list \<Rightarrow> (string, string) dict \<times> string option \<Rightarrow> (string, string) dict \<times> string option" where
  "scan_hints [] acc = acc"
| "scan_hints ((p, h) # hs) (ps, m) =
     (if p = ''return'' then scan_hints hs (ps, m)
      else case h of
        Model n fs \<Rightarrow> scan_hints hs (foldl (\<lambda>d (f, t). AList.update f t d) ps fs, Some n)
      | Plain n \<Rightarrow> scan_hints hs (AList.update p n ps, m))"

text \<open>
  \<open>register\<close>: None is the UnboundLocalError when the hints cannot be read - the \<open>except\<close> passes
  over the error, and \<open>return_type\<close>, assigned later in the same \<open>try\<close>, has no value.
\<close>

definition rpc_register ::
  "('h \<Rightarrow> handler_info) \<Rightarrow> 'h \<Rightarrow> string option \<Rightarrow> bool \<Rightarrow> 'h RPCRegistry
     \<Rightarrow> ('h RPCRegistry \<times> 'h RPCMethod) option" where
  "rpc_register info h name requires_auth reg =
     (let i = info h;
          method_name = (case name of Some n \<Rightarrow> if n \<noteq> [] then n else hi_name i | None \<Rightarrow> hi_name i)
      in case hi_hints i of
           None \<Rightarrow> None
         | Some hints \<Rightarrow>
             (let (ps, model) = scan_hints hints ([], None);
                  m = \<lparr>rm_name = method_name, rm_handler = h,
                       rm_description = (case hi_doc i of None \<Rightarrow> [] | Some d \<Rightarrow> d),
                       rm_parameters = ps,
                       rm_return_type = (case map_of hints ''return'' of
                          None \<Rightarrow> ''Any'' | Some r \<Rightarrow> hint_name r),
                       rm_requires_auth = requires_auth, rm_pydantic_model = model\<rparr>
              in Some (AList.update method_name m reg, m)))"

definition rpc_unregister :: "string \<Rightarrow> 'h RPCRegistry \<Rightarrow> 'h RPCRegistry \<times> bool" where
  "rpc_unregister name reg =
     (if dict_has reg name then (AList.delete name reg, True) else (reg, False))"

definition rpc_get :: "'h RPCRegistry \<Rightarrow> string \<Rightarrow> 'h RPCMethod option" where
  "rpc_get reg name = map_of reg name"
definition rpc_exists :: "'h RPCRegistry \<Rightarrow> string \<Rightarrow> bool" where
  "rpc_exists reg name = dict_has reg name"
definition list_methods :: "'h RPCRegistry \<Rightarrow> 'h RPCMethod list" where
  "list_methods reg = map snd reg"
definition list_method_names :: "'h RPCRegistry \<Rightarrow> string list" where
  "list_method_names reg = map fst reg"
definition get_method_info :: "'h RPCRegistry \<Rightarrow> pyval list" where
  "get_method_info reg = map (\<lambda>m. PDict (to_info_dict (snd m))) reg"
definition registry_clear :: "'h RPCRegistry \<Rightarrow> 'h RPCRegistry" where
  "registry_clear reg = []"

section \<open>Dispatcher\<close>

text \<open>The loop that binds the parameters one by one.\<close>

fun bind_params ::
  "'h rpc_env \<Rightarrow> (string, pyval) dict \<Rightarrow> (string \<times> hint \<times> bool) list \<Rightarrow> (string \<times> arg) list
     \<Rightarrow> exc + (string \<times> arg) list" where
  "bind_params env ps [] validated = Inr validated"
| "bind_params env ps ((p, h, has_default) # rest) validated =
     (case h of
        Model n fs \<Rightarrow>
          (case env_model env n (map (\<lambda>(f, t). (f, dict_get ps f)) (filter (\<lambda>(f, t). dict_has ps f) fs)) of
             Inl x \<Rightarrow> Inl x
           | Inr d \<Rightarrow> bind_params env ps rest (AList.update p (Validated n d) validated))
      | Plain n \<Rightarrow>
          if dict_has ps p then bind_params env ps rest (AList.update p (Raw (dict_get ps p)) validated)
          else bind_params env ps rest validated)"

definition validate_params ::
  "'h rpc_env \<Rightarrow> 'h RPCMethod \<Rightarrow> (string, pyval) dict \<Rightarrow> exc + (string \<times> arg) list" where
  "validate_params env m ps =
     (case hi_params (env_info env (rm_handler m)) of
        [(p, Model n fs, has_default)] \<Rightarrow>
          (case env_model env n ps of Inl x \<Rightarrow> Inl x | Inr d \<Rightarrow> Inr [(p, Validated n d)])
      | params \<Rightarrow> bind_params env ps params [])"

definition execute_handler :: "'h rpc_env \<Rightarrow> 'h RPCMethod \<Rightarrow> (string \<times> arg) list \<Rightarrow> exc + pyval" where
  "execute_handler env m args = env_call env (rm_handler m) args"

definition handle_listall :: "'h RPCRegistry \<Rightarrow> (string, pyval) dict" where
  "handle_listall reg =
     (let method_info = get_method_info reg
      in response_call (PDict [(''methods'', PList method_info),
                               (''count'', PInt (int (length method_info)))]) None)"

definition run_method ::
  "'h rpc_env \<Rightarrow> 'h RPCMethod \<Rightarrow> (string, pyval) dict \<Rightarrow> exc + pyval" where
  "run_method env m ps =
     (case validate_params env m ps of Inl x \<Rightarrow> Inl x | Inr args \<Rightarrow> execute_handler env m args)"

definition error_details :: "(string \<times> string \<times> string) list \<Rightarrow> pyval" where
  "error_details es = PList (map (\<lambda>(f, msg, ty).
     PDict [(''field'', PStr f), (''message'', PStr msg), (''type'', PStr ty)]) es)"

text \<open>\<open>dispatch\<close>: None is CancelledError, the only exception that leaves it.\<close>

definition dispatch ::
  "'h rpc_env \<Rightarrow> 'h RPCRegistry \<Rightarrow> string \<Rightarrow> (string, pyval) dict \<Rightarrow> bool
     \<Rightarrow> (string, pyval) dict option" where
  "dispatch env reg meth ps authenticated =
     (if meth = ''listall'' then Some (handle_listall reg)
      else case rpc_get reg meth of
        None \<Rightarrow> Some (error_not_found (env_repr env) ''RPC method'' (PStr meth))
      | Some m \<Rightarrow>
          (if rm_requires_auth m \<and> \<not> authenticated
           then Some (error_permission_denied (''Method '' @ CHR 0x27 # meth @ CHR 0x27 # '' requires authentication''))
           else case run_method env m ps of
             Inr result \<Rightarrow>
               Some (case result of
                  PDict d \<Rightarrow> if dict_has d ''success'' then d else response_call result None
                | _ \<Rightarrow> response_call result None)
           | Inl (ValidationErr es) \<Rightarrow>
               Some (error_call (''Validation error in '' @ meth) (Some 2000)
                       (Some [(''errors'', error_details es)]))
           | Inl (TypeErr msg) \<Rightarrow> Some (error_validation (env_repr env) msg [] [] PNone)
           | Inl CancelledErr \<Rightarrow> None
           | Inl (OtherErr msg) \<Rightarrow> Some (error_internal (''Error in '' @ meth @ '': '' @ msg))))"

text \<open>A batch: the requests one after the other; None when one is cancelled.\<close>

fun dispatch_batch ::
  "'h rpc_env \<Rightarrow> 'h RPCRegistry \<Rightarrow> (string \<times> (string, pyval) dict) list \<Rightarrow> bool
     \<Rightarrow> (string, pyval) dict list option" where
  "dispatch_batch env reg [] a = Some []"
| "dispatch_batch env reg ((meth, ps) # rs) a =
     (case dispatch env reg meth ps a of
        None \<Rightarrow> None
      | Some d \<Rightarrow> (case dispatch_batch env reg rs a of None \<Rightarrow> None | Some ds \<Rightarrow> Some (d # ds)))"

section \<open>Argument helpers\<close>

definition data_helper :: "(string, pyval) dict \<Rightarrow> (string, pyval) dict" where
  "data_helper kwargs = kwargs"

fun dict_update_all :: "('k, 'v) dict \<Rightarrow> ('k \<times> 'v) list \<Rightarrow> ('k, 'v) dict" where
  "dict_update_all d [] = d"
| "dict_update_all d ((k, v) # kvs) = dict_update_all (AList.update k v d) kvs"

fun digits_of :: "nat \<Rightarrow> string" where
  "digits_of n =
     (if n < 10 then [char_of (48 + n)] else digits_of (n div 10) @ [char_of (48 + n mod 10)])"

definition params_helper :: "pyval list \<Rightarrow> (string, pyval) dict \<Rightarrow> (string, pyval) dict" where
  "params_helper args kwargs =
     dict_update_all (map (\<lambda>(i, a). (CHR ''_'' # digits_of i, a)) (enumerate 0 args)) kwargs"

section \<open>The client's side\<close>

text \<open>How a call ends for its caller.\<close>

datatype call_result =
    CallReturns pyval
  | RPCErrorRaised pyval pyval pyval \<comment> \<open>message, code, details\<close>
  | RPCTimeoutRaised string time

definition merge_args :: "(string, pyval) dict option \<Rightarrow> (string, pyval) dict \<Rightarrow> (string, pyval) dict" where
  "merge_args args kwargs =
     dict_update_all (dict_update_all [] (case args of None \<Rightarrow> [] | Some d \<Rightarrow> d)) kwargs"

text \<open>The reading of a reply.\<close>

definition read_reply :: "pyval \<Rightarrow> call_result" where
  "read_reply response =
     (case response of
        PDict d \<Rightarrow>
          (let success = (if dict_has d ''success'' then dict_get d ''success'' else PBool True)
           in if \<not> truthy success then
                RPCErrorRaised (if dict_has d ''error'' then dict_get d ''error'' else PStr ''Unknown error'')
                  (dict_get d ''code'') (dict_get d ''details'')
              else if dict_has d ''data'' then CallReturns (dict_get d ''data'')
              else if dict_has d ''result'' then CallReturns (dict_get d ''result'')
              else CallReturns response)
      | _ \<Rightarrow> CallReturns response)"

text \<open>What waiting for the reply gives: a reply, a timeout, or another exception with its text.\<close>

datatype reply = Reply pyval | ReplyTimeout | ReplyError string

definition rpc_call :: "string \<Rightarrow> time option \<Rightarrow> time \<Rightarrow> reply \<Rightarrow> call_result" where
  "rpc_call meth timeout default_timeout r =
     (case r of
        Reply v \<Rightarrow> read_reply v
      | ReplyTimeout \<Rightarrow>
          RPCTimeoutRaised meth (case timeout of None \<Rightarrow> default_timeout | Some t \<Rightarrow> t)
      | ReplyError msg \<Rightarrow> RPCErrorRaised (PStr (''RPC call failed: '' @ msg)) PNone PNone)"

definition discover :: "call_result \<Rightarrow> call_result" where
  "discover r =
     (case r of
        CallReturns (PDict d) \<Rightarrow>
          if dict_has d ''methods'' then CallReturns (dict_get d ''methods'') else r
      | _ \<Rightarrow> r)"

definition set_default_timeout :: "time \<Rightarrow> time \<Rightarrow> time option" where
  "set_default_timeout v old = (if v \<le> 0 then None else Some v)"

section \<open>Properties\<close>

lemma dispatch_permitted:
  assumes "meth \<noteq> ''listall''" and "rpc_get reg meth = Some m" and "auth \<or> \<not> rm_requires_auth m"
    and "run_method env m ps = Inr v" and "\<forall>d. v = PDict d \<longrightarrow> \<not> dict_has d ''success''"
  shows "dispatch env reg meth ps auth = Some (response_call v None)"
  using assms by (auto simp: dispatch_def split: pyval.split)

text \<open>
  C37. Every request is answered: whatever the method, the parameters and the handler do, the
  dispatcher returns a dict that says whether it succeeded, unless the run of a permitted handler
  is cancelled; and a request for a method that does not exist, or not for this caller, is
  answered with a failure.
\<close>

theorem dispatch_answers:
  "(dispatch env reg meth ps auth = None \<longleftrightarrow>
      meth \<noteq> ''listall'' \<and> (\<exists>m. rpc_get reg meth = Some m \<and> (auth \<or> \<not> rm_requires_auth m)
        \<and> run_method env m ps = Inl CancelledErr))
   \<and> (\<forall>d. dispatch env reg meth ps auth = Some d \<longrightarrow> dict_has d ''success''
        \<and> (meth \<noteq> ''listall'' \<and> \<not> (\<exists>m. rpc_get reg meth = Some m \<and> (auth \<or> \<not> rm_requires_auth m))
             \<longrightarrow> answers False d))"
proof (cases "meth = ''listall''")
  case True
  then show ?thesis
    by (simp add: dispatch_def handle_listall_def Let_def answers_has [OF answers_simps(1)])
next
  case False
  show ?thesis
  proof (cases "rpc_get reg meth")
    case None
    with False show ?thesis by (simp add: dispatch_def answers_has [OF answers_simps(5)])
  next
    case (Some m)
    with False show ?thesis
      by (auto simp: dispatch_def answers_has [OF answers_simps(1)] answers_has [OF answers_simps(3)]
          answers_has [OF answers_simps(4)] answers_has [OF answers_simps(6)]
          answers_has [OF answers_simps(7)] split: sum.splits exc.splits pyval.splits if_splits)
  qed
qed

text \<open>A handler known by a number, for the witnesses: it takes one argument and returns it.\<close>

definition echo_env :: "nat rpc_env" where
  "echo_env = \<lparr>env_info = (\<lambda>_. \<lparr>hi_name = ''echo'', hi_doc = None, hi_hints = Some [(''x'', Plain ''int'')],
       hi_params = [(''x'', Plain ''int'', False)]\<rparr>),
     env_model = (\<lambda>_ _. Inl (TypeErr [])),
     env_call = (\<lambda>_ args. case map_of args ''x'' of Some (Raw v) \<Rightarrow> Inr v | _ \<Rightarrow> Inl (TypeErr ''x'')),
     env_repr = (\<lambda>_. [])\<rparr>"

definition echo_registry :: "nat RPCRegistry" where
  "echo_registry = (case rpc_register (env_info echo_env) 0 None True new_registry of
     Some (reg, m) \<Rightarrow> reg | None \<Rightarrow> [])"

lemma echo_registered:
  "\<exists>m. rpc_get echo_registry ''echo'' = Some m \<and> rm_requires_auth m
     \<and> run_method echo_env m [(''x'', v)] = Inr v"
  by (simp add: echo_registry_def rpc_register_def echo_env_def new_registry_def rpc_get_def Let_def
      run_method_def validate_params_def execute_handler_def dict_has_def dict_get_def)

theorem dispatch_answers_witness:
  "\<exists>d. dispatch echo_env echo_registry ''nope'' [] True = Some d \<and> answers False d"
proof -
  have g: "rpc_get echo_registry ''nope'' = None"
    by (simp add: echo_registry_def rpc_register_def echo_env_def new_registry_def rpc_get_def Let_def)
  then obtain d where "dispatch echo_env echo_registry ''nope'' [] True = Some d"
    using dispatch_answers [of echo_env echo_registry "''nope''" "[]" True] by auto
  with g show ?thesis
    using dispatch_answers [of echo_env echo_registry "''nope''" "[]" True] by auto
qed

text \<open>
  The authentication gate of a method: for a caller who is not authenticated, a protected
  method answers the same whatever its handler and its parameter models would do - they are not
  run - and the answer is a permission error.
\<close>

lemma protected_method_not_run:
  assumes "meth \<noteq> ''listall''" and "rpc_get reg meth = Some m" and "rm_requires_auth m"
  shows "dispatch (env\<lparr>env_call := call', env_model := model'\<rparr>) reg meth ps False
      = dispatch env reg meth ps False
    \<and> (\<exists>d. dispatch env reg meth ps False = Some d \<and> answers False d
        \<and> dict_get d ''code'' = PInt 3003)"
  using assms
  by (simp add: dispatch_def error_permission_denied_def error_call_def answers_def dict_get_def)

end
