(* ===== verification/Auth.thy ===== *)
theory Auth
  imports Prelude
begin

text \<open>
  \<open>src/conduit/transport/auth.py\<close> and \<open>src/conduit/auth/credentials.py\<close>: challenges, sessions and
  user credentials.  The hash functions of the standard library are the record \<open>crypto\<close>; random
  bytes and the tokens made of them are arguments of the operations that draw them.
\<close>

section \<open>Hashes\<close>

record crypto =
  pbkdf2_hex :: "bytes \<Rightarrow> bytes \<Rightarrow> nat \<Rightarrow> string"
    \<comment> \<open>hex of \<open>pbkdf2_hmac('sha256', password, salt, iterations)\<close>\<close>
  sha256_hex :: "bytes \<Rightarrow> string"

definition HASH_ITERATIONS :: nat where "HASH_ITERATIONS = 100000"

definition ascii :: "string \<Rightarrow> bool" where
  "ascii s = (\<forall>c \<in> set s. (of_char c :: nat) < 128)"

text \<open>\<open>secrets.compare_digest\<close> on two strings: None is the TypeError for a non-ASCII one.\<close>

definition compare_digest :: "string \<Rightarrow> string \<Rightarrow> bool option" where
  "compare_digest a b = (if ascii a \<and> ascii b then Some (a = b) else None)"

text \<open>Hex digests are ASCII.\<close>

definition hex_law :: "crypto \<Rightarrow> bool" where
  "hex_law cr = (\<forall>b s n. ascii (sha256_hex cr b) \<and> ascii (pbkdf2_hex cr b s n))"

definition hash_password :: "crypto \<Rightarrow> string \<Rightarrow> bytes option \<Rightarrow> bytes \<Rightarrow> string \<times> bytes" where
  "hash_password cr password salt fresh =
     (let s = (case salt of None \<Rightarrow> fresh | Some s \<Rightarrow> s)
      in (pbkdf2_hex cr (utf8_encode password) s HASH_ITERATIONS, s))"

definition verify_password :: "crypto \<Rightarrow> string \<Rightarrow> string \<Rightarrow> bytes \<Rightarrow> bool option" where
  "verify_password cr password expected_hash salt =
     compare_digest (fst (hash_password cr password (Some salt) [])) expected_hash"

definition compute_auth_response :: "crypto \<Rightarrow> string \<Rightarrow> bytes \<Rightarrow> string" where
  "compute_auth_response cr password challenge = sha256_hex cr (utf8_encode password @ challenge)"

definition verify_auth_response :: "crypto \<Rightarrow> string \<Rightarrow> bytes \<Rightarrow> string \<Rightarrow> bool option" where
  "verify_auth_response cr password challenge response =
     compare_digest (compute_auth_response cr password challenge) response"

section \<open>Sessions\<close>

record Session =
  se_token :: string
  se_client_id :: string
  se_created_at :: time
  se_last_activity :: time
  se_client_info :: "(string, pyval) dict"

definition new_session :: "string \<Rightarrow> string \<Rightarrow> (string, pyval) dict \<Rightarrow> time \<Rightarrow> Session" where
  "new_session token client_id client_info now =
     \<lparr>se_token = token, se_client_id = client_id, se_created_at = now, se_last_activity = now,
      se_client_info = client_info\<rparr>"

definition update_activity :: "time \<Rightarrow> Session \<Rightarrow> Session" where
  "update_activity now s = s\<lparr>se_last_activity := now\<rparr>"
definition is_expired :: "time \<Rightarrow> time \<Rightarrow> Session \<Rightarrow> bool" where
  "is_expired timeout now s = (now - se_last_activity s > timeout)"
definition age_seconds :: "time \<Rightarrow> Session \<Rightarrow> time" where
  "age_seconds now s = now - se_created_at s"

section \<open>AuthHandler\<close>

record AuthHandler =
  ah_password :: string
  ah_password_hash :: string
  ah_password_salt :: bytes
  ah_session_timeout :: time
  ah_sessions :: "(string, Session) dict"
  ah_pending_challenges :: "(string, bytes) dict"

definition new_auth_handler :: "crypto \<Rightarrow> string \<Rightarrow> time \<Rightarrow> bytes \<Rightarrow> AuthHandler" where
  "new_auth_handler cr password session_timeout salt =
     \<lparr>ah_password = password, ah_password_hash = fst (hash_password cr password None salt),
      ah_password_salt = salt, ah_session_timeout = session_timeout,
      ah_sessions = [], ah_pending_challenges = []\<rparr>"

definition create_challenge :: "string \<Rightarrow> bytes \<Rightarrow> AuthHandler \<Rightarrow> AuthHandler \<times> bytes" where
  "create_challenge client_id challenge a =
     (a\<lparr>ah_pending_challenges := AList.update client_id challenge (ah_pending_challenges a)\<rparr>,
      challenge)"

definition create_session ::
  "string \<Rightarrow> (string, pyval) dict \<Rightarrow> string \<Rightarrow> time \<Rightarrow> AuthHandler \<Rightarrow> AuthHandler \<times> Session" where
  "create_session client_id client_info token now a =
     (let s = new_session token client_id client_info now
      in (a\<lparr>ah_sessions := AList.update token s (ah_sessions a)\<rparr>, s))"

text \<open>The outer None is the TypeError of \<open>compare_digest\<close>; the challenge is used up before it.\<close>

definition verify_response ::
  "crypto \<Rightarrow> string \<Rightarrow> string \<Rightarrow> (string, pyval) dict \<Rightarrow> string \<Rightarrow> time \<Rightarrow> AuthHandler
     \<Rightarrow> AuthHandler \<times> Session option option" where
  "verify_response cr client_id response client_info token now a =
     (case map_of (ah_pending_challenges a) client_id of
        None \<Rightarrow> (a, Some None)
      | Some challenge \<Rightarrow>
          (let a1 = a\<lparr>ah_pending_challenges := AList.delete client_id (ah_pending_challenges a)\<rparr>
           in case verify_auth_response cr (ah_password a) challenge response of
                None \<Rightarrow> (a1, None)
              | Some False \<Rightarrow> (a1, Some None)
              | Some True \<Rightarrow>
                  (case create_session client_id client_info token now a1 of
                     (a2, s) \<Rightarrow> (a2, Some (Some s)))))"

definition verify_simple :: "crypto \<Rightarrow> string \<Rightarrow> AuthHandler \<Rightarrow> bool option" where
  "verify_simple cr password_hash a =
     compare_digest password_hash (sha256_hex cr (utf8_encode (ah_password a)))"

definition get_session :: "string \<Rightarrow> time \<Rightarrow> AuthHandler \<Rightarrow> AuthHandler \<times> Session option" where
  "get_session token now a =
     (case map_of (ah_sessions a) token of
        None \<Rightarrow> (a, None)
      | Some s \<Rightarrow>
          if is_expired (ah_session_timeout a) now s
          then (a\<lparr>ah_sessions := AList.delete token (ah_sessions a)\<rparr>, None)
          else (let s' = update_activity now s
                in (a\<lparr>ah_sessions := AList.update token s' (ah_sessions a)\<rparr>, Some s')))"

definition invalidate_session :: "string \<Rightarrow> AuthHandler \<Rightarrow> AuthHandler \<times> bool" where
  "invalidate_session token a =
     (if dict_has (ah_sessions a) token
      then (a\<lparr>ah_sessions := AList.delete token (ah_sessions a)\<rparr>, True) else (a, False))"

definition cleanup_expired_sessions :: "time \<Rightarrow> AuthHandler \<Rightarrow> AuthHandler \<times> nat" where
  "cleanup_expired_sessions now a =
     (let expired = map fst (filter (\<lambda>(t, s). is_expired (ah_session_timeout a) now s) (ah_sessions a))
      in (a\<lparr>ah_sessions := foldl (\<lambda>d t. AList.delete t d) (ah_sessions a) expired\<rparr>, length expired))"

definition active_session_count :: "AuthHandler \<Rightarrow> nat" where
  "active_session_count a = length (ah_sessions a)"

section \<open>Credentials\<close>

record UserProfile =
  up_username :: string
  up_roles :: "string list"
  up_permissions :: "string list"

definition has_role :: "UserProfile \<Rightarrow> string \<Rightarrow> bool" where
  "has_role p r = (r \<in> set (up_roles p))"
definition has_permission :: "UserProfile \<Rightarrow> string \<Rightarrow> bool" where
  "has_permission p r = (r \<in> set (up_permissions p))"

record CredentialsManager =
  cm_users :: "(string, string) dict"
  cm_profiles :: "(string, UserProfile) dict"

definition new_credentials :: CredentialsManager where
  "new_credentials = \<lparr>cm_users = [], cm_profiles = []\<rparr>"

text \<open>An empty list of roles, like None, gives the role "user".\<close>

definition add_user ::
  "crypto \<Rightarrow> string \<Rightarrow> string \<Rightarrow> string list \<Rightarrow> string list \<Rightarrow> CredentialsManager \<Rightarrow> CredentialsManager" where
  "add_user cr username password roles permissions c =
     \<lparr>cm_users = AList.update username (sha256_hex cr (utf8_encode password)) (cm_users c),
      cm_profiles = AList.update username
        \<lparr>up_username = username, up_roles = (if roles = [] then [''user''] else roles),
         up_permissions = permissions\<rparr> (cm_profiles c)\<rparr>"

definition credentials_verify :: "string \<Rightarrow> string \<Rightarrow> CredentialsManager \<Rightarrow> bool" where
  "credentials_verify username password_hash c = (map_of (cm_users c) username = Some password_hash)"

definition get_profile :: "string \<Rightarrow> CredentialsManager \<Rightarrow> UserProfile option" where
  "get_profile username c = map_of (cm_profiles c) username"

section \<open>A run of calls\<close>

datatype auth_call =
    CreateChallenge string bytes
  | VerifyResponse string string "(string, pyval) dict" string time
  | CreateSession string "(string, pyval) dict" string time
  | GetSession string time
  | InvalidateSession string
  | Cleanup time

text \<open>The clients whose response was accepted, newest last.\<close>

fun do_auth_call :: "crypto \<Rightarrow> AuthHandler \<times> string list \<Rightarrow> auth_call \<Rightarrow> AuthHandler \<times> string list" where
  "do_auth_call cr (a, ok) (CreateChallenge c ch) = (fst (create_challenge c ch a), ok)"
| "do_auth_call cr (a, ok) (VerifyResponse c r info tok now) =
     (case verify_response cr c r info tok now a of
        (a', Some (Some s)) \<Rightarrow> (a', ok @ [c]) | (a', _) \<Rightarrow> (a', ok))"
| "do_auth_call cr (a, ok) (CreateSession c info tok now) = (fst (create_session c info tok now a), ok)"
| "do_auth_call cr (a, ok) (GetSession tok now) = (fst (get_session tok now a), ok)"
| "do_auth_call cr (a, ok) (InvalidateSession tok) = (fst (invalidate_session tok a), ok)"
| "do_auth_call cr (a, ok) (Cleanup now) = (fst (cleanup_expired_sessions now a), ok)"

lemmas auth_ops =
  create_challenge_def verify_response_def create_session_def get_session_def
  invalidate_session_def cleanup_expired_sessions_def Let_def

lemma delete_all_conv:
  "map_of (foldl (\<lambda>d t. AList.delete t d) d ts) k = (if k \<in> set ts then None else map_of d k)"
  by (induction ts arbitrary: d) (auto simp: delete_conv')

text \<open>The challenges a client has left, and every acceptance, come out of the challenges made.\<close>

definition challenge_budget :: "string \<Rightarrow> AuthHandler \<times> string list \<Rightarrow> nat" where
  "challenge_budget c st =
     count_list (snd st) c + (if map_of (ah_pending_challenges (fst st)) c = None then 0 else 1)"

definition is_challenge :: "string \<Rightarrow> auth_call \<Rightarrow> bool" where
  "is_challenge c e = (case e of CreateChallenge c' ch \<Rightarrow> c' = c | _ \<Rightarrow> False)"

lemma challenge_budget_step:
  "challenge_budget c (do_auth_call cr st e) \<le> challenge_budget c st + (if is_challenge c e then 1 else 0)"
proof (cases st)
  case (Pair a ok)
  show ?thesis
  proof (cases e)
    case (VerifyResponse c' r info tok now)
    show ?thesis
    proof (cases "map_of (ah_pending_challenges a) c'")
      case None
      then show ?thesis by (simp add: Pair VerifyResponse verify_response_def)
    next
      case (Some ch)
      then show ?thesis
        by (cases "verify_auth_response cr (ah_password a) ch r")
          (auto simp: Pair VerifyResponse challenge_budget_def auth_ops delete_conv' is_challenge_def
            split: bool.splits)
    qed
  qed (auto simp: Pair challenge_budget_def auth_ops update_conv' is_challenge_def split: option.splits)
qed

section \<open>The life of a session token\<close>

text \<open>
  One token seen from outside: when it was last active, None when it opens nothing.  An expired
  token stays until a lookup or a cleanup finds it.
\<close>

fun token_view :: "time \<Rightarrow> string \<Rightarrow> time option \<Rightarrow> auth_call \<Rightarrow> time option" where
  "token_view timeout t v (CreateSession c info t' now) = (if t' = t then Some now else v)"
| "token_view timeout t v (GetSession t' now) =
     (if t' = t then (case v of None \<Rightarrow> None | Some l \<Rightarrow> if now - l > timeout then None else Some now)
      else v)"
| "token_view timeout t v (InvalidateSession t') = (if t' = t then None else v)"
| "token_view timeout t v (Cleanup now) =
     (case v of None \<Rightarrow> None | Some l \<Rightarrow> if now - l > timeout then None else v)"
| "token_view timeout t v _ = v"

definition session_seen :: "AuthHandler \<Rightarrow> string \<Rightarrow> time option" where
  "session_seen a t = map_option se_last_activity (map_of (ah_sessions a) t)"

definition no_verify_of :: "string \<Rightarrow> auth_call \<Rightarrow> bool" where
  "no_verify_of t e = (case e of VerifyResponse c r info t' now \<Rightarrow> t' \<noteq> t | _ \<Rightarrow> True)"

lemma expired_tokens:
  "distinct (map fst d) \<Longrightarrow>
     t \<in> set (map fst (filter (\<lambda>(t, s). P s) d)) \<longleftrightarrow> (\<exists>s. map_of d t = Some s \<and> P s)"
  by (force simp: map_of_eq_Some_iff)

definition auth_ok :: "AuthHandler \<times> string list \<Rightarrow> bool" where
  "auth_ok st = distinct (map fst (ah_sessions (fst st)))"

lemma distinct_delete_all:
  "distinct (map fst d) \<Longrightarrow> distinct (map fst (foldl (\<lambda>d t. AList.delete t d) d ts))"
  by (induction ts arbitrary: d) (auto simp: distinct_delete)

interpretation auth: op_machine "do_auth_call cr" auth_ok for cr
proof
  fix st e
  assume "auth_ok st"
  then show "auth_ok (do_auth_call cr st e)"
    by (cases st; cases e)
      (auto simp: auth_ok_def auth_ops distinct_update distinct_delete distinct_delete_all
        split: option.splits bool.splits)
qed

lemma timeout_step: "ah_session_timeout (fst (do_auth_call cr st e)) = ah_session_timeout (fst st)"
  by (cases st; cases e) (auto simp: auth_ops split: option.splits bool.splits)

lemma session_seen_step:
  assumes "auth_ok st" and "no_verify_of t e"
  shows "session_seen (fst (do_auth_call cr st e)) t =
    token_view (ah_session_timeout (fst st)) t (session_seen (fst st) t) e"
proof (cases st)
  case (Pair a ok)
  show ?thesis
  proof (cases e)
    case (Cleanup now)
    have d: "distinct (map fst (ah_sessions a))" using assms(1) by (simp add: auth_ok_def Pair)
    have "t \<in> set (map fst (filter (\<lambda>(t, s). is_expired (ah_session_timeout a) now s) (ah_sessions a)))
        \<longleftrightarrow> (\<exists>s. map_of (ah_sessions a) t = Some s \<and> is_expired (ah_session_timeout a) now s)"
      by (rule expired_tokens [OF d])
    then show ?thesis
      by (auto simp: Pair Cleanup session_seen_def cleanup_expired_sessions_def Let_def
          delete_all_conv is_expired_def split: option.splits)
  qed (use assms(2) in \<open>auto simp: Pair session_seen_def auth_ops update_conv' delete_conv'
      is_expired_def update_activity_def new_session_def no_verify_of_def dict_has_def
      split: option.splits bool.splits\<close>)
qed

lemma session_seen_run:
  assumes "auth_ok st" and "\<forall>e \<in> set es. no_verify_of t e"
  shows "session_seen (fst (foldl (do_auth_call cr) st es)) t =
    foldl (token_view (ah_session_timeout (fst st)) t) (session_seen (fst st) t) es"
  using assms
proof (induction es arbitrary: st)
  case Nil
  then show ?case by simp
next
  case (Cons e es)
  from Cons.IH [OF auth.step_inv [OF Cons.prems(1), of cr e]] Cons.prems
    session_seen_step [OF Cons.prems(1), of t e cr] timeout_step [of cr st e]
  show ?case by simp
qed

text \<open>Hash functions for the witnesses.\<close>

definition sample_crypto :: crypto where
  "sample_crypto = \<lparr>pbkdf2_hex = \<lambda>p s n. [], sha256_hex = \<lambda>b. ''ab''\<rparr>"

section \<open>Properties\<close>

text \<open>
  C22. A challenge is good for one answer: over any calls, the accepted responses of a client are
  at most the challenges made for it, so a response that was accepted is not accepted again without
  a new challenge.
\<close>

theorem challenges_used_once:
  "count_list (snd (foldl (do_auth_call cr) (new_auth_handler cr password timeout salt, []) calls)) client
    \<le> length (filter (is_challenge client) calls)"
proof -
  let ?start = "(new_auth_handler cr password timeout salt, [])"
  have "challenge_budget client (foldl (do_auth_call cr) ?start calls)
      \<le> length (filter (is_challenge client) calls)"
  proof (induction calls rule: rev_induct)
    case Nil
    then show ?case by (simp add: challenge_budget_def new_auth_handler_def)
  next
    case (snoc e es)
    from snoc challenge_budget_step [of client cr "foldl (do_auth_call cr) ?start es" e]
    show ?case by (simp split: if_splits)
  qed
  then show ?thesis by (simp add: challenge_budget_def)
qed

text \<open>
  The right answer and no other: the response to a pending challenge is accepted exactly when
  it is the SHA-256 of the password and that challenge; a wrong one, or one that is not ASCII, uses
  the challenge up all the same.
\<close>

lemma response_accepted_iff:
  assumes "hex_law cr" and "map_of (ah_pending_challenges a) client = Some challenge"
    and "verify_response cr client response info token now a = (a', res)"
  shows "(res = None \<longleftrightarrow> \<not> ascii response)
    \<and> ((\<exists>s. res = Some (Some s)) \<longleftrightarrow> response = sha256_hex cr (utf8_encode (ah_password a) @ challenge))
    \<and> map_of (ah_pending_challenges a') client = None"
proof -
  have "ascii (sha256_hex cr b)" for b using assms(1) by (simp add: hex_law_def)
  then show ?thesis
    using assms(2,3)
    by (auto simp: verify_response_def Let_def verify_auth_response_def compute_auth_response_def
        compare_digest_def create_session_def delete_conv' split: if_splits bool.splits)
qed

text \<open>
  C23. Session life: after any calls, a token that no challenge response was given opens a session
  exactly when it was created, has not been invalidated since, and no gap between its uses - the
  lookup itself included - was longer than the timeout.
\<close>

theorem session_life:
  assumes "\<forall>e \<in> set calls. no_verify_of token e"
  shows "let a = fst (foldl (do_auth_call cr) (new_auth_handler cr password timeout salt, []) calls)
    in (snd (get_session token now a) \<noteq> None) =
         (case foldl (token_view timeout token) None calls of
            None \<Rightarrow> False | Some l \<Rightarrow> now - l \<le> timeout)"
proof -
  let ?start = "(new_auth_handler cr password timeout salt, [])"
  have ok: "auth_ok ?start" by (simp add: auth_ok_def new_auth_handler_def)
  let ?a = "fst (foldl (do_auth_call cr) ?start calls)"
  have "ah_session_timeout (fst (foldl (do_auth_call cr) st es)) = ah_session_timeout (fst st)" for st es
    by (induction es arbitrary: st) (auto simp: timeout_step)
  then have "ah_session_timeout ?a = timeout" by (simp add: new_auth_handler_def)
  moreover have "foldl (token_view timeout token) None calls = session_seen ?a token"
    using session_seen_run [OF ok assms, of cr] by (simp add: new_auth_handler_def session_seen_def)
  ultimately show ?thesis
    by (auto simp: Let_def get_session_def session_seen_def is_expired_def split: option.splits)
qed

theorem session_life_witness:
  "let a = fst (foldl (do_auth_call sample_crypto) (new_auth_handler sample_crypto ''p'' 10 [], [])
        [CreateSession ''c'' [] ''t'' 0, GetSession ''t'' 8])
   in snd (get_session ''t'' 17 a) \<noteq> None \<and> snd (get_session ''t'' 19 a) = None"
  using session_life [of "[CreateSession ''c'' [] ''t'' 0, GetSession ''t'' 8]" "''t''" sample_crypto "''p''" 10 "[]" 17]
    session_life [of "[CreateSession ''c'' [] ''t'' 0, GetSession ''t'' 8]" "''t''" sample_crypto "''p''" 10 "[]" 19]
  by (simp add: no_verify_of_def Let_def)

end
