(* ===== verification/Connections.thy ===== *)
theory Connections
  imports Encoder Decoder
begin

text \<open>
  \<open>src/conduit/connection/connection.py\<close> and \<open>src/conduit/connection/pool.py\<close>: a connection with its
  pending RPC futures, and the server's pool.  The QUIC transport is a parameter (\<open>deliver\<close>: whether
  its \<open>send_message\<close> returns or raises on the given bytes); what was handed to it is returned.  The
  encoder of a connection is an object that several connections may share (the server gives all of
  them its own), so it is a state of its own, passed to every send and returned by it.
\<close>

section \<open>Connection\<close>

record ConnectionStats =
  cs_connected_at :: time
  cs_messages_sent :: nat
  cs_messages_received :: nat
  cs_bytes_sent :: nat
  cs_bytes_received :: nat
  cs_errors :: nat

datatype future = Waiting | Resolved pyval

text \<open>A disconnect callback: one set by the user, or the pool's wrapper around the one before.\<close>

datatype disc_handler = UserHandler string | PoolHandler "disc_handler option"

record 's Connection =
  cn_client_id :: string
  cn_id :: string
  cn_authenticated :: bool
  cn_session :: "'s option"
  cn_stats :: ConnectionStats
  cn_pending_rpcs :: "(int, future) dict"
  cn_on_disconnect :: "disc_handler option"

definition new_connection :: "string \<Rightarrow> string \<Rightarrow> time \<Rightarrow> 's Connection" where
  "new_connection client_id uid now =
     \<lparr>cn_client_id = client_id, cn_id = (if client_id \<noteq> [] then client_id else uid),
      cn_authenticated = False, cn_session = None,
      cn_stats = \<lparr>cs_connected_at = now, cs_messages_sent = 0, cs_messages_received = 0,
                  cs_bytes_sent = 0, cs_bytes_received = 0, cs_errors = 0\<rparr>,
      cn_pending_rpcs = [], cn_on_disconnect = None\<rparr>"

definition is_authenticated :: "'s Connection \<Rightarrow> bool" where
  "is_authenticated c = (cn_session c \<noteq> None \<or> cn_authenticated c)"

definition remote_address :: "'s Connection \<Rightarrow> string" where
  "remote_address c = (if cn_client_id c \<noteq> [] then cn_client_id c else ''QUIC-Client'')"

definition set_session :: "'s \<Rightarrow> 's Connection \<Rightarrow> 's Connection" where
  "set_session s c = c\<lparr>cn_session := Some s, cn_authenticated := True\<rparr>"

definition mark_authenticated :: "'s Connection \<Rightarrow> 's Connection" where
  "mark_authenticated c = c\<lparr>cn_authenticated := True\<rparr>"

definition set_disconnect_handler :: "disc_handler \<Rightarrow> 's Connection \<Rightarrow> 's Connection" where
  "set_disconnect_handler h c = c\<lparr>cn_on_disconnect := Some h\<rparr>"

datatype send_error = EncodeFailed encode_error | TransportFailed

definition count_sent :: "bytes \<Rightarrow> 's Connection \<Rightarrow> 's Connection" where
  "count_sent bs c = c\<lparr>cn_stats := (cn_stats c)
     \<lparr>cs_bytes_sent := cs_bytes_sent (cn_stats c) + length bs,
      cs_messages_sent := cs_messages_sent (cn_stats c) + 1\<rparr>\<rparr>"

text \<open>
  The two last lines of every send: the counters, then the transport.  The frame handed over is
  paired with the client it is for (empty on the client's side).
\<close>

type_synonym frames = "(string \<times> bytes) list"

definition transmit ::
  "(bytes \<Rightarrow> bool) \<Rightarrow> bytes \<Rightarrow> 's Connection \<Rightarrow> 's Connection \<times> (send_error + unit) \<times> frames" where
  "transmit deliver bs c =
     (count_sent bs c, if deliver bs then Inr () else Inl TransportFailed,
      [(cn_client_id c, bs)])"

definition send_encoded ::
  "(bytes \<Rightarrow> bool) \<Rightarrow> (encode_error + bytes) \<times> ProtocolEncoder \<Rightarrow> 's Connection
     \<Rightarrow> ProtocolEncoder \<times> 's Connection \<times> (send_error + unit) \<times> frames" where
  "send_encoded deliver r c =
     (case r of
        (Inl x, e) \<Rightarrow> (e, c, Inl (EncodeFailed x), [])
      | (Inr bs, e) \<Rightarrow> (e, transmit deliver bs c))"

definition send_message where
  "send_message cd deliver message_type v now e c =
     send_encoded deliver (encode_message cd e message_type v None now) c"

definition send_rpc_response where
  "send_rpc_response cd deliver result corr now e c =
     send_encoded deliver (encode_rpc_response cd e result corr True now) c"

definition send_rpc_error where
  "send_rpc_error cd deliver msg corr code now e c =
     send_encoded deliver (encode_rpc_error cd e msg corr code now) c"

definition send_raw where
  "send_raw deliver bs c = transmit deliver bs c"

text \<open>The future is pending before the frame is handed over, and stays so when that raises.\<close>

definition send_rpc_request ::
  "codec \<Rightarrow> (bytes \<Rightarrow> bool) \<Rightarrow> string \<Rightarrow> pyval \<Rightarrow> time \<Rightarrow> ProtocolEncoder \<Rightarrow> 's Connection
     \<Rightarrow> ProtocolEncoder \<times> 's Connection \<times> (send_error + int) \<times> frames" where
  "send_rpc_request cd deliver meth ps now e c =
     (case encode_rpc_request cd e meth ps None now of
        (Inl x, e') \<Rightarrow> (e', c, Inl (EncodeFailed x), [])
      | (Inr (bs, corr), e') \<Rightarrow>
          (let c1 = count_sent bs c;
               c2 = c1\<lparr>cn_pending_rpcs := AList.update corr Waiting (cn_pending_rpcs c1)\<rparr>
           in (e', c2, if deliver bs then Inr corr else Inl TransportFailed,
               [(cn_client_id c, bs)])))"

text \<open>
  \<open>wait_for_rpc_response\<close> in two steps.  Its start raises ValueError for an unknown id; its end
  (the result, a timeout or a cancellation) always removes the future.
\<close>

definition wait_start :: "int \<Rightarrow> 's Connection \<Rightarrow> future option" where
  "wait_start corr c = map_of (cn_pending_rpcs c) corr"

definition wait_end :: "int \<Rightarrow> 's Connection \<Rightarrow> 's Connection" where
  "wait_end corr c = c\<lparr>cn_pending_rpcs := AList.delete corr (cn_pending_rpcs c)\<rparr>"

definition handle_decoded_message :: "DecodedMessage \<Rightarrow> 's Connection \<Rightarrow> 's Connection \<times> bool" where
  "handle_decoded_message m c =
     (let c1 = c\<lparr>cn_stats := (cn_stats c)
                \<lparr>cs_messages_received := cs_messages_received (cn_stats c) + 1,
                 cs_bytes_received := cs_bytes_received (cn_stats c) + length (dm_raw_payload m)\<rparr>\<rparr>
      in if dm_message_type m \<in> {RPC_RESPONSE, RPC_ERROR}
            \<and> map_of (cn_pending_rpcs c) (dm_correlation_id m) = Some Waiting
         then (c1\<lparr>cn_pending_rpcs :=
                   AList.update (dm_correlation_id m) (Resolved (dm_payload m)) (cn_pending_rpcs c1)\<rparr>,
               True)
         else (c1, False))"

section \<open>The pool\<close>

record 's ConnectionPool =
  pl_max_connections :: int
  pl_connections :: "(string, 's Connection) dict"
  pl_locked :: bool \<comment> \<open>the \<open>asyncio.Lock\<close> is held\<close>
  pl_on_connect :: bool
  pl_on_disconnect :: bool

definition new_pool :: "int \<Rightarrow> 's ConnectionPool" where
  "new_pool max_connections = \<lparr>pl_max_connections = max_connections, pl_connections = [],
     pl_locked = False, pl_on_connect = False, pl_on_disconnect = False\<rparr>"

definition pool_set_callbacks :: "bool \<Rightarrow> bool \<Rightarrow> 's ConnectionPool \<Rightarrow> 's ConnectionPool" where
  "pool_set_callbacks on_connect on_disconnect p =
     p\<lparr>pl_on_connect := on_connect, pl_on_disconnect := on_disconnect\<rparr>"

text \<open>
  \<open>add\<close>.  The connect callback is awaited with the lock held: \<open>cb\<close> is what it does to the pool
  and whether it raised, None when it never ends.  Outer None: \<open>add\<close> never returns; inner None: it
  raised.
\<close>

definition pool_add ::
  "('s Connection \<Rightarrow> 's ConnectionPool \<Rightarrow> ('s ConnectionPool \<times> bool) option)
     \<Rightarrow> 's Connection \<Rightarrow> 's ConnectionPool \<Rightarrow> ('s ConnectionPool \<times> bool option) option" where
  "pool_add cb c p =
     (if pl_locked p then None
      else if int (length (pl_connections p)) \<ge> pl_max_connections p then Some (p, Some False)
      else
        (let c' = set_disconnect_handler (PoolHandler (cn_on_disconnect c)) c;
             p1 = p\<lparr>pl_connections := AList.update (cn_id c) c' (pl_connections p)\<rparr>
         in if pl_on_connect p then
              (case cb c' (p1\<lparr>pl_locked := True\<rparr>) of
                 None \<Rightarrow> None
               | Some (p2, raised) \<Rightarrow>
                   Some (p2\<lparr>pl_locked := False\<rparr>, if raised then None else Some True))
            else Some (p1, Some True)))"

text \<open>None: waits for the lock while its holder waits for this call.\<close>

definition pool_remove :: "string \<Rightarrow> 's ConnectionPool \<Rightarrow> ('s ConnectionPool \<times> bool) option" where
  "pool_remove k p =
     (if pl_locked p then None
      else if dict_has (pl_connections p) k
      then Some (p\<lparr>pl_connections := AList.delete k (pl_connections p)\<rparr>, True) else Some (p, False))"

datatype disc_event = UserCalled string string | PoolCallback string

text \<open>A disconnect callback run on the connection with the given id.\<close>

fun run_disc_handler ::
  "disc_handler \<Rightarrow> string \<Rightarrow> 's ConnectionPool \<Rightarrow> ('s ConnectionPool \<times> disc_event list) option" where
  "run_disc_handler (UserHandler u) k p = Some (p, [UserCalled u k])"
| "run_disc_handler (PoolHandler orig) k p =
     (case pool_remove k p of
        None \<Rightarrow> None
      | Some (p1, b) \<Rightarrow>
          (case (case orig of None \<Rightarrow> Some (p1, []) | Some h \<Rightarrow> run_disc_handler h k p1) of
             None \<Rightarrow> None
           | Some (p2, ev) \<Rightarrow>
               Some (p2, ev @ (if pl_on_disconnect p2 then [PoolCallback k] else []))))"

text \<open>\<open>Connection.stop\<close>: the callback is taken out before it runs.\<close>

definition connection_stop ::
  "'s Connection \<Rightarrow> 's ConnectionPool \<Rightarrow> ('s Connection \<times> 's ConnectionPool \<times> disc_event list) option" where
  "connection_stop c p =
     (case cn_on_disconnect c of
        None \<Rightarrow> Some (c, p, [])
      | Some h \<Rightarrow>
          (case run_disc_handler h (cn_id c) p of
             None \<Rightarrow> None
           | Some (p', ev) \<Rightarrow> Some (c\<lparr>cn_on_disconnect := None\<rparr>, p', ev)))"

definition pool_get :: "string \<Rightarrow> 's ConnectionPool \<Rightarrow> 's Connection option" where
  "pool_get k p = map_of (pl_connections p) k"
definition pool_get_all :: "'s ConnectionPool \<Rightarrow> 's Connection list" where
  "pool_get_all p = map snd (pl_connections p)"
definition pool_get_authenticated :: "'s ConnectionPool \<Rightarrow> 's Connection list" where
  "pool_get_authenticated p = filter is_authenticated (map snd (pl_connections p))"
definition pool_count :: "'s ConnectionPool \<Rightarrow> nat" where
  "pool_count p = length (pl_connections p)"
definition pool_is_full :: "'s ConnectionPool \<Rightarrow> bool" where
  "pool_is_full p = (int (length (pl_connections p)) \<ge> pl_max_connections p)"
definition available_slots :: "'s ConnectionPool \<Rightarrow> int" where
  "available_slots p = pl_max_connections p - int (length (pl_connections p))"

text \<open>
  \<open>broadcast\<close>: one send per authenticated connection that is not excluded, in the order of the
  dict; a send that raises counts as not sent.
\<close>

definition broadcast_targets :: "string set \<Rightarrow> 's ConnectionPool \<Rightarrow> (string \<times> 's Connection) list" where
  "broadcast_targets exclude p =
     filter (\<lambda>(k, c). k \<notin> exclude \<and> is_authenticated c) (pl_connections p)"

fun broadcast_loop ::
  "codec \<Rightarrow> (string \<Rightarrow> bytes \<Rightarrow> bool) \<Rightarrow> string \<Rightarrow> pyval \<Rightarrow> time \<Rightarrow> (string \<times> 's Connection) list
     \<Rightarrow> ProtocolEncoder \<Rightarrow> 's ConnectionPool \<Rightarrow> ProtocolEncoder \<times> 's ConnectionPool \<times> nat \<times> frames" where
  "broadcast_loop cd deliver t v now [] e p = (e, p, 0, [])"
| "broadcast_loop cd deliver t v now ((k, c) # cs) e p =
     (case send_message cd (deliver (cn_client_id c)) t v now e c of
        (e1, c', r, fs) \<Rightarrow>
          (case broadcast_loop cd deliver t v now cs e1
                  (p\<lparr>pl_connections := AList.update k c' (pl_connections p)\<rparr>) of
             (e2, p', n, gs) \<Rightarrow> (e2, p', (case r of Inr u \<Rightarrow> 1 | Inl x \<Rightarrow> 0) + n, fs @ gs)))"

definition pool_broadcast where
  "pool_broadcast cd deliver t v exclude now e p =
     broadcast_loop cd deliver t v now (broadcast_targets exclude p) e p"

fun stop_all ::
  "'s Connection list \<Rightarrow> 's ConnectionPool \<Rightarrow> ('s ConnectionPool \<times> disc_event list) option" where
  "stop_all [] p = Some (p, [])"
| "stop_all (c # cs) p =
     (case connection_stop c p of
        None \<Rightarrow> None
      | Some (c', p1, ev) \<Rightarrow>
          (case stop_all cs p1 of None \<Rightarrow> None | Some (p2, evs) \<Rightarrow> Some (p2, ev @ evs)))"

definition close_all :: "'s ConnectionPool \<Rightarrow> ('s ConnectionPool \<times> disc_event list) option" where
  "close_all p =
     (if pl_locked p then None
      else stop_all (map snd (pl_connections p)) (p\<lparr>pl_connections := []\<rparr>))"

section \<open>Correlation of replies\<close>

text \<open>
  What happens to a connection and its encoder: RPC requests (with whether the transport takes the
  frame), ids taken from the shared encoder by other connections, received messages, and the ends
  of waits.
\<close>

datatype link_call =
    SendRpc string pyval time bool
  | OtherUse nat
  | Received DecodedMessage
  | WaitEnd int

fun do_link_call ::
  "codec \<Rightarrow> ProtocolEncoder \<times> 's Connection \<Rightarrow> link_call \<Rightarrow> ProtocolEncoder \<times> 's Connection" where
  "do_link_call cd (e, c) (SendRpc meth ps now d) =
     (case send_rpc_request cd (\<lambda>_. d) meth ps now e c of (e', c', _) \<Rightarrow> (e', c'))"
| "do_link_call cd (e, c) (OtherUse n) =
     (e\<lparr>pe_correlation_counter := pe_correlation_counter e + n\<rparr>, c)"
| "do_link_call cd (e, c) (Received m) = (e, fst (handle_decoded_message m c))"
| "do_link_call cd (e, c) (WaitEnd k) = (e, wait_end k c)"

lemma encode_plain_counter:
  "encode_plain cd e t payload (Some k) now = (r, e') \<Longrightarrow>
     pe_correlation_counter e' = pe_correlation_counter e"
  by (auto simp: encode_plain_def encode_def Let_def split: sum.splits)

lemma encode_rpc_request_counter:
  assumes "encode_rpc_request cd e meth ps None now = (r, e')"
  shows "pe_correlation_counter e' = pe_correlation_counter e + 1
    \<and> (\<forall>bs k. r = Inr (bs, k) \<longrightarrow> k = int (pe_correlation_counter e) + 1)"
  using assms
  by (auto simp: encode_rpc_request_def next_correlation_id_def encode_serialized_def Let_def
      split: sum.splits option.splits prod.splits dest: encode_plain_counter)

text \<open>Every pending id was taken from the counter.\<close>

definition link_ok :: "ProtocolEncoder \<times> 's Connection \<Rightarrow> bool" where
  "link_ok st = (\<forall>k. dict_has (cn_pending_rpcs (snd st)) k \<longrightarrow> k \<le> int (pe_correlation_counter (fst st)))"

lemma send_rpc_request_effect:
  assumes "send_rpc_request cd d meth ps now e c = (e', c', r, fs)"
  shows "pe_correlation_counter e' = pe_correlation_counter e + 1
    \<and> (cn_pending_rpcs c' = cn_pending_rpcs c
       \<or> cn_pending_rpcs c' =
           AList.update (int (pe_correlation_counter e) + 1) Waiting (cn_pending_rpcs c))
    \<and> (\<forall>k. r = Inr k \<longrightarrow> k = int (pe_correlation_counter e) + 1
         \<and> cn_pending_rpcs c' = AList.update k Waiting (cn_pending_rpcs c))"
  using assms
  by (auto simp: send_rpc_request_def count_sent_def Let_def
      split: prod.splits sum.splits if_splits dest: encode_rpc_request_counter)

lemma handle_pending:
  "map_of (cn_pending_rpcs (fst (handle_decoded_message m c))) k =
     (if dm_message_type m \<in> {RPC_RESPONSE, RPC_ERROR} \<and> dm_correlation_id m = k
         \<and> map_of (cn_pending_rpcs c) k = Some Waiting
      then Some (Resolved (dm_payload m)) else map_of (cn_pending_rpcs c) k)"
  by (auto simp: handle_decoded_message_def Let_def update_conv')

interpretation link: op_machine "do_link_call cd" link_ok for cd
proof
  fix st :: "ProtocolEncoder \<times> 's Connection" and q
  assume ok: "link_ok st"
  obtain e c where st: "st = (e, c)" by (cases st)
  show "link_ok (do_link_call cd st q)"
  proof (cases q)
    case (SendRpc meth ps now d)
    obtain e' c' r fs where s: "send_rpc_request cd (\<lambda>_. d) meth ps now e c = (e', c', r, fs)"
      by (metis prod_cases4)
    from send_rpc_request_effect [OF s] ok show ?thesis
      by (fastforce simp: st SendRpc s link_ok_def)
  next
    case (Received m)
    then show ?thesis
      using ok handle_pending [of m c] by (auto simp: st link_ok_def dict_has_def split: if_splits)
  qed (use ok in \<open>fastforce simp: st link_ok_def wait_end_def\<close>)+
qed

text \<open>The payloads of the replies to one id, in the order they arrive.\<close>

definition replies_to :: "int \<Rightarrow> link_call list \<Rightarrow> pyval list" where
  "replies_to k qs = concat (map (\<lambda>q. case q of
     Received m \<Rightarrow> if dm_message_type m \<in> {RPC_RESPONSE, RPC_ERROR} \<and> dm_correlation_id m = k
                   then [dm_payload m] else []
   | _ \<Rightarrow> []) qs)"

definition answered_by :: "pyval list \<Rightarrow> future" where
  "answered_by vs = (case vs of [] \<Rightarrow> Waiting | v # _ \<Rightarrow> Resolved v)"

lemma pending_run:
  assumes "WaitEnd k \<notin> set qs" and "k \<le> int (pe_correlation_counter e)"
    and "map_of (cn_pending_rpcs c) k = Some f"
  shows "map_of (cn_pending_rpcs (snd (foldl (do_link_call cd) (e, c) qs))) k =
    Some (case f of Waiting \<Rightarrow> answered_by (replies_to k qs) | Resolved v \<Rightarrow> Resolved v)"
  using assms
proof (induction qs arbitrary: e c f)
  case Nil
  then show ?case by (simp add: replies_to_def answered_by_def split: future.split)
next
  case (Cons q qs)
  show ?case
  proof (cases q)
    case (SendRpc meth ps now d)
    obtain e' c' r fs where s: "send_rpc_request cd (\<lambda>_. d) meth ps now e c = (e', c', r, fs)"
      by (metis prod_cases4)
    from send_rpc_request_effect [OF s] Cons.prems(2,3) have
      "k \<le> int (pe_correlation_counter e')" "map_of (cn_pending_rpcs c') k = Some f"
      by (auto simp: update_conv')
    from Cons.IH [OF _ this] Cons.prems(1) show ?thesis
      by (simp add: SendRpc s replies_to_def split: future.split)
  next
    case (OtherUse n)
    then show ?thesis
      using Cons.IH [of "e\<lparr>pe_correlation_counter := pe_correlation_counter e + n\<rparr>" c f] Cons.prems
      by (simp add: replies_to_def split: future.split)
  next
    case (Received m)
    then show ?thesis
      using Cons.IH [of e "fst (handle_decoded_message m c)"] Cons.prems handle_pending [of m c k]
      by (cases f) (auto simp: replies_to_def answered_by_def)
  next
    case (WaitEnd j)
    then show ?thesis
      using Cons.IH [of e "wait_end j c" f] Cons.prems
      by (simp add: replies_to_def wait_end_def delete_conv' split: future.split)
  qed
qed

section \<open>Runs of a pool\<close>

text \<open>
  The calls of a pool.  An addition comes with what the connect callback does to the pool while it is
  awaited - calls of the pool again - and whether it raises.  A disconnect callback runs without the
  lock and is an event.  None: the call waits for the lock for ever.
\<close>

datatype 's pool_call =
    PoolAdd "'s Connection" "'s pool_call list" bool
  | PoolRemove string
  | PoolStop string \<comment> \<open>\<open>stop\<close> of the connection under that id\<close>
  | PoolCloseAll
  | PoolCallbacks bool bool

fun do_pool_call :: "'s pool_call \<Rightarrow> 's ConnectionPool \<Rightarrow> 's ConnectionPool option"
  and do_pool_calls :: "'s pool_call list \<Rightarrow> 's ConnectionPool \<Rightarrow> 's ConnectionPool option" where
  "do_pool_call (PoolAdd c hook raises) p =
     map_option fst (pool_add (\<lambda>_ q. map_option (\<lambda>q'. (q', raises)) (do_pool_calls hook q)) c p)"
| "do_pool_call (PoolRemove k) p = map_option fst (pool_remove k p)"
| "do_pool_call (PoolStop k) p =
     (case pool_get k p of
        None \<Rightarrow> Some p
      | Some c \<Rightarrow> map_option (\<lambda>(c', p', ev). p') (connection_stop c p))"
| "do_pool_call PoolCloseAll p = map_option fst (close_all p)"
| "do_pool_call (PoolCallbacks a b) p = Some (pool_set_callbacks a b p)"
| "do_pool_calls [] p = Some p"
| "do_pool_calls (q # qs) p =
     (case do_pool_call q p of None \<Rightarrow> None | Some p1 \<Rightarrow> do_pool_calls qs p1)"

definition pool_ok :: "int \<Rightarrow> 's ConnectionPool \<Rightarrow> bool" where
  "pool_ok n p = (\<not> pl_locked p \<and> pl_max_connections p = n \<and> distinct (map fst (pl_connections p))
     \<and> (pl_connections p = [] \<or> int (length (pl_connections p)) \<le> n)
     \<and> (\<forall>x \<in> set (pl_connections p). cn_id (snd x) = fst x))"

lemma set_update_alist: "(k', c') \<in> set (AList.update k c d) \<Longrightarrow> (k', c') = (k, c) \<or> (k', c') \<in> set d"
  by (induction d) (auto split: if_splits)

lemma set_delete_alist: "set (AList.delete k d) \<subseteq> set d"
  by (auto simp: AList.delete_eq)

lemma pool_ok_delete: "pool_ok n p \<Longrightarrow> pool_ok n (p\<lparr>pl_connections := AList.delete k (pl_connections p)\<rparr>)"
  using length_delete_dict [of k "pl_connections p"] set_delete_alist [of k "pl_connections p"]
  by (auto simp: pool_ok_def distinct_delete)

lemma pool_remove_ok: "pool_ok n p \<Longrightarrow> pool_remove k p = Some (p', b) \<Longrightarrow> pool_ok n p'"
  by (auto simp: pool_remove_def pool_ok_delete split: if_splits)

lemma run_disc_handler_ok:
  "pool_ok n p \<Longrightarrow> run_disc_handler h k p = Some (p', ev) \<Longrightarrow> pool_ok n p'"
proof (induction h k p arbitrary: p' ev rule: run_disc_handler.induct)
  case (1 u k p)
  then show ?case by simp
next
  case (2 orig k p)
  then show ?case
    by (auto dest: pool_remove_ok split: option.splits prod.splits)
qed

lemma connection_stop_ok:
  "pool_ok n p \<Longrightarrow> connection_stop c p = Some (c', p', ev) \<Longrightarrow> pool_ok n p'"
  by (auto simp: connection_stop_def run_disc_handler_ok split: option.splits)

lemma stop_all_ok: "pool_ok n p \<Longrightarrow> stop_all cs p = Some (p', ev) \<Longrightarrow> pool_ok n p'"
  by (induction cs arbitrary: p ev) (auto dest: connection_stop_ok split: option.splits prod.splits)

lemma pool_put_ok:
  assumes "pool_ok n p" and "int (length (pl_connections p)) < n" and "cn_id c' = k"
    and "pl_connections p' = AList.update k c' (pl_connections p)" "\<not> pl_locked p'" "pl_max_connections p' = n"
  shows "pool_ok n p'"
proof -
  have "length (AList.update k c' (pl_connections p)) \<le> Suc (length (pl_connections p))"
    by (cases "map_of (pl_connections p) k = None") (simp_all add: length_update_new length_update_old)
  moreover have "cn_id (snd x) = fst x" if "x \<in> set (AList.update k c' (pl_connections p))" for x
  proof -
    from that have "(fst x, snd x) = (k, c') \<or> (fst x, snd x) \<in> set (pl_connections p)"
      by (intro set_update_alist) simp
    with assms(1,3) show ?thesis unfolding pool_ok_def by auto
  qed
  ultimately show ?thesis
    using assms by (auto simp: pool_ok_def distinct_update)
qed

lemma pool_add_ok:
  assumes "pool_ok n p" and "pool_add (\<lambda>_ q. Some (q, False)) c p = Some (p', r)"
  shows "pool_ok n p'"
proof (cases "pl_max_connections p \<le> int (length (pl_connections p))")
  case True
  with assms show ?thesis by (simp add: pool_add_def pool_ok_def)
next
  case False
  let ?c = "set_disconnect_handler (PoolHandler (cn_on_disconnect c)) c"
  from False assms have "pl_connections p' = AList.update (cn_id c) ?c (pl_connections p)"
    "\<not> pl_locked p'" "pl_max_connections p' = n"
    by (auto simp: pool_add_def pool_ok_def Let_def split: if_splits)
  moreover from False assms(1) have "int (length (pl_connections p)) < n" by (simp add: pool_ok_def)
  moreover have "cn_id ?c = cn_id c" by (simp add: set_disconnect_handler_def)
  ultimately show ?thesis using pool_put_ok [OF assms(1)] by blast
qed

text \<open>Every connection in a pool has the handler that \<open>add\<close> has given it.\<close>

definition pool_hooked :: "'s ConnectionPool \<Rightarrow> bool" where
  "pool_hooked p = (\<forall>x \<in> set (pl_connections p). \<exists>h. cn_on_disconnect (snd x) = Some (PoolHandler h))"

definition pool_inv :: "int \<Rightarrow> 's ConnectionPool \<Rightarrow> bool" where
  "pool_inv n p = (pool_ok n p \<and> pool_hooked p)"

lemma hooked_shrinks:
  "pool_hooked p \<Longrightarrow> set (pl_connections p') \<subseteq> set (pl_connections p) \<Longrightarrow> pool_hooked p'"
  by (auto simp: pool_hooked_def)

lemma remove_shrinks: "pool_remove k p = Some (p', b) \<Longrightarrow> set (pl_connections p') \<subseteq> set (pl_connections p)"
  using set_delete_alist [of k "pl_connections p"] by (auto simp: pool_remove_def split: if_splits)

lemma handler_returns:
  "pool_ok n p \<Longrightarrow> \<exists>p' ev. run_disc_handler h k p = Some (p', ev) \<and> set (pl_connections p') \<subseteq> set (pl_connections p)"
proof (induction h k p rule: run_disc_handler.induct)
  case (2 orig k p)
  obtain p1 b where r: "pool_remove k p = Some (p1, b)" "set (pl_connections p1) \<subseteq> set (pl_connections p)"
    using 2(2) set_delete_alist [of k "pl_connections p"]
    by (cases "dict_has (pl_connections p) k") (auto simp: pool_remove_def pool_ok_def)
  show ?case
  proof (cases orig)
    case (Some h)
    with 2(1) [OF r(1) refl Some pool_remove_ok [OF 2(2) r(1)]] r show ?thesis by auto
  qed (use r in simp)
qed simp

lemma stop_returns:
  assumes "pool_ok n p"
  shows "\<exists>c' p' ev. connection_stop c p = Some (c', p', ev) \<and> set (pl_connections p') \<subseteq> set (pl_connections p)"
proof (cases "cn_on_disconnect c")
  case (Some h)
  with handler_returns [OF assms, of h "cn_id c"] show ?thesis by (auto simp: connection_stop_def)
qed (simp add: connection_stop_def)

lemma stop_all_returns:
  "pool_ok n p \<Longrightarrow> \<exists>p' ev. stop_all cs p = Some (p', ev) \<and> set (pl_connections p') \<subseteq> set (pl_connections p)"
proof (induction cs arbitrary: p)
  case (Cons c cs)
  from stop_returns [OF Cons.prems, of c] obtain c' p1 ev where
    s: "connection_stop c p = Some (c', p1, ev)" "set (pl_connections p1) \<subseteq> set (pl_connections p)" by blast
  from Cons.IH [OF connection_stop_ok [OF Cons.prems s(1)]] s show ?case by fastforce
qed simp

text \<open>The calls that need the lock, or stop a connection whose handler needs it.\<close>

fun takes_lock :: "string set \<Rightarrow> 's pool_call \<Rightarrow> bool" where
  "takes_lock ks (PoolStop k) = (k \<in> ks)"
| "takes_lock ks (PoolCallbacks a b) = False"
| "takes_lock ks q = True"

lemma call_under_lock:
  assumes "pl_locked q" and "pool_hooked q"
  shows "if takes_lock (fst ` set (pl_connections q)) x then do_pool_call x q = None
    else \<exists>q'. do_pool_call x q = Some q' \<and> pl_connections q' = pl_connections q \<and> pl_locked q'
      \<and> pl_max_connections q' = pl_max_connections q"
proof (cases x)
  case (PoolStop k)
  show ?thesis
  proof (cases "map_of (pl_connections q) k")
    case (Some c)
    with assms(2) obtain h where "cn_on_disconnect c = Some (PoolHandler h)"
      unfolding pool_hooked_def by (metis map_of_SomeD snd_conv)
    moreover have "k \<in> fst ` set (pl_connections q)" using Some by (force dest: map_of_SomeD)
    ultimately show ?thesis
      using assms(1) Some by (simp add: PoolStop pool_get_def connection_stop_def pool_remove_def)
  next
    case None
    then have "k \<notin> fst ` set (pl_connections q)" by (simp add: map_of_eq_None_iff)
    with assms None show ?thesis by (simp add: PoolStop pool_get_def)
  qed
qed (use assms in \<open>simp_all add: pool_add_def pool_remove_def close_all_def pool_set_callbacks_def\<close>)

lemma calls_under_lock:
  assumes "pl_locked q" and "pool_hooked q"
  shows "if \<exists>x \<in> set hook. takes_lock (fst ` set (pl_connections q)) x then do_pool_calls hook q = None
    else \<exists>q'. do_pool_calls hook q = Some q' \<and> pl_connections q' = pl_connections q \<and> pl_locked q'
      \<and> pl_max_connections q' = pl_max_connections q"
  using assms
proof (induction hook arbitrary: q)
  case (Cons x hook)
  note c = call_under_lock [OF Cons.prems, of x]
  show ?case
  proof (cases "takes_lock (fst ` set (pl_connections q)) x")
    case False
    with c obtain q1 where q1: "do_pool_call x q = Some q1" "pl_connections q1 = pl_connections q" "pl_locked q1"
      "pl_max_connections q1 = pl_max_connections q" by auto
    with Cons.prems(2) have "pool_hooked q1" by (simp add: pool_hooked_def)
    from Cons.IH [OF q1(3) this] q1 False show ?thesis by (auto split: if_splits)
  qed (use c in simp)
qed simp

text \<open>Exactly these calls never return on a pool that is free.\<close>

definition call_hangs :: "'s pool_call \<Rightarrow> 's ConnectionPool \<Rightarrow> bool" where
  "call_hangs q p = (case q of
     PoolAdd c hook raises \<Rightarrow>
       pl_on_connect p \<and> int (pool_count p) < pl_max_connections p
       \<and> (\<exists>x \<in> set hook. takes_lock (insert (cn_id c) (fst ` set (pl_connections p))) x)
   | _ \<Rightarrow> False)"

lemma pool_add_call:
  assumes inv: "pool_inv n p"
  shows "if call_hangs (PoolAdd c hook raises) p then do_pool_call (PoolAdd c hook raises) p = None
    else \<exists>p'. do_pool_call (PoolAdd c hook raises) p = Some p' \<and> pool_inv n p'"
proof (cases "int (length (pl_connections p)) < n")
  case False
  with inv show ?thesis
    by (simp add: call_hangs_def pool_count_def pool_add_def pool_inv_def pool_ok_def)
next
  case room: True
  let ?c = "set_disconnect_handler (PoolHandler (cn_on_disconnect c)) c"
  let ?p1 = "p\<lparr>pl_connections := AList.update (cn_id c) ?c (pl_connections p)\<rparr>"
  from inv have free: "\<not> pl_locked p" "pl_max_connections p = n" "\<not> n \<le> int (length (pl_connections p))"
    using room by (simp_all add: pool_inv_def pool_ok_def)
  have hooked: "pool_hooked ?p1"
  proof (unfold pool_hooked_def, intro ballI)
    fix x assume "x \<in> set (pl_connections ?p1)"
    then have "(fst x, snd x) \<in> set (AList.update (cn_id c) ?c (pl_connections p))" by simp
    from set_update_alist [OF this] have "x = (cn_id c, ?c) \<or> x \<in> set (pl_connections p)" by auto
    then show "\<exists>h. cn_on_disconnect (snd x) = Some (PoolHandler h)"
      using inv by (auto simp: set_disconnect_handler_def pool_inv_def pool_hooked_def)
  qed
  have put: "pool_inv n p'" if "pl_connections p' = pl_connections ?p1" "\<not> pl_locked p'" "pl_max_connections p' = n" for p'
    using inv room that hooked pool_put_ok [of n p ?c "cn_id c" p']
    by (simp add: pool_inv_def pool_hooked_def set_disconnect_handler_def)
  have keys: "fst ` set (AList.update (cn_id c) ?c (pl_connections p)) = insert (cn_id c) (fst ` set (pl_connections p))"
    by (simp add: dom_update)
  show ?thesis
  proof (cases "pl_on_connect p")
    case False
    with free put [of ?p1] show ?thesis by (simp add: call_hangs_def pool_add_def Let_def)
  next
    case True
    have "pool_hooked (?p1\<lparr>pl_locked := True\<rparr>)" using hooked by (simp add: pool_hooked_def)
    from calls_under_lock [OF _ this, of hook] show ?thesis
      using True free room put
      by (auto simp: call_hangs_def pool_count_def pool_add_def Let_def keys split: if_splits)
  qed
qed

lemma pool_call_step:
  assumes inv: "pool_inv n p"
  shows "if call_hangs q p then do_pool_call q p = None else \<exists>p'. do_pool_call q p = Some p' \<and> pool_inv n p'"
proof -
  from inv have ok: "pool_ok n p" and hooked: "pool_hooked p" by (simp_all add: pool_inv_def)
  then have empty: "pool_ok n (p\<lparr>pl_connections := []\<rparr>)" by (simp add: pool_ok_def)
  show ?thesis
  proof (cases q)
    case (PoolAdd c hook raises)
    show ?thesis unfolding PoolAdd by (rule pool_add_call [OF inv])
  next
    case (PoolRemove k)
    obtain p' b where r: "pool_remove k p = Some (p', b)"
      using ok by (cases "dict_has (pl_connections p) k") (auto simp: pool_remove_def pool_ok_def)
    from pool_remove_ok [OF ok r] hooked_shrinks [OF hooked remove_shrinks [OF r]] show ?thesis
      by (simp add: PoolRemove r call_hangs_def pool_inv_def)
  next
    case (PoolStop k)
    show ?thesis
    proof (cases "pool_get k p")
      case (Some c)
      from stop_returns [OF ok, of c] obtain c' p' ev where
        s: "connection_stop c p = Some (c', p', ev)" "set (pl_connections p') \<subseteq> set (pl_connections p)" by blast
      from connection_stop_ok [OF ok s(1)] hooked_shrinks [OF hooked s(2)] s(1) show ?thesis
        by (simp add: PoolStop Some call_hangs_def pool_inv_def)
    qed (use inv in \<open>simp add: PoolStop call_hangs_def\<close>)
  next
    case PoolCloseAll
    from stop_all_returns [OF empty, of "map snd (pl_connections p)"] obtain p' ev where
      s: "stop_all (map snd (pl_connections p)) (p\<lparr>pl_connections := []\<rparr>) = Some (p', ev)" "pl_connections p' = []" by auto
    from stop_all_ok [OF empty s(1)] s ok show ?thesis
      by (simp add: PoolCloseAll close_all_def call_hangs_def pool_inv_def pool_hooked_def pool_ok_def)
  next
    case (PoolCallbacks a b)
    with inv show ?thesis
      by (simp add: call_hangs_def pool_set_callbacks_def pool_inv_def pool_ok_def pool_hooked_def)
  qed
qed

text \<open>A pool that has hung does nothing more; the others keep their invariant.\<close>

interpretation pool: op_machine "\<lambda>s q. Option.bind s (do_pool_call q)" "\<lambda>s. \<forall>p. s = Some p \<longrightarrow> pool_inv n p" for n
proof
  fix s :: "'s ConnectionPool option" and q
  assume inv: "\<forall>p. s = Some p \<longrightarrow> pool_inv n p"
  show "\<forall>p. Option.bind s (do_pool_call q) = Some p \<longrightarrow> pool_inv n p"
  proof (cases s)
    case (Some p)
    with inv have "pool_inv n p" by simp
    from pool_call_step [OF this, of q] show ?thesis by (auto simp: Some split: if_splits)
  qed simp
qed

lemma pool_calls_fold: "do_pool_calls qs p = foldl (\<lambda>s q. Option.bind s (do_pool_call q)) (Some p) qs"
proof (induction qs arbitrary: p)
  case (Cons q qs)
  have "foldl (\<lambda>s q. Option.bind s (do_pool_call q)) None qs = None" by (induction qs) simp_all
  with Cons show ?case by (cases "do_pool_call q p") simp_all
qed simp

section \<open>Properties\<close>

text \<open>
  C13. Replies find their call: on a connection that has only had such calls, the id of a new
  request is not pending already, and as long as its wait has not ended its future holds the
  payload of the first reply that carries this id, whatever other requests, replies and uses of the
  shared encoder come in between.
\<close>

theorem reply_reaches_its_call:
  assumes "(e, c) = foldl (do_link_call cd) (new_encoder enable, new_connection cid uid t0) before"
    and "send_rpc_request cd deliver meth ps now e c = (e', c', Inr corr, fs)"
    and "WaitEnd corr \<notin> set after"
  shows "\<not> dict_has (cn_pending_rpcs c) corr
    \<and> wait_start corr (snd (foldl (do_link_call cd) (e', c') after))
        = Some (answered_by (replies_to corr after))"
proof -
  have "link_ok (new_encoder enable, new_connection cid uid t0)"
    by (simp add: link_ok_def new_connection_def dict_has_def)
  then have ok: "link_ok (e, c)" unfolding assms(1) by (rule link.run_inv)
  from send_rpc_request_effect [OF assms(2)] have
    k: "corr = int (pe_correlation_counter e) + 1" "pe_correlation_counter e' = pe_correlation_counter e + 1"
      "cn_pending_rpcs c' = AList.update corr Waiting (cn_pending_rpcs c)" by simp_all
  then have "map_of (cn_pending_rpcs c') corr = Some Waiting" by (simp add: update_conv')
  from pending_run [OF assms(3) _ this, of e' cd] k ok show ?thesis
    by (auto simp: wait_start_def link_ok_def)
qed

text \<open>A codec for the witness, and a reply to the first call.\<close>

definition reply_codec :: codec where
  "reply_codec = \<lparr>ser_Packet = \<lambda>_. Some [1], parse_Packet = \<lambda>_. None,
     ser_MessagePayload = \<lambda>_. Some [2], parse_MessagePayload = \<lambda>_. None,
     ser_RPCRequest = \<lambda>_. Some [3], parse_RPCRequest = \<lambda>_. None,
     ser_RPCResponse = \<lambda>_. Some [4], parse_RPCResponse = \<lambda>_. None,
     ser_AuthRequest = \<lambda>_. Some [5], parse_AuthRequest = \<lambda>_. None,
     ser_AuthResponse = \<lambda>_. Some [6], parse_AuthResponse = \<lambda>_. None,
     json_dumps = \<lambda>_. Some ''{}'', json_loads = \<lambda>_. None, repr_str = \<lambda>_. [],
     rust_compression = False, compress_payload = \<lambda>p. p, decompress_payload = Some,
     zlib_decompress = \<lambda>_. None\<rparr>"

definition reply_message :: "int \<Rightarrow> pyval \<Rightarrow> DecodedMessage" where
  "reply_message corr v =
     \<lparr>dm_header = \<lparr>hdr_magic = MAGIC, hdr_version = 256, hdr_message_type = RPC_RESPONSE,
        hdr_flags = 0, hdr_reserved = 0, hdr_content_length = 0, hdr_correlation_id = corr,
        hdr_timestamp = 0, hdr_sequence_id = 0, hdr_stream_id = 0, hdr_byte_order = BE\<rparr>,
      dm_payload = v, dm_raw_payload = [], dm_route_src = [], dm_route_dst = [], dm_is_mesh = False\<rparr>"

theorem reply_reaches_its_call_witness:
  "\<exists>e c e' c' fs. (e, c) = foldl (do_link_call reply_codec)
       (new_encoder False, new_connection [] ''u'' 0 :: unit Connection) [SendRpc ''a'' (PDict []) 1 True]
    \<and> send_rpc_request reply_codec (\<lambda>_. True) ''b'' (PDict []) 2 e c = (e', c', Inr 2, fs)
    \<and> wait_start 2 (snd (foldl (do_link_call reply_codec) (e', c')
         [Received (reply_message 1 (PInt 10)), Received (reply_message 2 (PInt 20)),
          Received (reply_message 2 (PInt 30))])) = Some (Resolved (PInt 20))"
proof -
  let ?start = "(new_encoder False, new_connection [] ''u'' 0 :: unit Connection)"
  obtain e c where ec: "(e, c) = foldl (do_link_call reply_codec) ?start [SendRpc ''a'' (PDict []) 1 True]"
    by (metis surj_pair)
  then have "pe_correlation_counter e = 1" "pe_enable_compression e = False"
    by (simp_all add: send_rpc_request_def encode_rpc_request_def encode_simps serialize_data_def
        reply_codec_def new_encoder_def to_bytes_be_def Let_def)
  then obtain e' c' fs where s: "send_rpc_request reply_codec (\<lambda>_. True) ''b'' (PDict []) 2 e c = (e', c', Inr 2, fs)"
    by (simp add: send_rpc_request_def encode_rpc_request_def encode_simps serialize_data_def
        reply_codec_def to_bytes_be_def Let_def)
  let ?after = "[Received (reply_message 1 (PInt 10)), Received (reply_message 2 (PInt 20)),
          Received (reply_message 2 (PInt 30))]"
  have "wait_start 2 (snd (foldl (do_link_call reply_codec) (e', c') ?after))
      = Some (answered_by (replies_to 2 ?after))"
    using reply_reaches_its_call [OF ec s, of ?after] by auto
  moreover have "answered_by (replies_to 2 ?after) = Resolved (PInt 20)"
    by (simp add: answered_by_def replies_to_def reply_message_def dm_message_type_def dm_correlation_id_def)
  ultimately show ?thesis using ec s by metis
qed

text \<open>
  C38. The pool keeps its bound and its lock: after any additions, removals, stops and closings that
  have returned, with or without callbacks, a pool never holds more than \<open>max_connections\<close> and holds
  each connection under its own id, once.  The next call returns, except for one case, which never
  does: an accepted addition whose connect callback - awaited with the lock held - itself adds,
  removes, closes all, or stops a connection of the pool, the new one included.
\<close>

theorem pool_bounded:
  assumes "do_pool_calls calls (new_pool n) = Some p"
  shows "int (pool_count p) \<le> max 0 n \<and> map cn_id (pool_get_all p) = map fst (pl_connections p)
    \<and> distinct (map cn_id (pool_get_all p))
    \<and> (do_pool_call q p = None \<longleftrightarrow>
         (\<exists>c hook raises. q = PoolAdd c hook raises \<and> pl_on_connect p \<and> int (pool_count p) < n
           \<and> (\<exists>x \<in> set hook. takes_lock (insert (cn_id c) (set (map cn_id (pool_get_all p)))) x)))"
proof -
  have "\<forall>p. foldl (\<lambda>s q. Option.bind s (do_pool_call q)) (Some (new_pool n)) calls = Some p \<longrightarrow> pool_inv n p"
    by (rule pool.run_inv) (simp add: pool_inv_def pool_ok_def pool_hooked_def new_pool_def)
  with assms have inv: "pool_inv n p" by (simp add: pool_calls_fold)
  then have ids: "map cn_id (pool_get_all p) = map fst (pl_connections p)"
    by (simp add: pool_get_all_def pool_inv_def pool_ok_def)
  have "do_pool_call q p = None \<longleftrightarrow> call_hangs q p"
    using pool_call_step [OF inv, of q] by (auto split: if_splits)
  also have "\<dots> \<longleftrightarrow> (\<exists>c hook raises. q = PoolAdd c hook raises \<and> pl_on_connect p \<and> int (pool_count p) < n
           \<and> (\<exists>x \<in> set hook. takes_lock (insert (cn_id c) (set (map cn_id (pool_get_all p)))) x))"
    using inv unfolding ids by (auto simp: call_hangs_def pool_inv_def pool_ok_def split: pool_call.splits)
  finally show ?thesis
    using inv ids by (auto simp: pool_inv_def pool_ok_def pool_count_def)
qed

theorem pool_bounded_witness:
  "\<exists>p. do_pool_calls [PoolCallbacks True True, PoolAdd (new_connection ''a'' ''u'' 0 :: unit Connection) [] False]
      (new_pool 2) = Some p \<and> pool_count p = 1 \<and> int (pool_count p) \<le> 2
    \<and> do_pool_call (PoolAdd (new_connection ''b'' ''v'' 0) [PoolStop ''b''] False) p = None
    \<and> do_pool_call (PoolAdd (new_connection ''b'' ''v'' 0) [PoolStop ''c''] False) p \<noteq> None"
proof -
  let ?calls = "[PoolCallbacks True True, PoolAdd (new_connection ''a'' ''u'' 0 :: unit Connection) [] False]"
  obtain p where p_def: "p = \<lparr>pl_max_connections = 2,
      pl_connections = [(''a'', set_disconnect_handler (PoolHandler None) (new_connection ''a'' ''u'' 0 :: unit Connection))],
      pl_locked = False, pl_on_connect = True, pl_on_disconnect = True\<rparr>" by simp
  have p: "do_pool_calls ?calls (new_pool 2) = Some p" "pool_count p = 1" "pl_on_connect p"
      "map cn_id (pool_get_all p) = [''a'']"
    by (simp_all add: p_def pool_add_def pool_set_callbacks_def new_pool_def set_disconnect_handler_def
        new_connection_def pool_count_def pool_get_all_def Let_def)
  note hangs = pool_bounded [OF p(1), THEN conjunct2, THEN conjunct2, THEN conjunct2]
  have "do_pool_call (PoolAdd (new_connection ''b'' ''v'' 0) [PoolStop ''b''] False) p = None"
    unfolding hangs by (auto simp: p(2-4) new_connection_def)
  moreover have "do_pool_call (PoolAdd (new_connection ''b'' ''v'' 0) [PoolStop ''c''] False) p \<noteq> None"
    unfolding hangs by (simp add: p(4) new_connection_def)
  moreover have "int (pool_count p) \<le> 2" using p(2) by simp
  ultimately show ?thesis using p(1,2) by blast
qed

text \<open>
  A disconnect is told once: stopping a connection that was added to a pool takes it out,
  reports it to the pool's disconnect callback once, and stopping it again does nothing.
\<close>

lemma stop_reports_once:
  assumes "\<not> pl_locked p" and "int (pool_count p) < pl_max_connections p"
    and "\<not> pl_on_connect p" and "pl_on_disconnect p" and "cn_on_disconnect c = None"
    and "pool_add cb c p = Some (p1, Some True)" and "pool_get (cn_id c) p1 = Some c1"
  shows "\<exists>c2 p2. connection_stop c1 p1 = Some (c2, p2, [PoolCallback (cn_id c)])
    \<and> pool_get (cn_id c) p2 = None \<and> connection_stop c2 p2 = Some (c2, p2, [])"
proof -
  from assms have p1: "p1 = p\<lparr>pl_connections := AList.update (cn_id c)
      (set_disconnect_handler (PoolHandler (cn_on_disconnect c)) c) (pl_connections p)\<rparr>"
    by (auto simp: pool_add_def Let_def split: if_splits)
  then have c1: "c1 = set_disconnect_handler (PoolHandler None) c"
    using assms(5,7) by (simp add: pool_get_def update_conv')
  show ?thesis
    using assms(1,4)
    by (simp add: p1 c1 connection_stop_def set_disconnect_handler_def pool_remove_def pool_get_def
        delete_conv' update_conv')
qed

text \<open>
  A connect hook that disconnects the newcomer hangs the pool: it runs with the pool's lock
  held, the disconnect callback that \<open>add\<close> has just installed needs the same lock, so \<open>add\<close> never
  returns.
\<close>

lemma kicking_hook_hangs:
  assumes "\<not> pl_locked p" and "int (pool_count p) < pl_max_connections p" and "pl_on_connect p"
  shows "pool_add (\<lambda>conn q. case connection_stop conn q of
           None \<Rightarrow> None | Some (conn', q', ev) \<Rightarrow> Some (q', False)) c p = None"
  using assms
  by (simp add: pool_add_def pool_count_def Let_def connection_stop_def set_disconnect_handler_def
      pool_remove_def)

lemma encode_message_encoder: "encode_message cd e t v None now = (Inr bs, e') \<Longrightarrow> e' = e"
  by (auto simp: encode_message_def encode_serialized_def encode_plain_def encode_def
      split: sum.splits option.splits if_splits)

lemma broadcast_loop_frames:
  assumes "encode_message cd e t v None now = (Inr bs, e')"
  shows "\<exists>p'. broadcast_loop cd deliver t v now cs e p =
     (e, p', length (filter (\<lambda>(k, c). deliver (cn_client_id c) bs) cs),
      map (\<lambda>(k, c). (cn_client_id c, bs)) cs)"
proof (induction cs arbitrary: p)
  case Nil
  then show ?case by simp
next
  case (Cons kc cs)
  obtain k c where kc: "kc = (k, c)" by (cases kc)
  have "e' = e" using assms by (rule encode_message_encoder)
  then have s: "send_message cd (deliver (cn_client_id c)) t v now e c =
      (e, count_sent bs c, if deliver (cn_client_id c) bs then Inr () else Inl TransportFailed,
       [(cn_client_id c, bs)])"
    using assms by (simp add: send_message_def send_encoded_def transmit_def)
  from Cons [of "p\<lparr>pl_connections := AList.update k (count_sent bs c) (pl_connections p)\<rparr>"]
  show ?case by (auto simp: kc s)
qed

text \<open>
  A broadcast reaches every authenticated connection that is not excluded, each with one and
  the same frame, in the order of the pool, and its result counts the sends that did not raise.
\<close>

lemma broadcast_reaches:
  assumes "encode_message cd e t v None now = (Inr bs, e')"
  shows "\<exists>p'. pool_broadcast cd deliver t v exclude now e p =
     (e, p',
      length (filter (\<lambda>(k, c). k \<notin> exclude \<and> is_authenticated c \<and> deliver (cn_client_id c) bs)
        (pl_connections p)),
      map (\<lambda>(k, c). (cn_client_id c, bs))
        (filter (\<lambda>(k, c). k \<notin> exclude \<and> is_authenticated c) (pl_connections p)))"
proof -
  have "filter (\<lambda>(k, c). deliver (cn_client_id c) bs) (broadcast_targets exclude p) =
      filter (\<lambda>(k, c). k \<notin> exclude \<and> is_authenticated c \<and> deliver (cn_client_id c) bs) (pl_connections p)"
    by (auto simp: broadcast_targets_def intro!: filter_cong)
  then show ?thesis
    using broadcast_loop_frames [OF assms, of deliver "broadcast_targets exclude p" p]
    by (simp add: pool_broadcast_def broadcast_targets_def)
qed

end
