(* ===== verification/Steps.thy ===== *)
theory Steps
  imports Prelude
begin

text \<open>
  Steps of a handler that runs to its end or leaves early with an exception: a state transformer
  that also returns what the handler did to its surroundings, in order.  The server and the client
  are written with them.
\<close>

text \<open>The state, the actions, and the value; None: an exception left the handler.\<close>

type_synonym ('s, 'e, 'a) srv = "'s \<Rightarrow> 's \<times> 'e list \<times> 'a option"

definition s_ret :: "'a \<Rightarrow> ('s, 'e, 'a) srv" where
  "s_ret v s = (s, [], Some v)"
definition s_fail :: "('s, 'e, 'a) srv" where
  "s_fail s = (s, [], None)"
definition s_bind :: "('s, 'e, 'a) srv \<Rightarrow> ('a \<Rightarrow> ('s, 'e, 'b) srv) \<Rightarrow> ('s, 'e, 'b) srv" where
  "s_bind m f s =
     (case m s of
        (s1, a1, None) \<Rightarrow> (s1, a1, None)
      | (s1, a1, Some v) \<Rightarrow> (case f v s1 of (s2, a2, r) \<Rightarrow> (s2, a1 @ a2, r)))"
definition s_then :: "('s, 'e, 'a) srv \<Rightarrow> ('s, 'e, 'b) srv \<Rightarrow> ('s, 'e, 'b) srv" where
  "s_then m n = s_bind m (\<lambda>_. n)"
definition s_get :: "('s \<Rightarrow> 'a) \<Rightarrow> ('s, 'e, 'a) srv" where
  "s_get f s = (s, [], Some (f s))"
definition s_put :: "('s \<Rightarrow> 's) \<Rightarrow> ('s, 'e, unit) srv" where
  "s_put f s = (f s, [], Some ())"
definition s_act :: "'e \<Rightarrow> ('s, 'e, unit) srv" where
  "s_act a s = (s, [a], Some ())"
definition s_opt :: "'a option \<Rightarrow> ('s, 'e, 'a) srv" where
  "s_opt r s = (s, [], r)"

lemmas s_defs = s_ret_def s_fail_def s_bind_def s_then_def s_get_def s_put_def s_act_def s_opt_def

text \<open>\<open>try: \<dots> except Exception: log\<close>.\<close>

definition catch :: "('s, 'e, unit) srv \<Rightarrow> ('s, 'e, unit) srv" where
  "catch m s = (case m s of (s1, a, r) \<Rightarrow> (s1, a, Some ()))"

text \<open>
  What a TLS tunnel does with the data of a mesh message: nothing to feed, bytes, or (None) a value
  that \<open>MemoryBIO.write\<close> refuses.
\<close>

definition tunnel_bytes :: "pyval \<Rightarrow> bytes option" where
  "tunnel_bytes v = (if truthy v then (case v of PBytes b \<Rightarrow> Some b | _ \<Rightarrow> None) else Some [])"

text \<open>\<open>try: \<dots> except Exception: return d\<close>.\<close>

definition catch_with :: "'a \<Rightarrow> ('s, 'e, 'a) srv \<Rightarrow> ('s, 'e, 'a) srv" where
  "catch_with d m s = (case m s of (s1, a, None) \<Rightarrow> (s1, a, Some d) | (s1, a, Some v) \<Rightarrow> (s1, a, Some v))"

lemma tunnel_bytes_simps [simp]: "tunnel_bytes (PBytes b) = Some b"
  by (simp add: tunnel_bytes_def)

section \<open>Reasoning about steps\<close>

text \<open>A step that leaves a part of the state alone, and one that keeps a property of it.\<close>

definition frame_on :: "('s \<Rightarrow> 'k) \<Rightarrow> ('s, 'e, 'a) srv \<Rightarrow> bool" where
  "frame_on key m = (\<forall>s. key (fst (m s)) = key s)"

definition keeps :: "('s \<Rightarrow> bool) \<Rightarrow> ('s, 'e, 'a) srv \<Rightarrow> bool" where
  "keeps Q m = (\<forall>s. Q s \<longrightarrow> Q (fst (m s)))"

lemma frame_bind: "frame_on key m \<Longrightarrow> (\<And>v. frame_on key (f v)) \<Longrightarrow> frame_on key (s_bind m f)"
  by (auto simp: frame_on_def s_bind_def split_def split: option.split)

lemma frame_then: "frame_on key m \<Longrightarrow> frame_on key n \<Longrightarrow> frame_on key (s_then m n)"
  by (simp add: s_then_def frame_bind)

lemma frame_basic:
  "frame_on key (s_ret v)" "frame_on key s_fail" "frame_on key (s_get g)" "frame_on key (s_act a)"
  "frame_on key (s_opt r)"
  by (simp_all add: frame_on_def s_defs)

lemma frame_put: "(\<And>s. key (f s) = key s) \<Longrightarrow> frame_on key (s_put f)"
  by (simp add: frame_on_def s_put_def)

lemma frame_catch: "frame_on key m \<Longrightarrow> frame_on key (catch m)"
  by (simp add: frame_on_def catch_def split_def)

lemma frame_catch_with: "frame_on key m \<Longrightarrow> frame_on key (catch_with d m)"
  by (auto simp: frame_on_def catch_with_def split_def split: option.split)

text \<open>A step whose actions all satisfy a predicate.\<close>

definition does_only :: "('e \<Rightarrow> bool) \<Rightarrow> ('s, 'e, 'a) srv \<Rightarrow> bool" where
  "does_only P m = (\<forall>s. \<forall>x \<in> set (fst (snd (m s))). P x)"

lemma does_bind: "does_only P m \<Longrightarrow> (\<And>v. does_only P (f v)) \<Longrightarrow> does_only P (s_bind m f)"
  by (fastforce simp: does_only_def s_bind_def split_def split: option.split)

lemma does_then: "does_only P m \<Longrightarrow> does_only P n \<Longrightarrow> does_only P (s_then m n)"
  by (simp add: s_then_def does_bind)

lemma does_basic:
  "does_only P (s_ret v)" "does_only P s_fail" "does_only P (s_get g)" "does_only P (s_opt r)"
  "does_only P (s_put h)"
  by (simp_all add: does_only_def s_defs)

lemma does_act: "P x \<Longrightarrow> does_only P (s_act x)"
  by (simp add: does_only_def s_act_def)

lemma does_catch_with: "does_only P m \<Longrightarrow> does_only P (catch_with d m)"
  by (auto simp: does_only_def catch_with_def split_def split: option.split)

lemma keeps_bind: "keeps Q m \<Longrightarrow> (\<And>v. keeps Q (f v)) \<Longrightarrow> keeps Q (s_bind m f)"
  by (fastforce simp: keeps_def s_bind_def split_def split: option.split)

lemma keeps_then: "keeps Q m \<Longrightarrow> keeps Q n \<Longrightarrow> keeps Q (s_then m n)"
  by (simp add: s_then_def keeps_bind)

lemma bind_silent: "m s = (s1, [], Some v) \<Longrightarrow> s_bind m f s = f v s1"
  by (simp add: s_bind_def split: prod.split)

lemma bind_first:
  "m s = (s1, a # as, r) \<Longrightarrow> \<exists>rest. fst (snd (s_bind m f s)) = a # rest"
  by (cases r) (auto simp: s_bind_def split: prod.split)

end
