(* ===== verification/Server.thy ===== *)
theory Server
  imports Steps Connections Rpc Router Auth Rate Heartbeat
begin

text \<open>
  \<open>src/conduit/server.py\<close>: the server's state and what it does with the events of the transport -
  connect, disconnect, a decoded message, a binary stream.  A handler is a state transformer that
  may end early with an exception; what it sends and the user code it runs are actions.  User code
  (handlers, hooks, gates), the TLS tunnel, hashes and the transport are the record \<open>server_env\<close>;
  hooks and handlers do not call back into the server.
\<close>

section \<open>State\<close>

datatype ServerState = CREATED | INITIALIZING | RUNNING | STOPPING | CLOSED

text \<open>The session object with the profile the server attaches to it.\<close>

record srv_session =
  ss_session :: Session
  ss_profile :: "UserProfile option"

text \<open>The attributes the server hangs on a registered method.\<close>

record method_gates =
  mg_requires_role :: "string option"
  mg_requires_permission :: "string option"
  mg_gate :: bool

record ('m, 'h, 't) Server =
  sv_name :: string
  sv_version :: string
  sv_auth :: AuthHandler
  sv_valid_sessions :: "(string, pyval \<times> UserProfile option) dict"
  sv_pool :: "srv_session ConnectionPool"
  sv_router :: "'m MessageRouter"
  sv_registry :: "'h RPCRegistry"
  sv_gates :: "(string, method_gates) dict"
  sv_encoder :: ProtocolEncoder
  sv_rate_config :: RateLimitConfig
  sv_limiters :: "(string, RateLimiter) dict"
  sv_credentials :: "CredentialsManager option"
  sv_mesh_tunnels :: "(string, 't) dict"
  sv_mesh_routing :: "(string, string) dict"
  sv_heartbeat :: HeartbeatManager
  sv_binary_handler :: bool
  sv_state :: ServerState
  sv_running :: bool

record ('m, 'h, 't) server_env =
  ev_codec :: codec
  ev_crypto :: crypto
  ev_rpc :: "'h rpc_env"
  ev_msg :: "'m \<Rightarrow> srv_session Connection \<Rightarrow> pyval \<Rightarrow> outcome"
  ev_gate :: "string \<Rightarrow> srv_session Connection \<Rightarrow> bool"
  ev_deliver :: "string \<Rightarrow> bytes \<Rightarrow> bool" \<comment> \<open>\<open>send_message\<close> of the transport returns\<close>
  ev_new_tunnel :: 't
  ev_feed :: "'t \<Rightarrow> bytes \<Rightarrow> ('t \<times> bytes) option"
  ev_handshake :: "'t \<Rightarrow> ('t \<times> bytes) option"
  ev_write :: "'t \<Rightarrow> bytes \<Rightarrow> ('t \<times> bytes) option"

datatype 'm action =
    Sent string bytes \<comment> \<open>a frame handed to the transport for that client\<close>
  | Routed "'m route_event list"
  | Dispatched string
  | ConnectHooks string
  | DisconnectHooks string
  | BinaryHandler string string bytes

section \<open>Steps of the server\<close>

definition rust_send :: "('m, 'h, 't) server_env \<Rightarrow> string \<Rightarrow> bytes \<Rightarrow> ('s, 'm action, unit) srv" where
  "rust_send ev k bs s = (s, [Sent k bs], if ev_deliver ev k bs then Some () else None)"

text \<open>A frame from the server's encoder: an encoding error is an exception.\<close>

definition encoded ::
  "(ProtocolEncoder \<Rightarrow> (encode_error + bytes) \<times> ProtocolEncoder) \<Rightarrow> (('m, 'h, 't) Server, 'm action, bytes) srv" where
  "encoded f s =
     (case f (sv_encoder s) of
        (Inl x, e) \<Rightarrow> (s\<lparr>sv_encoder := e\<rparr>, [], None)
      | (Inr bs, e) \<Rightarrow> (s\<lparr>sv_encoder := e\<rparr>, [], Some bs))"

text \<open>A change to the connection object, which the pool shows under its id while it holds it.\<close>

definition put_conn :: "srv_session Connection \<Rightarrow> ('m, 'h, 't) Server \<Rightarrow> ('m, 'h, 't) Server" where
  "put_conn c s =
     (if dict_has (pl_connections (sv_pool s)) (cn_id c)
      then s\<lparr>sv_pool := (sv_pool s)\<lparr>pl_connections :=
               AList.update (cn_id c) c (pl_connections (sv_pool s))\<rparr>\<rparr>
      else s)"

text \<open>A send of the connection: it counts the frame, whether or not the transport takes it.\<close>

definition conn_send ::
  "(ProtocolEncoder \<Rightarrow> srv_session Connection
      \<Rightarrow> ProtocolEncoder \<times> srv_session Connection \<times> (send_error + unit) \<times> frames)
     \<Rightarrow> srv_session Connection \<Rightarrow> (('m, 'h, 't) Server, 'm action, unit) srv" where
  "conn_send f c s =
     (case f (sv_encoder s) c of
        (e, c', r, fs) \<Rightarrow>
          (put_conn c' (s\<lparr>sv_encoder := e\<rparr>), map (\<lambda>(k, bs). Sent k bs) fs,
           case r of Inl x \<Rightarrow> None | Inr u \<Rightarrow> Some ()))"

definition remove_from_pool :: "string \<Rightarrow> (('m, 'h, 't) Server, 'm action, unit) srv" where
  "remove_from_pool k s =
     (case pool_remove k (sv_pool s) of
        None \<Rightarrow> (s, [], None)
      | Some (p, b) \<Rightarrow> (s\<lparr>sv_pool := p\<rparr>, [], Some ()))"

section \<open>Lifecycle of connections\<close>

definition run_connect_hooks :: "srv_session Connection \<Rightarrow> (('m, 'h, 't) Server, 'm action, unit) srv" where
  "run_connect_hooks c = s_act (ConnectHooks (cn_id c))"

definition handle_client_disconnect_hook :: "string \<Rightarrow> (('m, 'h, 't) Server, 'm action, unit) srv" where
  "handle_client_disconnect_hook k =
     s_then (s_put (\<lambda>s. s\<lparr>sv_limiters := AList.delete k (sv_limiters s)\<rparr>)) (s_act (DisconnectHooks k))"

text \<open>A connection whose pool is full is not added; the transport connection stays.\<close>

definition process_connect :: "string \<Rightarrow> time \<Rightarrow> (('m, 'h, 't) Server, 'm action, unit) srv" where
  "process_connect k now s =
     (let c = new_connection k [] now
      in case pool_add (\<lambda>_ p. Some (p, False)) c (sv_pool s) of
           None \<Rightarrow> (s, [], None)
         | Some (p, added) \<Rightarrow>
             (s\<lparr>sv_pool := p\<rparr>,
              if added = Some True \<and> pl_on_connect (sv_pool s) then [ConnectHooks k] else [], Some ()))"

definition process_disconnect :: "string \<Rightarrow> (('m, 'h, 't) Server, 'm action, unit) srv" where
  "process_disconnect k =
     s_then (s_put (\<lambda>s. s\<lparr>sv_heartbeat := hm_unregister k (sv_heartbeat s)\<rparr>)) (remove_from_pool k)"

definition handle_stale_connection ::
  "('m, 'h, 't) server_env \<Rightarrow> bool \<Rightarrow> string \<Rightarrow> time \<Rightarrow> (('m, 'h, 't) Server, 'm action, unit) srv" where
  "handle_stale_connection ev link_up k now =
     s_then (s_put (\<lambda>s. s\<lparr>sv_heartbeat := hm_unregister k (sv_heartbeat s)\<rparr>))
    (s_then
       (if link_up then
          catch (s_bind (encoded (\<lambda>e. encode_close (ev_codec ev) e ''heartbeat timeout'' now))
                  (rust_send ev k))
        else s_ret ())
       (process_disconnect k))"

section \<open>Authentication\<close>

definition auth_fail ::
  "('m, 'h, 't) server_env \<Rightarrow> string \<Rightarrow> string \<Rightarrow> time \<Rightarrow> (('m, 'h, 't) Server, 'm action, unit) srv" where
  "auth_fail ev k reason now =
     s_then (s_bind (encoded (\<lambda>e. encode_auth_failure (ev_codec ev) e reason now)) (rust_send ev k))
       (remove_from_pool k)"

definition admin_profile :: UserProfile where
  "admin_profile = \<lparr>up_username = ''admin'', up_roles = [''admin''], up_permissions = [''read'', ''write'']\<rparr>"

text \<open>
  Who the request authenticates: the outer None is an exception (a hash that is not a string, or
  not ASCII), \<open>Inl\<close> a failure with its reason, \<open>Inr\<close> the token, the name and the profile, and
  whether the token is the one the client came with.
\<close>

definition auth_decision ::
  "crypto \<Rightarrow> pyval \<Rightarrow> (string, pyval) dict \<Rightarrow> string \<Rightarrow> ('m, 'h, 't) Server
     \<Rightarrow> (string + (string \<times> pyval \<times> UserProfile option \<times> bool)) option" where
  "auth_decision cr password_hash client_info uid s =
     (let username = dict_get client_info ''username'';
          resumed = (case dict_get client_info ''session_token'' of
             PStr t \<Rightarrow> if t \<noteq> [] then map_option (\<lambda>v. (t, v)) (map_of (sv_valid_sessions s) t) else None
           | _ \<Rightarrow> None)
      in case resumed of
           Some (t, user, profile) \<Rightarrow> Some (Inr (t, user, profile, True))
         | None \<Rightarrow>
             (case (case (sv_credentials s, username) of
                      (Some cm, PStr u) \<Rightarrow> if u \<noteq> [] then Some (cm, u) else None
                    | _ \<Rightarrow> None) of
                Some (cm, u) \<Rightarrow>
                  if (case password_hash of PStr h \<Rightarrow> credentials_verify u h cm | _ \<Rightarrow> False)
                  then Some (Inr (uid, username, get_profile u cm, False))
                  else Some (Inl ''Invalid credentials'')
              | None \<Rightarrow>
                  (case password_hash of
                     PStr h \<Rightarrow>
                       (case verify_simple cr h (sv_auth s) of
                          None \<Rightarrow> None
                        | Some False \<Rightarrow> Some (Inl ''Invalid password'')
                        | Some True \<Rightarrow> Some (Inr (uid, username, Some admin_profile, False)))
                   | _ \<Rightarrow> None)))"

definition auth_accept ::
  "('m, 'h, 't) server_env \<Rightarrow> srv_session Connection \<Rightarrow> string \<Rightarrow> (string, pyval) dict \<Rightarrow> string \<Rightarrow> pyval
     \<Rightarrow> UserProfile option \<Rightarrow> bool \<Rightarrow> time \<Rightarrow> (('m, 'h, 't) Server, 'm action, unit) srv" where
  "auth_accept ev c k client_info token user profile resumed now =
     (let session = \<lparr>ss_session = new_session token k client_info now, ss_profile = profile\<rparr>;
          c' = set_session session c
      in s_then (s_put (\<lambda>s. if resumed then s
                  else s\<lparr>sv_valid_sessions := AList.update token (user, profile) (sv_valid_sessions s)\<rparr>))
        (s_then (s_put (put_conn c'))
        (s_then (s_bind (s_get (\<lambda>s. [(''name'', PStr (sv_name s)), (''version'', PStr (sv_version s))]))
                  (\<lambda>info. s_bind (encoded (\<lambda>e. encode_auth_success (ev_codec ev) e token info now))
                     (rust_send ev k)))
        (s_then (s_put (\<lambda>s. s\<lparr>sv_heartbeat := hm_register now k (sv_heartbeat s)\<rparr>))
        (s_bind (s_get (\<lambda>s. pl_on_connect (sv_pool s)))
          (\<lambda>hooked. if hooked then run_connect_hooks c' else s_ret ()))))))"

definition process_auth_request ::
  "('m, 'h, 't) server_env \<Rightarrow> string \<Rightarrow> srv_session Connection \<Rightarrow> pyval \<Rightarrow> time \<Rightarrow> string
     \<Rightarrow> (('m, 'h, 't) Server, 'm action, unit) srv" where
  "process_auth_request ev k c payload now uid =
     (case payload of
        PDict d \<Rightarrow>
          (case (if dict_has d ''client_info'' then dict_get d ''client_info'' else PDict []) of
             PDict client_info \<Rightarrow>
               s_bind (s_bind (s_get (auth_decision (ev_crypto ev)
                         (dict_get_default d ''password_hash'' (PStr [])) client_info uid)) s_opt)
                 (\<lambda>r. case r of
                    Inl reason \<Rightarrow> auth_fail ev k reason now
                  | Inr (token, user, profile, resumed) \<Rightarrow>
                      auth_accept ev c k client_info token user profile resumed now)
           | _ \<Rightarrow> s_fail)
      | _ \<Rightarrow> s_fail)"

section \<open>Mesh packets\<close>

text \<open>A mesh packet of the server, wrapping an already serialised value.\<close>

definition mesh_packet ::
  "('m, 'h, 't) server_env \<Rightarrow> string \<Rightarrow> bytes \<Rightarrow> string \<Rightarrow> time \<Rightarrow> (('m, 'h, 't) Server, 'm action, bytes) srv" where
  "mesh_packet ev t payload dst now =
     s_bind (s_opt (ser_MessagePayload (ev_codec ev) \<lparr>mp_type = t, mp_data = payload\<rparr>))
       (\<lambda>inner. s_bind (s_get sv_name)
         (\<lambda>name. encoded (\<lambda>e. encode (ev_codec ev) e MESSAGE inner None 0 (Some name) (Some dst) True now)))"

definition mesh_reply ::
  "('m, 'h, 't) server_env \<Rightarrow> string \<Rightarrow> bytes \<Rightarrow> string \<Rightarrow> string \<Rightarrow> time \<Rightarrow> (('m, 'h, 't) Server, 'm action, unit) srv" where
  "mesh_reply ev t payload src k now =
     s_bind (mesh_packet ev t payload src now)
       (\<lambda>packet. s_bind (s_get (\<lambda>s. case map_of (sv_mesh_routing s) src of None \<Rightarrow> k | Some h \<Rightarrow> h))
         (\<lambda>target. rust_send ev target packet))"

definition put_tunnel :: "string \<Rightarrow> 't \<Rightarrow> (('m, 'h, 't) Server, 'm action, unit) srv" where
  "put_tunnel src t = s_put (\<lambda>s. s\<lparr>sv_mesh_tunnels := AList.update src t (sv_mesh_tunnels s)\<rparr>)"

definition mesh_handshake ::
  "('m, 'h, 't) server_env \<Rightarrow> string \<Rightarrow> DecodedMessage \<Rightarrow> time \<Rightarrow> (('m, 'h, 't) Server, 'm action, unit) srv" where
  "mesh_handshake ev k m now =
     (let src = dm_route_src m
      in s_bind (s_get (\<lambda>s. case map_of (sv_mesh_tunnels s) src of
                          None \<Rightarrow> ev_new_tunnel ev | Some t \<Rightarrow> t))
        (\<lambda>t. s_then (put_tunnel src t)
          (case tunnel_bytes (get_data m) of
             Some b \<Rightarrow>
               s_bind (s_opt (ev_feed ev t b))
                 (\<lambda>(t1, plain). s_then (put_tunnel src t1)
                   (s_bind (s_opt (ev_handshake ev t1))
                     (\<lambda>(t2, out). s_then (put_tunnel src t2)
                       (if out \<noteq> [] then mesh_reply ev ''mesh_handshake'' out src k now else s_ret ()))))
           | None \<Rightarrow> s_fail)))"

text \<open>The text of a message type; concatenating to None is a TypeError.\<close>

definition response_type :: "pyval \<Rightarrow> string option" where
  "response_type t = (case t of PStr x \<Rightarrow> Some (x @ ''_response'') | _ \<Rightarrow> None)"

text \<open>A message without a type finds no handlers of its own, only the default one.\<close>

definition route_message ::
  "('m, 'h, 't) server_env \<Rightarrow> srv_session Connection \<Rightarrow> pyval \<Rightarrow> pyval \<Rightarrow> bool
     \<Rightarrow> (('m, 'h, 't) Server, 'm action, pyval) srv" where
  "route_message ev c t v authenticated s =
     (case (case t of
              PStr name \<Rightarrow> route (\<lambda>h. ev_msg ev h c v) (sv_router s) name authenticated
            | _ \<Rightarrow> route (\<lambda>h. ev_msg ev h c v) ((sv_router s)\<lparr>mr_handlers := []\<rparr>) [] authenticated) of
        (evs, Returned r) \<Rightarrow> (s, [Routed evs], Some r)
      | (evs, _) \<Rightarrow> (s, [Routed evs], None))"

definition mesh_secure ::
  "('m, 'h, 't) server_env \<Rightarrow> string \<Rightarrow> srv_session Connection \<Rightarrow> DecodedMessage \<Rightarrow> time
     \<Rightarrow> (('m, 'h, 't) Server, 'm action, unit) srv" where
  "mesh_secure ev k c m now =
     (let src = dm_route_src m
      in s_bind (s_get (\<lambda>s. map_of (sv_mesh_tunnels s) src))
        (\<lambda>tunnel. case tunnel of
           None \<Rightarrow> s_ret ()
         | Some t \<Rightarrow>
             (case tunnel_bytes (get_data m) of
                Some b \<Rightarrow>
                  s_bind (s_opt (ev_feed ev t b))
                    (\<lambda>(t1, plain). s_then (put_tunnel src t1)
                      (case decode_single (ev_codec ev) plain of
                         Inl x \<Rightarrow> s_fail
                       | Inr inner \<Rightarrow>
                           s_bind (route_message ev c (get_message_type_str inner) (get_data inner) True)
                             (\<lambda>response. if response = PNone then s_ret ()
                                else s_bind (s_opt (response_type (get_message_type_str inner)))
                                  (\<lambda>rt. s_bind (encoded (\<lambda>e. encode_message (ev_codec ev) e rt response None now))
                                    (\<lambda>encoded_res. s_bind (s_opt (ev_write ev t1 encoded_res))
                                      (\<lambda>(t2, out). s_then (put_tunnel src t2)
                                        (mesh_reply ev ''mesh_secure'' out src k now)))))))
              | None \<Rightarrow> s_fail)))"

text \<open>The connection a relayed packet goes to: by id, by the name it gave, or by the next hop.\<close>

definition relay_target :: "string \<Rightarrow> ('m, 'h, 't) Server \<Rightarrow> srv_session Connection option" where
  "relay_target dst s =
     (case pool_get dst (sv_pool s) of
        Some c \<Rightarrow> Some c
      | None \<Rightarrow>
          (case find (\<lambda>c. case cn_session c of
                 None \<Rightarrow> False
               | Some ss \<Rightarrow> se_client_info (ss_session ss) \<noteq> []
                   \<and> dict_get (se_client_info (ss_session ss)) ''name'' = PStr dst)
               (pool_get_all (sv_pool s)) of
             Some c \<Rightarrow> Some c
           | None \<Rightarrow>
               (case map_of (sv_mesh_routing s) dst of
                  Some hop \<Rightarrow> if hop \<noteq> [] then pool_get hop (sv_pool s) else None
                | None \<Rightarrow> None)))"

text \<open>True: the packet has been dealt with; False: it goes on to the checks below.\<close>

definition process_mesh ::
  "('m, 'h, 't) server_env \<Rightarrow> string \<Rightarrow> srv_session Connection \<Rightarrow> DecodedMessage \<Rightarrow> bytes \<Rightarrow> time
     \<Rightarrow> (('m, 'h, 't) Server, 'm action, bool) srv" where
  "process_mesh ev k c m raw_payload now =
     s_then (s_put (\<lambda>s. if dm_route_src m \<noteq> [] \<and> dm_route_src m \<noteq> k
               then s\<lparr>sv_mesh_routing := AList.update (dm_route_src m) k (sv_mesh_routing s)\<rparr> else s))
    (s_bind (s_get sv_name)
      (\<lambda>name. if dm_route_dst m = name then
           (if get_message_type_str m = PStr ''mesh_handshake''
            then s_then (mesh_handshake ev k m now) (s_ret True)
            else if get_message_type_str m = PStr ''mesh_secure''
            then s_then (mesh_secure ev k c m now) (s_ret True)
            else s_ret False)
         else s_bind (s_get (relay_target (dm_route_dst m)))
           (\<lambda>target. case target of
              None \<Rightarrow> s_ret True
            | Some d \<Rightarrow> s_then (rust_send ev (cn_id d) raw_payload) (s_ret True))))"

section \<open>Requests and messages\<close>

definition rate_check ::
  "srv_session Connection \<Rightarrow> DecodedMessage \<Rightarrow> time \<Rightarrow> (('m, 'h, 't) Server, 'm action, bool) srv" where
  "rate_check c m now s =
     (if \<not> rlc_enabled (sv_rate_config s) then (s, [], Some True)
      else
        (let limiter = (case map_of (sv_limiters s) (cn_id c) of
                          None \<Rightarrow> create_limiter now (sv_rate_config s) | Some r \<Rightarrow> r)
         in case try_acquire (length (dm_raw_payload m)) now limiter of
              (r, allowed) \<Rightarrow>
                (s\<lparr>sv_limiters := AList.update (cn_id c) r (sv_limiters s)\<rparr>, [], Some allowed)))"

text \<open>The reason a request is refused by the gates of its method.\<close>

definition gate_refusal ::
  "('m, 'h, 't) server_env \<Rightarrow> srv_session Connection \<Rightarrow> string \<Rightarrow> ('m, 'h, 't) Server \<Rightarrow> string option" where
  "gate_refusal ev c meth s =
     (if rpc_get (sv_registry s) meth = None then None
      else case map_of (sv_gates s) meth of
        None \<Rightarrow> None
      | Some g \<Rightarrow>
          (let profile = (case cn_session c of None \<Rightarrow> None | Some ss \<Rightarrow> ss_profile ss);
               lacks = (\<lambda>need has. case need of
                 None \<Rightarrow> False
               | Some r \<Rightarrow> r \<noteq> [] \<and> (case profile of None \<Rightarrow> True | Some p \<Rightarrow> \<not> has p r))
           in if mg_gate g \<and> \<not> ev_gate ev meth c then Some ''Access denied by gating rules''
              else if lacks (mg_requires_role g) has_role
              then Some (''Required role '' @ CHR 0x27 # the (mg_requires_role g) @ CHR 0x27 # '' is missing'')
              else if lacks (mg_requires_permission g) has_permission
              then Some (''Required permission '' @ CHR 0x27 # the (mg_requires_permission g) @ CHR 0x27 # '' is missing'')
              else None))"

text \<open>The answer that a dispatched response is sent as; None: a field of the wrong type.\<close>

definition send_dispatched ::
  "('m, 'h, 't) server_env \<Rightarrow> srv_session Connection \<Rightarrow> int \<Rightarrow> (string, pyval) dict \<Rightarrow> time
     \<Rightarrow> (('m, 'h, 't) Server, 'm action, unit) srv" where
  "send_dispatched ev c corr response now =
     (if truthy (dict_get_default response ''success'' (PBool False)) then
        conn_send (send_rpc_response (ev_codec ev) (ev_deliver ev (cn_client_id c))
          (if dict_has response ''result'' then dict_get response ''result''
           else dict_get response ''data'') corr now) c
      else
        (case (proto_text (dict_get_default response ''error'' (PStr ''Unknown RPC error'')),
               error_code_value (dict_get response ''code'')) of
           (Some msg, Some code) \<Rightarrow>
             conn_send (send_rpc_error (ev_codec ev) (ev_deliver ev (cn_client_id c)) msg corr
               (Some code) now) c
         | _ \<Rightarrow> s_fail))"

definition process_rpc_request ::
  "('m, 'h, 't) server_env \<Rightarrow> srv_session Connection \<Rightarrow> DecodedMessage \<Rightarrow> time
     \<Rightarrow> (('m, 'h, 't) Server, 'm action, unit) srv" where
  "process_rpc_request ev c m now =
     (case get_rpc_method m of
        PStr meth \<Rightarrow>
          s_bind (s_get (gate_refusal ev c meth))
            (\<lambda>refusal. case refusal of
               Some msg \<Rightarrow>
                 conn_send (send_rpc_error (ev_codec ev) (ev_deliver ev (cn_client_id c)) msg
                   (dm_correlation_id m) (Some 403) now) c
             | None \<Rightarrow>
                 s_then (s_act (Dispatched meth))
                   (s_bind (s_bind (s_get (\<lambda>s. dispatch (ev_rpc ev) (sv_registry s) meth
                              (get_rpc_params m) (is_authenticated c))) s_opt)
                     (\<lambda>response. send_dispatched ev c (dm_correlation_id m) response now)))
      | _ \<Rightarrow> s_fail)"

definition process_routed_message ::
  "('m, 'h, 't) server_env \<Rightarrow> srv_session Connection \<Rightarrow> DecodedMessage \<Rightarrow> time
     \<Rightarrow> (('m, 'h, 't) Server, 'm action, unit) srv" where
  "process_routed_message ev c m now =
     s_bind (route_message ev c (get_message_type_str m) (get_data m) (is_authenticated c))
       (\<lambda>response. if response = PNone then s_ret ()
          else s_bind (s_opt (response_type (get_message_type_str m)))
            (\<lambda>rt. conn_send (send_message (ev_codec ev) (ev_deliver ev (cn_client_id c)) rt response now) c))"

text \<open>What is left of \<open>_process_message\<close> once the sender is known to be authenticated.\<close>

definition process_authenticated ::
  "('m, 'h, 't) server_env \<Rightarrow> string \<Rightarrow> srv_session Connection \<Rightarrow> DecodedMessage \<Rightarrow> time
     \<Rightarrow> (('m, 'h, 't) Server, 'm action, unit) srv" where
  "process_authenticated ev k c m now =
     s_bind (rate_check c m now)
       (\<lambda>allowed. if \<not> allowed then s_ret ()
          else
            (case handle_decoded_message m c of
               (c', intercepted) \<Rightarrow>
                 s_then (s_put (put_conn c'))
                   (if intercepted then s_ret ()
                    else if dm_message_type m = RPC_REQUEST then process_rpc_request ev c' m now
                    else if dm_message_type m = HEARTBEAT_PONG then
                      s_put (\<lambda>s. s\<lparr>sv_heartbeat := hm_record_pong now k (sv_heartbeat s)\<rparr>)
                    else if dm_message_type m = HEARTBEAT_PING then
                      s_bind (encoded (\<lambda>e. encode_heartbeat_pong (ev_codec ev) e now)) (rust_send ev k)
                    else if dm_message_type m = MESSAGE then process_routed_message ev c' m now
                    else s_ret ())))"

definition process_message ::
  "('m, 'h, 't) server_env \<Rightarrow> string \<Rightarrow> DecodedMessage \<Rightarrow> bytes \<Rightarrow> time \<Rightarrow> string
     \<Rightarrow> (('m, 'h, 't) Server, 'm action, unit) srv" where
  "process_message ev k m raw_payload now uid =
     s_bind (s_get (\<lambda>s. pool_get k (sv_pool s)))
       (\<lambda>found. case found of
          None \<Rightarrow> s_ret ()
        | Some c \<Rightarrow>
            if dm_message_type m = AUTH_REQUEST
            then process_auth_request ev k c (dm_payload m) now uid
            else s_bind (if dm_is_mesh m then process_mesh ev k c m raw_payload now else s_ret False)
              (\<lambda>handled. if handled then s_ret ()
                 else if \<not> is_authenticated c then s_ret ()
                 else process_authenticated ev k c m now))"

text \<open>The two halves of a binary stream: a length-prefixed UTF-8 name and the data.\<close>

definition split_binary_stream :: "bytes \<Rightarrow> (bytes \<times> bytes) option" where
  "split_binary_stream payload =
     (if length payload < 4 then None
      else let n = from_be (take 4 payload)
           in if length payload < 4 + n then None
              else Some (take n (drop 4 payload), drop (4 + n) payload))"

definition process_binary_stream :: "string \<Rightarrow> bytes \<Rightarrow> (('m, 'h, 't) Server, 'm action, unit) srv" where
  "process_binary_stream k payload =
     (case split_binary_stream payload of
        None \<Rightarrow> s_ret ()
      | Some (name, dat) \<Rightarrow>
          s_bind (s_opt (utf8_decode name))
            (\<lambda>stream_name. s_bind (s_get sv_binary_handler)
              (\<lambda>h. if h then s_act (BinaryHandler k stream_name dat) else s_ret ())))"

section \<open>The events of the transport\<close>

datatype server_event =
    Connect string
  | Disconnect string
  | MessageEvent string bytes
  | BinaryStream string bytes
  | StaleEvent string bool

text \<open>
  One event, handled to its end; a message that does not decode is only logged.  \<open>uid\<close> is the
  \<open>uuid4\<close> drawn should a session be made.
\<close>

definition handle_event ::
  "('m, 'h, 't) server_env \<Rightarrow> server_event \<Rightarrow> time \<Rightarrow> string \<Rightarrow> (('m, 'h, 't) Server, 'm action, unit) srv" where
  "handle_event ev q now uid =
     (case q of
        Connect k \<Rightarrow> process_connect k now
      | Disconnect k \<Rightarrow> process_disconnect k
      | MessageEvent k payload \<Rightarrow>
          (case decode_single (ev_codec ev) payload of
             Inl x \<Rightarrow> s_ret ()
           | Inr m \<Rightarrow> process_message ev k m payload now uid)
      | BinaryStream k payload \<Rightarrow> process_binary_stream k payload
      | StaleEvent k link_up \<Rightarrow> handle_stale_connection ev link_up k now)"

section \<open>Lifecycle\<close>

text \<open>The broker's three handlers; their bodies are values of the handler type.\<close>

definition setup_p2p_handlers :: "'m \<Rightarrow> 'm \<Rightarrow> 'm \<Rightarrow> 'm MessageRouter \<Rightarrow> 'm MessageRouter" where
  "setup_p2p_handlers request accept punch r =
     router_register ''p2p_punch_source'' punch True 0
       (router_register ''p2p_accept'' accept True 0
         (router_register ''p2p_request'' request True 0 r))"

definition new_server ::
  "crypto \<Rightarrow> 'm \<Rightarrow> 'm \<Rightarrow> 'm \<Rightarrow> string \<Rightarrow> string \<Rightarrow> string \<Rightarrow> time \<Rightarrow> bytes \<Rightarrow> int \<Rightarrow> bool \<Rightarrow> RateLimitConfig \<Rightarrow> time \<Rightarrow> time
     \<Rightarrow> ('m, 'h, 't) Server" where
  "new_server cr request accept punch name version password timeout salt max_connections compression rate hb_ival hb_tmo =
     \<lparr>sv_name = name, sv_version = version, sv_auth = new_auth_handler cr password timeout salt,
      sv_valid_sessions = [], sv_pool = new_pool max_connections,
      sv_router = setup_p2p_handlers request accept punch new_router,
      sv_registry = new_registry, sv_gates = [], sv_encoder = new_encoder compression,
      sv_rate_config = rate, sv_limiters = [], sv_credentials = None, sv_mesh_tunnels = [],
      sv_mesh_routing = [], sv_heartbeat = new_heartbeat_manager hb_ival hb_tmo 3 True,
      sv_binary_handler = False, sv_state = CREATED, sv_running = False\<rparr>"

text \<open>\<open>start\<close>: hooks, the pool's callbacks, the transport and the heartbeat; nothing if it runs.\<close>

definition server_start :: "('m, 'h, 't) Server \<Rightarrow> ('m, 'h, 't) Server" where
  "server_start s =
     (if sv_running s then s
      else s\<lparr>sv_pool := pool_set_callbacks True True (sv_pool s), sv_running := True,
             sv_state := RUNNING, sv_heartbeat := fst (hm_start (sv_heartbeat s))\<rparr>)"

definition server_stop :: "('m, 'h, 't) Server \<Rightarrow> ('m, 'h, 't) Server \<times> 'm action list \<times> unit option" where
  "server_stop s =
     (if \<not> sv_running s then (s, [], Some ())
      else
        (let s1 = s\<lparr>sv_running := False, sv_state := STOPPING, sv_heartbeat := hm_stop (sv_heartbeat s)\<rparr>
         in case close_all (sv_pool s1) of
              None \<Rightarrow> (s1, [], None)
            | Some (p, evs) \<Rightarrow>
                (s1\<lparr>sv_pool := p, sv_limiters := [], sv_state := CLOSED\<rparr>,
                 concat (map (\<lambda>x. case x of PoolCallback k \<Rightarrow> [DisconnectHooks k] | UserCalled u k \<Rightarrow> []) evs),
                 Some ())))"

text \<open>The decorator \<open>rpc\<close>: registers, and hangs the gates on the method.\<close>

definition server_rpc ::
  "('h \<Rightarrow> handler_info) \<Rightarrow> 'h \<Rightarrow> string option \<Rightarrow> bool \<Rightarrow> method_gates
     \<Rightarrow> ('m, 'h, 't) Server \<Rightarrow> ('m, 'h, 't) Server option" where
  "server_rpc info h name requires_auth gates s =
     (case rpc_register info h name requires_auth (sv_registry s) of
        None \<Rightarrow> None
      | Some (reg, m) \<Rightarrow>
          Some (s\<lparr>sv_registry := reg, sv_gates := AList.update (rm_name m) gates (sv_gates s)\<rparr>))"

text \<open>The decorator \<open>on\<close>: the wrapped handler checks the gate, the role and the permission first.\<close>

definition wrapped_handler ::
  "(srv_session Connection \<Rightarrow> bool) option \<Rightarrow> string option \<Rightarrow> string option
     \<Rightarrow> (srv_session Connection \<Rightarrow> pyval \<Rightarrow> outcome) \<Rightarrow> srv_session Connection \<Rightarrow> pyval \<Rightarrow> outcome" where
  "wrapped_handler gate requires_role requires_permission handler c v =
     (let profile = (case cn_session c of None \<Rightarrow> None | Some ss \<Rightarrow> ss_profile ss);
          lacks = (\<lambda>need has. case need of
            None \<Rightarrow> False
          | Some r \<Rightarrow> r \<noteq> [] \<and> (case profile of None \<Rightarrow> True | Some p \<Rightarrow> \<not> has p r));
          denied = (\<lambda>msg. Returned (PDict [(''success'', PBool False), (''error'', PStr msg)]))
      in if (case gate of None \<Rightarrow> False | Some g \<Rightarrow> \<not> g c)
         then denied ''Access denied by gating rules''
         else if lacks requires_role has_role
         then denied (''Required role '' @ CHR 0x27 # the requires_role @ CHR 0x27 # '' is missing'')
         else if lacks requires_permission has_permission
         then denied (''Required permission '' @ CHR 0x27 # the requires_permission @ CHR 0x27 # '' is missing'')
         else handler c v)"

definition server_broadcast ::
  "('m, 'h, 't) server_env \<Rightarrow> string \<Rightarrow> pyval \<Rightarrow> string set \<Rightarrow> time \<Rightarrow> (('m, 'h, 't) Server, 'm action, nat) srv" where
  "server_broadcast ev t v exclude now s =
     (case pool_broadcast (ev_codec ev) (ev_deliver ev) t v exclude now (sv_encoder s) (sv_pool s) of
        (e, p, n, fs) \<Rightarrow>
          (s\<lparr>sv_encoder := e, sv_pool := p\<rparr>, map (\<lambda>(k, bs). Sent k bs) fs, Some n))"

end
