(* ===== verification/ServerProofs.thy ===== *)
theory ServerProofs
  imports Server
begin

text \<open>
  What holds of the server of \<open>src/conduit/server.py\<close>: who becomes authenticated and how, what an
  unauthenticated connection can and cannot make it do, and the gates of RPC methods.
\<close>

section \<open>The part of the state that says who is authenticated\<close>

definition srv_key :: "('m, 'h, 't) Server \<Rightarrow> srv_session ConnectionPool \<times> (string, pyval \<times> UserProfile option) dict" where
  "srv_key s = (sv_pool s, sv_valid_sessions s)"

text \<open>A step that leaves this part alone.\<close>

abbreviation frame_step :: "(('m, 'h, 't) Server, 'm action, 'a) srv \<Rightarrow> bool" where
  "frame_step \<equiv> frame_on srv_key"

lemma frame_server:
  "frame_step (rust_send ev k bs)" "frame_step (encoded e)"
  by (simp_all add: frame_on_def rust_send_def encoded_def srv_key_def split_def split: sum.split)

lemmas frame_rules = frame_bind frame_then frame_basic frame_server

lemma frame_put_tunnel: "frame_step (put_tunnel src t)"
  unfolding put_tunnel_def by (rule frame_put) (simp add: srv_key_def)

lemma frame_mesh_reply: "frame_step (mesh_reply ev t payload src k now)"
  unfolding mesh_reply_def mesh_packet_def by (intro frame_rules)

lemma frame_route_message: "frame_step (route_message ev c t v a)"
  by (auto simp: frame_on_def route_message_def split: pyval.split prod.split outcome.split)

lemma frame_mesh_handshake: "frame_step (mesh_handshake ev k m now)"
  unfolding mesh_handshake_def Let_def
  by (auto simp: split_def intro!: frame_rules frame_put_tunnel frame_mesh_reply split: option.split)

lemma frame_mesh_secure: "frame_step (mesh_secure ev k c m now)"
  unfolding mesh_secure_def Let_def
  by (auto simp: split_def intro!: frame_rules frame_put_tunnel frame_mesh_reply frame_route_message
      split: pyval.split option.split sum.split)

lemma frame_process_mesh: "frame_step (process_mesh ev k c m raw now)"
  unfolding process_mesh_def
  by (auto intro!: frame_rules frame_put frame_mesh_handshake frame_mesh_secure simp: srv_key_def
      split: option.split)

lemma frame_rate_check: "frame_step (rate_check c m now)"
  by (auto simp: frame_on_def rate_check_def srv_key_def Let_def split: prod.split)

lemma put_conn_keeps [simp]:
  "sv_registry (put_conn c s) = sv_registry s" "sv_encoder (put_conn c s) = sv_encoder s"
  "sv_gates (put_conn c s) = sv_gates s" "sv_name (put_conn c s) = sv_name s"
  "sv_version (put_conn c s) = sv_version s" "sv_valid_sessions (put_conn c s) = sv_valid_sessions s"
  "pl_on_connect (sv_pool (put_conn c s)) = pl_on_connect (sv_pool s)"
  "sv_heartbeat (put_conn c s) = sv_heartbeat s"
  by (simp_all add: put_conn_def)

lemma put_conn_found: "pool_get (cn_id c) (sv_pool s) \<noteq> None \<Longrightarrow> pool_get (cn_id c) (sv_pool (put_conn c s)) = Some c"
  by (auto simp: put_conn_def pool_get_def dict_has_def update_conv')

section \<open>An invariant of the authenticated connections\<close>

definition has_token :: "('m, 'h, 't) Server \<Rightarrow> srv_session Connection \<Rightarrow> bool" where
  "has_token s c =
     (is_authenticated c \<longrightarrow>
        (\<exists>ss. cn_session c = Some ss \<and> dict_has (sv_valid_sessions s) (se_token (ss_session ss))))"

definition authed :: "('m, 'h, 't) Server \<Rightarrow> string set" where
  "authed s = {k. \<exists>c. pool_get k (sv_pool s) = Some c \<and> is_authenticated c}"

text \<open>
  The pool is in order, what is authenticated has a session of the server's table, and only the
  connections of \<open>A\<close> are; the connection object \<open>c\<close> in hand obeys the same.
\<close>

definition srv_inv :: "int \<Rightarrow> string set \<Rightarrow> ('m, 'h, 't) Server \<Rightarrow> bool" where
  "srv_inv n A s = (pool_ok n (sv_pool s) \<and> authed s \<subseteq> A
     \<and> (\<forall>k c. pool_get k (sv_pool s) = Some c \<longrightarrow> has_token s c))"

definition in_hand :: "string set \<Rightarrow> srv_session Connection \<Rightarrow> ('m, 'h, 't) Server \<Rightarrow> bool" where
  "in_hand A c s = (has_token s c \<and> (is_authenticated c \<longrightarrow> cn_id c \<in> A))"

definition good :: "int \<Rightarrow> string set \<Rightarrow> srv_session Connection \<Rightarrow> ('m, 'h, 't) Server \<Rightarrow> bool" where
  "good n A c s = (srv_inv n A s \<and> in_hand A c s)"

lemma good_key: "srv_key s' = srv_key s \<Longrightarrow> good n A c s' = good n A c s"
proof -
  assume "srv_key s' = srv_key s"
  then have "sv_pool s' = sv_pool s" "sv_valid_sessions s' = sv_valid_sessions s"
    by (simp_all add: srv_key_def)
  then show ?thesis
    unfolding good_def srv_inv_def in_hand_def has_token_def authed_def by (simp only:)
qed

lemma keeps_frame: "frame_on srv_key m \<Longrightarrow> keeps (good n A c) m"
  unfolding keeps_def frame_on_def using good_key by blast

lemma pool_get_update:
  "pool_get j (p\<lparr>pl_connections := AList.update k c (pl_connections p)\<rparr>) =
     (if j = k then Some c else pool_get j p)"
  by (simp add: pool_get_def update_conv')

text \<open>The same connection, seen by the checks: only counters and pending calls may differ.\<close>

definition same_conn :: "srv_session Connection \<Rightarrow> srv_session Connection \<Rightarrow> bool" where
  "same_conn c d = (cn_id d = cn_id c \<and> cn_session d = cn_session c
     \<and> cn_authenticated d = cn_authenticated c)"

lemma in_hand_same: "same_conn c d \<Longrightarrow> in_hand A d s = in_hand A c s"
  by (simp add: in_hand_def has_token_def is_authenticated_def same_conn_def)

lemma pool_ok_put:
  assumes "pool_ok n p" and "dict_has (pl_connections p) (cn_id c)"
  shows "pool_ok n (p\<lparr>pl_connections := AList.update (cn_id c) c (pl_connections p)\<rparr>)"
proof -
  have "\<forall>x \<in> set (AList.update (cn_id c) c (pl_connections p)). cn_id (snd x) = fst x"
  proof
    fix x
    assume "x \<in> set (AList.update (cn_id c) c (pl_connections p))"
    then have "(fst x, snd x) \<in> set (AList.update (cn_id c) c (pl_connections p))" by simp
    from set_update_alist [OF this] assms(1) show "cn_id (snd x) = fst x"
      by (auto simp: pool_ok_def)
  qed
  moreover have "length (AList.update (cn_id c) c (pl_connections p)) = length (pl_connections p)"
    using assms(2) by (simp add: length_update_old dict_has_def)
  ultimately show ?thesis
    using assms by (auto simp: pool_ok_def distinct_update dict_has_def)
qed

lemma srv_inv_put_conn:
  assumes "srv_inv n A s" and "in_hand A c s"
  shows "srv_inv n A (put_conn c s)"
proof (cases "dict_has (pl_connections (sv_pool s)) (cn_id c)")
  case True
  with assms pool_ok_put [OF _ True, of n] show ?thesis
    by (auto simp: srv_inv_def put_conn_def in_hand_def authed_def has_token_def pool_get_update
        split: if_splits)
next
  case False
  with assms show ?thesis by (simp add: put_conn_def)
qed

lemma put_conn_sessions [simp]: "sv_valid_sessions (put_conn c s) = sv_valid_sessions s"
  by (simp add: put_conn_def)

lemma good_put_conn:
  assumes "same_conn c d" and "good n A c s"
  shows "good n A c (put_conn d s)"
proof -
  from assms have "srv_inv n A (put_conn d s)"
    by (intro srv_inv_put_conn) (simp_all add: good_def in_hand_same)
  moreover have "in_hand A c (put_conn d s)"
    using assms(2) by (simp add: good_def in_hand_def has_token_def)
  ultimately show ?thesis by (simp add: good_def)
qed

lemma keeps_put_conn: "same_conn c d \<Longrightarrow> keeps (good n A c) (s_put (put_conn d))"
  by (simp add: keeps_def s_put_def good_put_conn)

lemma send_encoded_conn:
  "send_encoded d r c = (e, c', res, fs) \<Longrightarrow> same_conn c c'"
  by (auto simp: send_encoded_def transmit_def count_sent_def same_conn_def split: prod.splits sum.splits)

lemma keeps_conn_send:
  assumes "same_conn c d" and "\<And>e. \<exists>r. f e d = send_encoded del (r e) d"
  shows "keeps (good n A c) (conn_send f d)"
  unfolding keeps_def
proof (intro allI impI)
  fix s
  assume g: "good n A c s"
  obtain e d' res fs where f: "f (sv_encoder s) d = (e, d', res, fs)" by (metis prod_cases4)
  with assms(2) have "same_conn d d'" by (metis send_encoded_conn)
  with assms(1) have sd: "same_conn c d'" by (simp add: same_conn_def)
  have "good n A c (s\<lparr>sv_encoder := e\<rparr>)"
    using g good_key [of "s\<lparr>sv_encoder := e\<rparr>" s] by (simp add: srv_key_def)
  then have "good n A c (put_conn d' (s\<lparr>sv_encoder := e\<rparr>))" by (rule good_put_conn [OF sd])
  then show "good n A c (fst (conn_send f d s))" by (simp add: conn_send_def f)
qed

lemma keeps_sends:
  assumes "same_conn c d"
  shows "keeps (good n A c) (conn_send (send_rpc_response cd del v corr now) d)"
    and "keeps (good n A c) (conn_send (send_rpc_error cd del msg corr code now) d)"
    and "keeps (good n A c) (conn_send (send_message cd del t v now) d)"
  by (rule keeps_conn_send [OF assms, where del = del];
      auto simp: send_rpc_response_def send_rpc_error_def send_message_def)+

lemmas keeps_basic = frame_basic [THEN keeps_frame] frame_server [THEN keeps_frame]

lemma authed_mono_delete:
  assumes "srv_inv n A s" and "pool_remove k (sv_pool s) = Some (p, b)"
  shows "srv_inv n A (s\<lparr>sv_pool := p\<rparr>)"
proof -
  have "pool_ok n p" using assms pool_remove_ok by (auto simp: srv_inv_def)
  moreover have "pool_get j p = Some c \<Longrightarrow> pool_get j (sv_pool s) = Some c" for j c
    using assms(2) by (auto simp: pool_remove_def pool_get_def delete_conv' split: if_splits)
  ultimately show ?thesis
    using assms(1) by (fastforce simp: srv_inv_def authed_def has_token_def)
qed

lemma keeps_remove: "keeps (good n A c) (remove_from_pool k)"
  using authed_mono_delete [of n A _ k]
  by (auto simp: keeps_def remove_from_pool_def good_def in_hand_def has_token_def split: option.split)

lemma keeps_process_authenticated: "keeps (good n A c) (process_authenticated ev k c m now)"
proof -
  obtain d b where h: "handle_decoded_message m c = (d, b)" by (cases "handle_decoded_message m c")
  then have sd: "same_conn c d"
    by (auto simp: handle_decoded_message_def same_conn_def Let_def split: if_splits)
  have "keeps (good n A c) (process_rpc_request ev d m now)"
    unfolding process_rpc_request_def send_dispatched_def
    by (auto intro!: keeps_bind keeps_then keeps_sends [OF sd] keeps_basic
        split: pyval.split option.split)
  moreover have "keeps (good n A c) (process_routed_message ev d m now)"
    unfolding process_routed_message_def
    by (auto intro!: keeps_bind keeps_then keeps_sends [OF sd] keeps_frame [OF frame_route_message]
        keeps_basic)
  moreover have "keeps (good n A c) (s_put (\<lambda>s. s\<lparr>sv_heartbeat := g (sv_heartbeat s)\<rparr>))" for g
    by (rule keeps_frame) (rule frame_put, simp add: srv_key_def)
  ultimately show ?thesis
    unfolding process_authenticated_def h prod.case
    by (auto intro!: keeps_bind keeps_frame [OF frame_rate_check] keeps_then keeps_put_conn [OF sd]
        keeps_basic)
qed

section \<open>An authentication request\<close>

text \<open>What a request can prove: a token of the table, a user's password hash, or the password's.\<close>

definition proves_identity :: "crypto \<Rightarrow> pyval \<Rightarrow> ('m, 'h, 't) Server \<Rightarrow> bool" where
  "proves_identity cr payload s =
     (\<exists>d info. payload = PDict d
        \<and> (if dict_has d ''client_info'' then dict_get d ''client_info'' else PDict []) = PDict info
        \<and> ((\<exists>t. dict_get info ''session_token'' = PStr t \<and> dict_has (sv_valid_sessions s) t)
         \<or> (\<exists>cm u h. sv_credentials s = Some cm \<and> dict_get info ''username'' = PStr u
              \<and> dict_get_default d ''password_hash'' (PStr []) = PStr h
              \<and> map_of (cm_users cm) u = Some h)
         \<or> dict_get_default d ''password_hash'' (PStr [])
              = PStr (sha256_hex cr (utf8_encode (ah_password (sv_auth s))))))"

lemma verify_simple_True: "verify_simple cr h a = Some True \<Longrightarrow> h = sha256_hex cr (utf8_encode (ah_password a))"
  by (auto simp: verify_simple_def compare_digest_def split: if_splits)

lemma auth_decision_proves:
  assumes "auth_decision cr ph info uid s = Some (Inr (t, user, profile, resumed))"
  shows "(resumed \<longrightarrow> dict_get info ''session_token'' = PStr t \<and> dict_has (sv_valid_sessions s) t)
    \<and> (\<not> resumed \<longrightarrow>
        (\<exists>cm u h. sv_credentials s = Some cm \<and> dict_get info ''username'' = PStr u \<and> ph = PStr h
           \<and> map_of (cm_users cm) u = Some h)
        \<or> ph = PStr (sha256_hex cr (utf8_encode (ah_password (sv_auth s)))))"
  using assms
  by (auto simp: auth_decision_def Let_def credentials_verify_def dict_has_def
      split: option.splits pyval.splits if_splits bool.splits dest: verify_simple_True)

lemma keeps_auth_fail: "keeps (good n A c) (auth_fail ev k reason now)"
  unfolding auth_fail_def by (intro keeps_then keeps_bind keeps_basic keeps_remove)

lemma has_token_grow:
  assumes "\<And>t. dict_has (sv_valid_sessions s) t \<Longrightarrow> dict_has (sv_valid_sessions s') t" and "has_token s c"
  shows "has_token s' c"
  using assms unfolding has_token_def by blast

lemma auth_accept_good:
  fixes s :: "('m, 'h, 't) Server" and ev :: "('m, 'h, 't) server_env"
  assumes "good n A c s" and "cn_id c = k" and "resumed \<Longrightarrow> dict_has (sv_valid_sessions s) token"
  shows "srv_inv n (insert k A) (fst (auth_accept ev c k info token user profile resumed now s))"
proof -
  define c' where "c' = set_session \<lparr>ss_session = new_session token k info now, ss_profile = profile\<rparr> c"
  define s1 where "s1 = (if resumed then s
     else s\<lparr>sv_valid_sessions := AList.update token (user, profile) (sv_valid_sessions s)\<rparr>)"
  have tok: "dict_has (sv_valid_sessions s1) token"
    and grow: "dict_has (sv_valid_sessions s) t \<Longrightarrow> dict_has (sv_valid_sessions s1) t" for t
    using assms(3) by (auto simp: s1_def)
  have "sv_pool s1 = sv_pool s" by (simp add: s1_def)
  then have "srv_inv n (insert k A) s1"
    using assms(1) has_token_grow [OF grow] by (auto simp: good_def srv_inv_def authed_def)
  moreover have "in_hand (insert k A) c' s1"
    using tok assms(2) by (simp add: in_hand_def has_token_def c'_def set_session_def new_session_def)
  ultimately have "good n (insert k A) c' (put_conn c' s1)"
    by (intro good_put_conn) (simp_all add: same_conn_def good_def)
  moreover define rest :: "(('m, 'h, 't) Server, 'm action, unit) srv" where "rest =
      (s_then (s_bind (s_get (\<lambda>s. [(''name'', PStr (sv_name s)), (''version'', PStr (sv_version s))]))
                  (\<lambda>srv. s_bind (encoded (\<lambda>e. encode_auth_success (ev_codec ev) e token srv now))
                     (rust_send ev k)))
        (s_then (s_put (\<lambda>s. s\<lparr>sv_heartbeat := hm_register now k (sv_heartbeat s)\<rparr>))
        (s_bind (s_get (\<lambda>s. pl_on_connect (sv_pool s)))
          (\<lambda>hooked. if hooked then run_connect_hooks c' else s_ret ()))))"
  moreover have "keeps (good n (insert k A) c') rest"
    unfolding rest_def run_connect_hooks_def
    by (auto intro!: keeps_then keeps_bind keeps_basic keeps_frame [OF frame_put] simp: srv_key_def)
  moreover have "fst (auth_accept ev c k info token user profile resumed now s) = fst (rest (put_conn c' s1))"
    unfolding auth_accept_def Let_def c'_def [symmetric] rest_def [symmetric]
    by (simp add: s_then_def s_bind_def s_put_def s1_def split_def)
  ultimately show ?thesis by (simp add: keeps_def good_def)
qed

lemma process_auth_request_good:
  fixes s :: "('m, 'h, 't) Server" and ev :: "('m, 'h, 't) server_env"
  assumes "good n A c s" and "cn_id c = k"
  shows "srv_inv n (if proves_identity (ev_crypto ev) payload s then insert k A else A)
     (fst (process_auth_request ev k c payload now uid s))"
proof (cases "\<exists>d info. payload = PDict d
    \<and> (if dict_has d ''client_info'' then dict_get d ''client_info'' else PDict []) = PDict info")
  case False
  then have "fst (process_auth_request ev k c payload now uid s) = s"
    by (auto simp: process_auth_request_def s_fail_def split: pyval.split)
  moreover have "\<not> proves_identity (ev_crypto ev) payload s"
    using False by (auto simp: proves_identity_def)
  ultimately show ?thesis using assms(1) by (simp add: good_def)
next
  case True
  then obtain d info where d: "payload = PDict d"
    "(if dict_has d ''client_info'' then dict_get d ''client_info'' else PDict []) = PDict info"
    by blast
  let ?ph = "dict_get_default d ''password_hash'' (PStr [])"
  let ?A = "if proves_identity (ev_crypto ev) payload s then insert k A else A"
  have weaker: "srv_inv n A t \<Longrightarrow> srv_inv n ?A t" for t :: "('m, 'h, 't) Server"
    by (auto simp: srv_inv_def)
  let ?dec = "auth_decision (ev_crypto ev) ?ph info uid s"
  have run: "process_auth_request ev k c payload now uid s =
      (case ?dec of
         None \<Rightarrow> (s, [], None)
       | Some (Inl reason) \<Rightarrow> auth_fail ev k reason now s
       | Some (Inr (token, user, profile, resumed)) \<Rightarrow>
           auth_accept ev c k info token user profile resumed now s)"
    using d by (simp add: process_auth_request_def s_bind_def s_get_def s_opt_def split_def
        split: option.split sum.split)
  show ?thesis
  proof (cases ?dec)
    case None
    then show ?thesis using assms(1) weaker by (simp add: run good_def)
  next
    case (Some r)
    show ?thesis
    proof (cases r)
      case (Inl reason)
      have "good n A c (fst (auth_fail ev k reason now s))"
        using keeps_auth_fail assms(1) unfolding keeps_def by blast
      then show ?thesis using weaker by (simp add: run Some Inl good_def)
    next
      case (Inr q)
      obtain token user profile resumed where q: "q = (token, user, profile, resumed)" by (cases q)
      note p = auth_decision_proves [OF Some [unfolded Inr q]]
      then have "proves_identity (ev_crypto ev) payload s"
        using d by (cases resumed) (auto simp: proves_identity_def)
      then show ?thesis
        using auth_accept_good [OF assms, of resumed token] p by (simp add: run Some Inr q)
    qed
  qed
qed

section \<open>One event\<close>

text \<open>The connection an event may authenticate: the one whose request proves its identity.\<close>

definition newly :: "('m, 'h, 't) server_env \<Rightarrow> server_event \<Rightarrow> ('m, 'h, 't) Server \<Rightarrow> string set" where
  "newly ev q s =
     {k. \<exists>payload m. q = MessageEvent k payload \<and> decode_single (ev_codec ev) payload = Inr m
        \<and> dm_message_type m = AUTH_REQUEST \<and> proves_identity (ev_crypto ev) (dm_payload m) s}"

lemma process_message_inv:
  assumes "srv_inv n A s"
  shows "srv_inv n (if dm_message_type m = AUTH_REQUEST \<and> proves_identity (ev_crypto ev) (dm_payload m) s
      then insert k A else A) (fst (process_message ev k m raw now uid s))"
proof (cases "pool_get k (sv_pool s)")
  case None
  then show ?thesis using assms by (auto simp: process_message_def s_defs srv_inv_def)
next
  case (Some c)
  then have k: "cn_id c = k"
    using assms by (auto simp: srv_inv_def pool_ok_def pool_get_def dest: map_of_SomeD)
  have sub: "srv_inv n A s \<and> in_hand A c s"
    using assms Some k by (auto simp: srv_inv_def in_hand_def authed_def)
  then have g: "good n A c s" by (simp add: good_def)
  show ?thesis
  proof (cases "dm_message_type m = AUTH_REQUEST")
    case True
    then show ?thesis
      using process_auth_request_good [OF g k] Some
      by (simp add: process_message_def s_bind_def s_get_def split_def)
  next
    case False
    have "keeps (good n A c)
       (s_bind (if dm_is_mesh m then process_mesh ev k c m raw now else s_ret False)
          (\<lambda>handled. if handled then s_ret ()
             else if \<not> is_authenticated c then s_ret () else process_authenticated ev k c m now))"
      by (auto intro!: keeps_bind keeps_basic keeps_frame [OF frame_process_mesh]
          keeps_process_authenticated)
    with g False Some show ?thesis
      by (simp add: process_message_def keeps_def good_def s_bind_def [of "s_get _"] s_get_def split_def)
  qed
qed

lemma srv_inv_connect:
  assumes "srv_inv n A s"
  shows "srv_inv n A (fst (process_connect k now s))"
proof (cases "pool_add (\<lambda>_ p. Some (p, False)) (new_connection k [] now) (sv_pool s)")
  case None
  then show ?thesis using assms by (simp add: process_connect_def)
next
  case (Some r)
  obtain p added where r: "r = (p, added)" by (cases r)
  from assms have "pool_ok n p"
    using pool_add_ok Some r by (auto simp: srv_inv_def)
  moreover have "pool_get j p = Some c \<Longrightarrow> pool_get j (sv_pool s) = Some c \<or> \<not> is_authenticated c" for j c
    using Some r assms
    by (auto simp: pool_add_def Let_def srv_inv_def pool_ok_def pool_get_def update_conv'
        set_disconnect_handler_def new_connection_def is_authenticated_def split: if_splits)
  ultimately show ?thesis
    using assms Some r by (fastforce simp: process_connect_def srv_inv_def authed_def has_token_def)
qed

lemma event_inv:
  fixes s :: "('m, 'h, 't) Server" and ev :: "('m, 'h, 't) server_env"
  assumes "srv_inv n A s"
  shows "srv_inv n (A \<union> newly ev q s) (fst (handle_event ev q now uid s))"
proof -
  let ?c = "new_connection [] [] 0 :: srv_session Connection"
  have dummy: "good n A ?c t = srv_inv n A t" for t :: "('m, 'h, 't) Server"
    by (simp add: good_def in_hand_def has_token_def is_authenticated_def new_connection_def)
  have keep: "srv_inv n A (fst (m s))" if "keeps (good n A ?c) m"
    for m :: "(('m, 'h, 't) Server, 'm action, 'a) srv"
    using that assms unfolding keeps_def dummy by blast
  have hb: "frame_step (s_put (\<lambda>s :: ('m, 'h, 't) Server. s\<lparr>sv_heartbeat := f (sv_heartbeat s)\<rparr>))" for f
    by (rule frame_put) (simp add: srv_key_def)
  have disc: "keeps (good n A ?c) (process_disconnect k :: (('m, 'h, 't) Server, 'm action, unit) srv)" for k
    unfolding process_disconnect_def by (intro keeps_then keeps_frame [OF hb] keeps_remove)
  have weaker: "srv_inv n A t \<Longrightarrow> srv_inv n (A \<union> B) t" for B and t :: "('m, 'h, 't) Server"
    by (auto simp: srv_inv_def)
  show ?thesis
  proof (cases q)
    case (Connect k)
    then show ?thesis using weaker srv_inv_connect [OF assms] by (simp add: handle_event_def)
  next
    case (Disconnect k)
    then show ?thesis using weaker keep [OF disc] by (simp add: handle_event_def)
  next
    case (MessageEvent k payload)
    show ?thesis
    proof (cases "decode_single (ev_codec ev) payload")
      case (Inl x)
      then show ?thesis using weaker assms by (simp add: MessageEvent handle_event_def s_ret_def)
    next
      case (Inr m)
      have "insert k A \<subseteq> A \<union> newly ev q s"
        if "dm_message_type m = AUTH_REQUEST" "proves_identity (ev_crypto ev) (dm_payload m) s"
        using that Inr MessageEvent by (auto simp: newly_def)
      then show ?thesis
        using process_message_inv [OF assms, of m ev k payload now uid] MessageEvent Inr
        by (auto simp: handle_event_def srv_inv_def split: if_splits)
    qed
  next
    case (BinaryStream k payload)
    have "frame_step (process_binary_stream k payload :: (('m, 'h, 't) Server, 'm action, unit) srv)"
      unfolding process_binary_stream_def
      by (auto intro!: frame_rules split: option.split)
    then show ?thesis
      using weaker [OF keep [OF keeps_frame]] BinaryStream by (simp add: handle_event_def)
  next
    case (StaleEvent k up)
    have "frame_step (catch m)" if "frame_step m" for m :: "(('m, 'h, 't) Server, 'm action, unit) srv"
      using that by (simp add: frame_on_def catch_def split_def)
    then have "frame_step (if up then catch (s_bind (encoded (\<lambda>e. encode_close (ev_codec ev) e
        ''heartbeat timeout'' now)) (rust_send ev k)) else s_ret ()
          :: (('m, 'h, 't) Server, 'm action, unit) srv)"
      by (simp add: frame_rules)
    then have "keeps (good n A ?c) (handle_stale_connection ev up k now :: (('m, 'h, 't) Server, 'm action, unit) srv)"
      unfolding handle_stale_connection_def
      by (intro keeps_then keeps_frame [OF hb] disc) (rule keeps_frame)
    then show ?thesis using weaker [OF keep] StaleEvent by (simp add: handle_event_def)
  qed
qed

definition server_step ::
  "('m, 'h, 't) Server \<Rightarrow> ('m, 'h, 't) server_env \<times> server_event \<times> time \<times> string \<Rightarrow> ('m, 'h, 't) Server" where
  "server_step s e = (case e of (ev, q, now, uid) \<Rightarrow> fst (handle_event ev q now uid s))"

interpretation server: op_machine
  "server_step :: ('m, 'h, 't) Server \<Rightarrow> ('m, 'h, 't) server_env \<times> server_event \<times> time \<times> string
     \<Rightarrow> ('m, 'h, 't) Server" "srv_inv n UNIV" for n
proof
  fix s :: "('m, 'h, 't) Server" and e :: "('m, 'h, 't) server_env \<times> server_event \<times> time \<times> string"
  assume inv: "srv_inv n UNIV s"
  obtain ev q now uid where e: "e = (ev, q, now, uid)" by (cases e)
  show "srv_inv n UNIV (server_step s e)"
    using event_inv [OF inv, of ev q now uid] by (simp add: e server_step_def)
qed

section \<open>The way of a request\<close>

lemma conn_send_response:
  assumes "encode_rpc_response (ev_codec ev) (sv_encoder s) v corr True now = (Inr reply, e')"
    and "\<forall>k bs. ev_deliver ev k bs"
  shows "\<exists>s'. conn_send (send_rpc_response (ev_codec ev) (ev_deliver ev (cn_client_id c)) v corr now) c s =
    (s', [Sent (cn_client_id c) reply], Some ())"
  using assms by (simp add: conn_send_def send_rpc_response_def send_encoded_def transmit_def)

lemma request_served:
  assumes "get_rpc_method m = PStr meth" and "get_rpc_params m = ps"
    and "gate_refusal ev c meth s = None"
    and "dispatch (ev_rpc ev) (sv_registry s) meth ps (is_authenticated c) = Some (response_call v None)"
    and "encode_rpc_response (ev_codec ev) (sv_encoder s) v (dm_correlation_id m) True now = (Inr reply, e')"
    and "\<forall>k bs. ev_deliver ev k bs"
  shows "\<exists>s'. process_rpc_request ev c m now s =
    (s', [Dispatched meth, Sent (cn_client_id c) reply], Some ())"
proof -
  obtain s' where s': "conn_send (send_rpc_response (ev_codec ev) (ev_deliver ev (cn_client_id c)) v
      (dm_correlation_id m) now) c s = (s', [Sent (cn_client_id c) reply], Some ())"
    using conn_send_response [OF assms(5,6)] by blast
  have "send_dispatched ev c (dm_correlation_id m) (response_call v None) now s =
      (s', [Sent (cn_client_id c) reply], Some ())"
    using s' by (simp add: send_dispatched_def response_call_def dict_get_def dict_has_def dict_get_default_def)
  then show ?thesis
    using assms(1-4) by (simp add: process_rpc_request_def s_defs)
qed

lemma authenticated_request:
  assumes "pool_get k (sv_pool s) = Some c" and "is_authenticated c" and "\<not> rlc_enabled (sv_rate_config s)"
    and "dm_message_type m = RPC_REQUEST" and "\<not> dm_is_mesh m"
  shows "process_message ev k m raw now uid s =
    process_rpc_request ev (fst (handle_decoded_message m c)) m now (put_conn (fst (handle_decoded_message m c)) s)"
  using assms
  by (simp add: process_message_def process_authenticated_def rate_check_def handle_decoded_message_def s_defs Let_def
      split: prod.split)
section \<open>A small server for the witnesses\<close>

text \<open>A client packet of the given type; the codec below parses every payload as one.\<close>

definition auth_packet :: Packet where
  "auth_packet = build_packet AUTH_REQUEST [1] None 0 None None False 0"

definition auth_codec :: codec where
  "auth_codec = reply_codec\<lparr>parse_Packet := \<lambda>_. Some auth_packet,
     parse_AuthRequest := \<lambda>_. Some \<lparr>aq_password_hash = ''ab'', aq_client_info = [], aq_protocol_version = []\<rparr>\<rparr>"

definition sample_env :: "codec \<Rightarrow> (nat, nat, unit) server_env" where
  "sample_env cd = \<lparr>ev_codec = cd, ev_crypto = sample_crypto, ev_rpc = echo_env,
     ev_msg = \<lambda>_ _ _. Returned PNone, ev_gate = \<lambda>_ _. True, ev_deliver = \<lambda>_ _. True,
     ev_new_tunnel = (), ev_feed = \<lambda>_ _. None, ev_handshake = \<lambda>_. None, ev_write = \<lambda>_ _. None\<rparr>"

definition sample_server :: "(nat, nat, unit) Server" where
  "sample_server = server_start ((new_server sample_crypto 0 1 2 ''srv'' ''1'' ''pw'' 10 [] 4 False
      default_RateLimitConfig 30 90)\<lparr>sv_registry := echo_registry\<rparr>)"

lemma sample_pool: "sv_pool sample_server = pool_set_callbacks True True (new_pool 4)"
  by (simp add: sample_server_def server_start_def new_server_def)

section \<open>Properties\<close>

text \<open>
  C4. Only a proof of identity authenticates: started with an empty pool and after any events, one
  more event makes no connection authenticated but the one whose AUTH_REQUEST carries a token of
  the session table, a known user's password hash, or the hash of the server's password; every
  authenticated connection has a session of that table, and the pool stays within its bound.
\<close>

theorem only_proof_authenticates:
  assumes "sv_pool start = pool_set_callbacks on_c on_d (new_pool n)"
    and "s = foldl server_step start events" and "s' = fst (handle_event ev q now uid s)"
  shows "authed s' \<subseteq> authed s \<union> newly ev q s
    \<and> (\<forall>k c. pool_get k (sv_pool s') = Some c \<longrightarrow> is_authenticated c \<longrightarrow>
         (\<exists>ss. cn_session c = Some ss \<and> dict_has (sv_valid_sessions s') (se_token (ss_session ss))))
    \<and> int (pool_count (sv_pool s')) \<le> max 0 n"
proof -
  have "srv_inv n UNIV start"
    by (simp add: srv_inv_def assms(1) pool_ok_def pool_set_callbacks_def new_pool_def pool_get_def)
  then have "srv_inv n UNIV s" unfolding assms(2) by (rule server.run_inv)
  then have "srv_inv n (authed s) s" by (simp add: srv_inv_def)
  from event_inv [OF this, of ev q now uid] show ?thesis
    by (auto simp: assms(3) srv_inv_def has_token_def pool_ok_def pool_count_def)
qed

theorem only_proof_authenticates_witness:
  "\<exists>s s'. s = foldl server_step sample_server [(sample_env auth_codec, Connect ''a'', 0, [])]
     \<and> s' = fst (handle_event (sample_env auth_codec) (MessageEvent ''a'' [9]) 1 ''tok'' s)
     \<and> authed s' \<subseteq> {} \<union> {''a''} \<and> int (pool_count (sv_pool s')) \<le> 4"
proof -
  let ?e = "sample_env auth_codec"
  let ?s = "foldl server_step sample_server [(?e, Connect ''a'', 0, [])]"
  let ?s' = "fst (handle_event ?e (MessageEvent ''a'' [9]) 1 ''tok'' ?s)"
  have "authed ?s = {}"
    by (auto simp: server_step_def handle_event_def process_connect_def sample_pool authed_def
        pool_add_def pool_set_callbacks_def new_pool_def pool_get_def new_connection_def
        set_disconnect_handler_def is_authenticated_def Let_def split: if_splits)
  moreover have "newly ?e (MessageEvent ''a'' [9]) ?s \<subseteq> {''a''}" by (auto simp: newly_def)
  ultimately show ?thesis
    using only_proof_authenticates [OF sample_pool refl refl, of ?e "MessageEvent ''a'' [9]" 1 "''tok''"
        "[(?e, Connect ''a'', 0, [])]"]
    by (intro exI [of _ ?s] exI [of _ ?s']) auto
qed

text \<open>
  The gate: from a connection that is not authenticated, a message that is neither an
  AUTH_REQUEST nor a mesh packet changes nothing, sends nothing and runs no handler.
\<close>

lemma unauthenticated_ignored:
  assumes "pool_get k (sv_pool s) = Some c" and "\<not> is_authenticated c"
    and "dm_message_type m \<noteq> AUTH_REQUEST" and "\<not> dm_is_mesh m"
  shows "process_message ev k m raw now uid s = (s, [], Some ())"
  using assms by (simp add: process_message_def s_defs)

definition connected_sample :: "(nat, nat, unit) Server" where
  "connected_sample = sample_server\<lparr>sv_pool := (sv_pool sample_server)
     \<lparr>pl_connections := [(''a'', new_connection ''a'' [] 0), (''b'', new_connection ''b'' [] 0)]\<rparr>\<rparr>"

lemma sv_name_sample: "sv_name connected_sample = ''srv''"
  by (simp add: connected_sample_def sample_server_def server_start_def new_server_def)

lemma connected_sample_get:
  "pool_get ''a'' (sv_pool connected_sample) = Some (new_connection ''a'' [] 0)"
  "pool_get ''b'' (sv_pool connected_sample) = Some (new_connection ''b'' [] 0)"
  "\<not> is_authenticated (new_connection k [] 0)"
  by (simp_all add: connected_sample_def pool_get_def is_authenticated_def new_connection_def)

text \<open>
  The hole in the gate: a mesh packet from a connection that is not authenticated is relayed,
  bytes unchanged, to the connection its destination names, and the sender it claims is entered in
  the routing table.
\<close>

lemma unauthenticated_relay:
  assumes "pool_get k (sv_pool s) = Some c" and "\<not> is_authenticated c"
    and "dm_message_type m \<noteq> AUTH_REQUEST" and "dm_is_mesh m"
    and "dm_route_dst m \<noteq> sv_name s" and "pool_get (dm_route_dst m) (sv_pool s) = Some d"
    and "dm_route_src m \<noteq> []" and "dm_route_src m \<noteq> k"
  shows "snd (process_message ev k m raw now uid s) =
      ([Sent (cn_id d) raw], if ev_deliver ev (cn_id d) raw then Some () else None)
    \<and> map_of (sv_mesh_routing (fst (process_message ev k m raw now uid s))) (dm_route_src m) = Some k"
  using assms
  by (auto simp: process_message_def process_mesh_def relay_target_def rust_send_def s_defs update_conv'
      split: option.split)

lemma mesh_reply_keeps:
  "sv_pool (fst (mesh_reply ev t p src k now s)) = sv_pool s
   \<and> sv_name (fst (mesh_reply ev t p src k now s)) = sv_name s
   \<and> sv_router (fst (mesh_reply ev t p src k now s)) = sv_router s
   \<and> sv_mesh_tunnels (fst (mesh_reply ev t p src k now s)) = sv_mesh_tunnels s"
  by (auto simp: mesh_reply_def mesh_packet_def encoded_def rust_send_def s_defs
      split: option.split sum.split prod.split)

lemma route_message_first:
  "\<exists>r. route_message ev c (PStr t) v au s = (s, [Routed (fst (route (\<lambda>h. ev_msg ev h c v) (sv_router s) t au))], r)"
  by (auto simp: route_message_def split: prod.split outcome.split)

lemma mesh_secure_routes:
  assumes "map_of (sv_mesh_tunnels s) (dm_route_src m) = Some t2" and "get_data m = PBytes b"
    and "ev_feed ev t2 b = Some (t3, plain)" and "decode_single (ev_codec ev) plain = Inr inner"
    and ty: "get_message_type_str inner = PStr t"
  shows "\<exists>rest. fst (snd (mesh_secure ev k c m now s)) =
      Routed (fst (route (\<lambda>h. ev_msg ev h c (get_data inner)) (sv_router s) t True)) # rest"
proof -
  let ?s = "s\<lparr>sv_mesh_tunnels := AList.update (dm_route_src m) t3 (sv_mesh_tunnels s)\<rparr>"
  obtain r where r: "route_message ev c (get_message_type_str inner) (get_data inner) True ?s =
      (?s, [Routed (fst (route (\<lambda>h. ev_msg ev h c (get_data inner)) (sv_router s) t True))], r)"
    using route_message_first [of ev c t "get_data inner" True ?s] by (auto simp: ty)
  obtain f where "mesh_secure ev k c m now s =
      s_bind (route_message ev c (get_message_type_str inner) (get_data inner) True) f ?s"
    using assms(1-4)
    by (simp add: mesh_secure_def s_get_def s_opt_def s_put_def put_tunnel_def s_then_def Let_def bind_silent)
  then show ?thesis using bind_first [where m = "route_message ev c (get_message_type_str inner) (get_data inner) True" and f = f, OF r]
    by simp
qed

lemma handshake_tunnel:
  assumes "ev_feed ev (case map_of (sv_mesh_tunnels s) (dm_route_src m) of None \<Rightarrow> ev_new_tunnel ev | Some t \<Rightarrow> t) b
      = Some (t1, p)" and "ev_handshake ev t1 = Some (t2, out)" and "get_data m = PBytes b"
  shows "sv_pool (fst (mesh_handshake ev k m now s)) = sv_pool s
   \<and> sv_name (fst (mesh_handshake ev k m now s)) = sv_name s
   \<and> sv_router (fst (mesh_handshake ev k m now s)) = sv_router s
   \<and> map_of (sv_mesh_tunnels (fst (mesh_handshake ev k m now s))) (dm_route_src m) = Some t2"
proof -
  obtain f where f: "mesh_handshake ev k m now s =
      (if out \<noteq> [] then mesh_reply ev ''mesh_handshake'' out (dm_route_src m) k now else s_ret ()) (f s)"
    and k: "sv_pool (f s) = sv_pool s" "sv_name (f s) = sv_name s" "sv_router (f s) = sv_router s"
      "map_of (sv_mesh_tunnels (f s)) (dm_route_src m) = Some t2"
    using assms
    by (intro that [of "\<lambda>s. s\<lparr>sv_mesh_tunnels := AList.update (dm_route_src m) t2 (AList.update (dm_route_src m) t1
          (AList.update (dm_route_src m) (case map_of (sv_mesh_tunnels s) (dm_route_src m) of
             None \<Rightarrow> ev_new_tunnel ev | Some t \<Rightarrow> t) (sv_mesh_tunnels s)))\<rparr>"])
      (auto simp: mesh_handshake_def put_tunnel_def s_defs update_conv' Let_def split: prod.split option.split)
  show ?thesis using k mesh_reply_keeps [of ev "''mesh_handshake''" out "dm_route_src m" k now "f s"]
    unfolding f by (simp add: s_ret_def)
qed

definition mesh_env :: "(nat, nat, unit) server_env" where
  "mesh_env = sample_env (reply_codec
     \<lparr>parse_Packet := \<lambda>_. Some (build_packet MESSAGE [1] None 0 None None False 0),
      parse_MessagePayload := \<lambda>_. Some \<lparr>mp_type = ''secret'', mp_data = []\<rparr>\<rparr>)
     \<lparr>ev_feed := \<lambda>_ b. Some ((), [0]), ev_handshake := \<lambda>_. Some ((), [])\<rparr>"

lemma mesh_env_fields:
  "ev_feed mesh_env t b = Some ((), [0])" "ev_handshake mesh_env t = Some ((), [])"
  "ev_msg mesh_env = (\<lambda>_ _ _. Returned PNone)"
  by (simp_all add: mesh_env_def sample_env_def)

lemma mesh_env_inner:
  "\<exists>inner. decode_single (ev_codec mesh_env) [0] = Inr inner \<and> get_message_type_str inner = PStr ''secret''"
proof -
  have "MessageType_of 1 = Some MESSAGE" by (simp add: MessageType_of_Some)
  then show ?thesis
    by (simp add: mesh_env_def sample_env_def reply_codec_def decode_single_def find_packet_def decode_packet_def
        build_packet_def decompress_step_def has_flag_def decode_payload_def get_message_type_str_def
        dm_message_type_def dict_get_def)
qed

lemma no_tunnels: "map_of (sv_mesh_tunnels connected_sample) x = None"
  by (simp add: connected_sample_def sample_server_def server_start_def new_server_def)



text \<open>
  C15. Method gates hold: a request whose method has a gate that says no, or asks for a role or a
  permission that the profile of the connection lacks, is not dispatched, and what is sent goes
  only to the requester.
\<close>

theorem gated_method_not_dispatched:
  assumes "get_rpc_method m = PStr meth" and "rpc_get (sv_registry s) meth \<noteq> None"
    and "map_of (sv_gates s) meth = Some g"
    and "profile = (case cn_session c of None \<Rightarrow> None | Some ss \<Rightarrow> ss_profile ss)"
    and "mg_gate g \<and> \<not> ev_gate ev meth c
      \<or> (\<exists>r. mg_requires_role g = Some r \<and> r \<noteq> [] \<and> (\<forall>p. profile = Some p \<longrightarrow> \<not> has_role p r))
      \<or> (\<exists>r. mg_requires_permission g = Some r \<and> r \<noteq> [] \<and> (\<forall>p. profile = Some p \<longrightarrow> \<not> has_permission p r))"
  shows "\<forall>x \<in> set (fst (snd (process_rpc_request ev c m now s))). \<exists>bs. x = Sent (cn_client_id c) bs"
proof -
  have "gate_refusal ev c meth s \<noteq> None"
    using assms(2-5) by (auto simp: gate_refusal_def Let_def split: option.splits)
  then obtain msg where r: "gate_refusal ev c meth s = Some msg" by blast
  have "x \<in> set fs \<Longrightarrow> \<exists>bs. x = (cn_client_id c, bs)"
    if "send_rpc_error cd del msg corr code now e c = (e', c', res, fs)" for x e e' c' res fs cd del corr code
    using that by (auto simp: send_rpc_error_def send_encoded_def transmit_def split: prod.splits sum.splits)
  then show ?thesis
    using assms(1) r
    by (fastforce simp: process_rpc_request_def s_bind_def s_get_def conn_send_def split: prod.splits)
qed

theorem gated_method_not_dispatched_witness:
  "\<exists>s c m. rpc_get (sv_registry s) ''echo'' \<noteq> None \<and> cn_session c = None \<and> get_rpc_method m = PStr ''echo''
     \<and> (\<forall>x \<in> set (fst (snd (process_rpc_request (sample_env reply_codec) c m 0 s))).
           \<exists>bs. x = Sent (cn_client_id c) bs)"
proof -
  let ?g = "\<lparr>mg_requires_role = Some ''admin'', mg_requires_permission = None, mg_gate = False\<rparr>"
  let ?s = "sample_server\<lparr>sv_gates := [(''echo'', ?g)]\<rparr>"
  let ?c = "new_connection ''a'' [] 0 :: srv_session Connection"
  let ?m = "reply_message 1 (PDict [(''method'', PStr ''echo'')])
     \<lparr>dm_header := (dm_header (reply_message 1 PNone))\<lparr>hdr_message_type := RPC_REQUEST\<rparr>\<rparr>"
  have m: "get_rpc_method ?m = PStr ''echo''"
    by (simp add: get_rpc_method_def dm_message_type_def reply_message_def dict_get_def)
  have r: "rpc_get (sv_registry ?s) ''echo'' \<noteq> None"
    using echo_registered by (auto simp: sample_server_def server_start_def new_server_def)
  have "\<forall>x \<in> set (fst (snd (process_rpc_request (sample_env reply_codec) ?c ?m 0 ?s))).
     \<exists>bs. x = Sent (cn_client_id ?c) bs"
    by (rule gated_method_not_dispatched [OF m r, of ?g _ ?c]) (auto simp: new_connection_def)
  with m r show ?thesis
    by (intro exI [of _ ?s] exI [of _ ?c] exI [of _ ?m]) (simp add: new_connection_def)
qed

text \<open>
  A disconnect is not reported: when the transport reports that a client has gone, the
  connection leaves the pool, but no disconnect hook runs and its rate limiter stays in the table,
  although stopping the same pooled connection would do both.
\<close>

lemma disconnect_skips_hooks:
  assumes "\<not> pl_locked (sv_pool s)"
  shows "\<exists>s'. handle_event ev (Disconnect k) now uid s = (s', [], Some ())
    \<and> pool_get k (sv_pool s') = None \<and> sv_limiters s' = sv_limiters s"
  using assms
  by (auto simp: handle_event_def process_disconnect_def remove_from_pool_def pool_remove_def
      pool_get_def delete_conv' dict_has_def s_defs)

end
