(* ===== verification/Calls.thy ===== *)
theory Calls
  imports Rpc Protocol Router
begin

text \<open>
  How the value that an RPC handler returns on the server looks to the caller: the dispatcher wraps
  it (\<open>rpc/dispatcher.py\<close>), the server sends the result or data entry of the answer (\<open>server.py\<close>),
  the encoder looks into it once more, and \<open>RPC.call\<close> reads the reply.  Components that call one
  another by RPC (streams, file transfer) are composed with \<open>caller_sees\<close>.
\<close>

definition dispatched_answer :: "pyval \<Rightarrow> (string, pyval) dict" where
  "dispatched_answer v =
     (case v of
        PDict d \<Rightarrow> if dict_has d ''success'' then d else response_call v None
      | _ \<Rightarrow> response_call v None)"

lemma dispatch_result:
  assumes "meth \<noteq> ''listall''" and "rpc_get reg meth = Some h" and "auth \<or> \<not> rm_requires_auth h"
    and "run_method env h ps = Inr v"
  shows "dispatch env reg meth ps auth = Some (dispatched_answer v)"
  using assms by (auto simp: dispatch_def dispatched_answer_def split: pyval.split)

definition answer_value :: "(string, pyval) dict \<Rightarrow> pyval" where
  "answer_value d = (if dict_has d ''result'' then dict_get d ''result'' else dict_get d ''data'')"

definition reply_payload :: "codec \<Rightarrow> RPCResponsePayload \<Rightarrow> pyval" where
  "reply_payload cd p = PDict
     [(''success'', PBool (rr_success p)),
      (''result'', if rr_success p then deserialize_data cd (rr_result p) else PNone),
      (''error'', if \<not> rr_success p then PStr (rr_error p) else PNone), (''code'', PInt (rr_code p))]"

text \<open>
  A value that the server cannot send (JSON cannot write it, a field has the wrong type) is an
  exception in the server's task: no reply is sent, and the call times out.
\<close>

definition caller_sees :: "codec \<Rightarrow> string \<Rightarrow> time \<Rightarrow> pyval \<Rightarrow> call_result" where
  "caller_sees cd meth timeout v =
     (let d = dispatched_answer v
      in if truthy (dict_get_default d ''success'' (PBool False)) then
           (case rpc_response_payload cd (answer_value d) True of
              Inl x \<Rightarrow> RPCTimeoutRaised meth timeout
            | Inr (p, t) \<Rightarrow> read_reply (reply_payload cd p))
         else
           (case (proto_text (dict_get_default d ''error'' (PStr ''Unknown RPC error'')), error_code_value (dict_get d ''code'')) of
              (Some msg, Some code) \<Rightarrow> read_reply (reply_payload cd (response_failed msg code))
            | _ \<Rightarrow> RPCTimeoutRaised meth timeout))"

text \<open>An answer without a success key of its own comes back as it is.\<close>

lemma caller_sees_plain:
  assumes "\<not> (\<exists>d. v = PDict d \<and> dict_has d ''success'')" and "json_law cd v" and "structured v"
    and "serialize_data cd v = Inr bs"
  shows "caller_sees cd meth timeout v = CallReturns v"
proof -
  have "dispatched_answer v = response_call v None"
    using assms(1) by (auto simp: dispatched_answer_def split: pyval.split)
  moreover have "rpc_response_payload cd v True = Inr (response_ok bs, RPC_RESPONSE)"
    using assms(1,4) by (auto simp: rpc_response_payload_def split: pyval.split)
  ultimately show ?thesis
    using structured_undone [OF assms(2-4)]
    by (simp add: caller_sees_def response_call_def dict_get_default_def answer_value_def dict_has_def
        dict_get_def reply_payload_def response_ok_def read_reply_def Let_def)
qed

lemma caller_sees_unserialisable:
  assumes "\<not> (\<exists>d. v = PDict d \<and> dict_has d ''success'')" and "serialize_data cd v = Inl x"
  shows "caller_sees cd meth timeout v = RPCTimeoutRaised meth timeout"
proof -
  have "dispatched_answer v = response_call v None"
    using assms(1) by (auto simp: dispatched_answer_def split: pyval.split)
  moreover have "rpc_response_payload cd v True = Inl x"
    using assms by (auto simp: rpc_response_payload_def split: pyval.split)
  ultimately show ?thesis
    by (simp add: caller_sees_def response_call_def dict_get_default_def answer_value_def dict_has_def
        dict_get_def Let_def)
qed

text \<open>So a reply without a success key never has one for the caller, whatever happens on the way.\<close>

lemma caller_sees_no_success:
  assumes "v = PDict d" and "\<not> dict_has d ''success''" and "json_law cd v"
  shows "caller_sees cd meth timeout v \<in> {CallReturns v, RPCTimeoutRaised meth timeout}"
proof (cases "serialize_data cd v")
  case (Inl x)
  then show ?thesis using caller_sees_unserialisable [of v] assms(1,2) by auto
next
  case (Inr bs)
  then show ?thesis using caller_sees_plain [of v, OF _ assms(3) _ Inr] assms(1,2)
    by (auto simp: structured_def)
qed

end
