(* ===== verification/Streaming.thy ===== *)
theory Streaming
  imports Queue Connections Calls "HOL-Library.Sublist"
begin

text \<open>
  \<open>src/conduit/streaming/stream.py\<close>: bidirectional streams and their manager.  A subscriber gets a
  reference to its queue, which stays usable after the stream has forgotten it, so the queues are
  cells of a store and the stream's dict holds their addresses.  User callbacks do not change the
  stream; that they are called is an event.
\<close>

section \<open>A stream\<close>

record StreamInfo =
  si_stream_id :: string
  si_name :: string
  si_owner :: string
  si_direction :: string
  si_created_at :: time
  si_message_count :: nat
  si_bytes_sent :: nat

record BidirectionalStream =
  bs_name :: string
  bs_owner :: string
  bs_stream_id :: string
  bs_buffer_size :: int
  bs_subscribers :: "(string, nat) dict" \<comment> \<open>addresses in \<open>bs_store\<close>\<close>
  bs_store :: "pyval AsyncQueue list"
  bs_data_queue :: "pyval AsyncQueue"
  bs_running :: bool
  bs_info :: StreamInfo
  bs_on_subscribe :: bool
  bs_on_unsubscribe :: bool
  bs_on_data :: bool

datatype stream_event = OnSubscribe string | OnUnsubscribe string | OnData pyval

definition new_async_queue :: "int \<Rightarrow> 'a AsyncQueue" where
  "new_async_queue n = \<lparr>q_items = [], q_maxsize = n, q_unfinished = 0\<rparr>"

definition new_stream :: "string \<Rightarrow> string \<Rightarrow> int \<Rightarrow> string \<Rightarrow> time \<Rightarrow> BidirectionalStream" where
  "new_stream name owner bufsize uid now =
     \<lparr>bs_name = name, bs_owner = owner, bs_stream_id = uid, bs_buffer_size = bufsize,
      bs_subscribers = [], bs_store = [], bs_data_queue = new_async_queue bufsize,
      bs_running = True,
      bs_info = \<lparr>si_stream_id = uid, si_name = name, si_owner = owner, si_direction = ''push'',
        si_created_at = now, si_message_count = 0, si_bytes_sent = 0\<rparr>,
      bs_on_subscribe = False, bs_on_unsubscribe = False, bs_on_data = False\<rparr>"

definition subscriber_count :: "BidirectionalStream \<Rightarrow> nat" where
  "subscriber_count s = length (bs_subscribers s)"

text \<open>The address of the subscriber's queue: the old one if it has subscribed already.\<close>

definition stream_subscribe ::
  "string \<Rightarrow> BidirectionalStream \<Rightarrow> BidirectionalStream \<times> nat \<times> stream_event list" where
  "stream_subscribe k s =
     (case map_of (bs_subscribers s) k of
        Some i \<Rightarrow> (s, i, [])
      | None \<Rightarrow>
          (let i = length (bs_store s)
           in (s\<lparr>bs_store := bs_store s @ [new_async_queue (bs_buffer_size s)],
                 bs_subscribers := AList.update k i (bs_subscribers s)\<rparr>,
               i, if bs_on_subscribe s then [OnSubscribe k] else [])))"

definition stream_unsubscribe ::
  "string \<Rightarrow> BidirectionalStream \<Rightarrow> BidirectionalStream \<times> stream_event list" where
  "stream_unsubscribe k s =
     (if dict_has (bs_subscribers s) k
      then (s\<lparr>bs_subscribers := AList.delete k (bs_subscribers s)\<rparr>,
            if bs_on_unsubscribe s then [OnUnsubscribe k] else [])
      else (s, []))"

text \<open>The loop of \<open>push\<close> and \<open>close\<close> over the subscribers' queues, counting the ones with room.\<close>

fun put_all :: "'a \<Rightarrow> (string \<times> nat) list \<Rightarrow> 'a AsyncQueue list \<Rightarrow> 'a AsyncQueue list \<times> nat" where
  "put_all m [] store = (store, 0)"
| "put_all m ((k, i) # subs) store =
     (case q_put_nowait (store ! i) m of
        Some q \<Rightarrow> (case put_all m subs (store[i := q]) of (st, n) \<Rightarrow> (st, Suc n))
      | None \<Rightarrow> put_all m subs store)"

definition push_message :: "BidirectionalStream \<Rightarrow> pyval \<Rightarrow> time \<Rightarrow> pyval" where
  "push_message s v now = PDict
     [(''stream'', PStr (bs_name s)), (''stream_id'', PStr (bs_stream_id s)), (''data'', v),
      (''timestamp'', PFloat now), (''sequence'', PInt (int (si_message_count (bs_info s))))]"

definition stream_push :: "pyval \<Rightarrow> time \<Rightarrow> BidirectionalStream \<Rightarrow> BidirectionalStream \<times> nat" where
  "stream_push v now s =
     (if \<not> bs_running s \<or> bs_subscribers s = [] then (s, 0)
      else case put_all (push_message s v now) (bs_subscribers s) (bs_store s) of
        (store, sent) \<Rightarrow>
          (s\<lparr>bs_store := store,
             bs_info := (bs_info s)\<lparr>si_message_count := si_message_count (bs_info s) + 1\<rparr>\<rparr>, sent))"

text \<open>\<open>receive\<close>: outer None is "waits", inner None the answer after a timeout.\<close>

definition stream_receive ::
  "bool \<Rightarrow> BidirectionalStream \<Rightarrow> (BidirectionalStream \<times> pyval option) option" where
  "stream_receive expired s =
     (case q_get_nowait (bs_data_queue s) of
        Some (x, q) \<Rightarrow> Some (s\<lparr>bs_data_queue := q\<rparr>, Some x)
      | None \<Rightarrow> if expired then Some (s, None) else None)"

definition stream_post ::
  "pyval \<Rightarrow> time \<Rightarrow> BidirectionalStream \<Rightarrow> BidirectionalStream \<times> bool \<times> stream_event list" where
  "stream_post v now s =
     (if \<not> bs_running s then (s, False, [])
      else
        (let m = PDict [(''stream'', PStr (bs_name s)), (''data'', v), (''timestamp'', PFloat now)]
         in case q_put_nowait (bs_data_queue s) m of
              None \<Rightarrow> (s, False, [])
            | Some q \<Rightarrow> (s\<lparr>bs_data_queue := q\<rparr>, True, if bs_on_data s then [OnData v] else [])))"

definition close_message :: "BidirectionalStream \<Rightarrow> pyval" where
  "close_message s = PDict [(''stream'', PStr (bs_name s)), (''closed'', PBool True)]"

definition stream_close :: "BidirectionalStream \<Rightarrow> BidirectionalStream" where
  "stream_close s =
     s\<lparr>bs_running := False,
       bs_store := fst (put_all (close_message s) (bs_subscribers s) (bs_store s)),
       bs_data_queue := (case q_put_nowait (bs_data_queue s) (close_message s) of
          None \<Rightarrow> bs_data_queue s | Some q \<Rightarrow> q),
       bs_subscribers := []\<rparr>"

text \<open>
  The loop of the iterator over what is buffered: the data it yields, and whether it ends; False:
  it waits for the next message.  An element that is not a dict is an exception, which ends it too.
\<close>

definition ends_iteration :: "pyval \<Rightarrow> bool" where
  "ends_iteration m = (case m of PDict d \<Rightarrow> truthy (dict_get d ''closed'') | _ \<Rightarrow> True)"

fun iterate :: "pyval list \<Rightarrow> pyval list \<times> bool" where
  "iterate [] = ([], False)"
| "iterate (m # ms) =
     (if ends_iteration m then ([], True)
      else case m of
        PDict d \<Rightarrow> (case iterate ms of (ys, e) \<Rightarrow> (dict_get d ''data'' # ys, e))
      | _ \<Rightarrow> ([], True))"

definition stream_iter :: "BidirectionalStream \<Rightarrow> pyval list \<times> bool" where
  "stream_iter s = iterate (q_items (bs_data_queue s))"

section \<open>The manager\<close>

record StreamManager =
  sm_owner :: string
  sm_streams :: "(string, BidirectionalStream) dict"
  sm_client_stream_handlers :: "(string, string) dict" \<comment> \<open>the handlers, by name\<close>
  sm_server :: bool
  sm_client :: bool

definition new_stream_manager :: "string \<Rightarrow> StreamManager" where
  "new_stream_manager owner = \<lparr>sm_owner = owner, sm_streams = [], sm_client_stream_handlers = [],
     sm_server = False, sm_client = False\<rparr>"

definition put_stream :: "string \<Rightarrow> BidirectionalStream \<Rightarrow> StreamManager \<Rightarrow> StreamManager" where
  "put_stream name st m = m\<lparr>sm_streams := AList.update name st (sm_streams m)\<rparr>"

definition manager_create ::
  "string \<Rightarrow> int \<Rightarrow> string \<Rightarrow> time \<Rightarrow> StreamManager \<Rightarrow> StreamManager \<times> BidirectionalStream" where
  "manager_create name bufsize uid now m =
     (case map_of (sm_streams m) name of
        Some st \<Rightarrow> (m, st)
      | None \<Rightarrow> (let st = new_stream name (sm_owner m) bufsize uid now in (put_stream name st m, st)))"

definition manager_get :: "string \<Rightarrow> StreamManager \<Rightarrow> BidirectionalStream option" where
  "manager_get name m = map_of (sm_streams m) name"

definition list_streams :: "StreamManager \<Rightarrow> pyval" where
  "list_streams m = PList (map (\<lambda>(k, s). PDict
     [(''name'', PStr (bs_name s)), (''owner'', PStr (bs_owner s)),
      (''subscribers'', PInt (int (subscriber_count s))), (''active'', PBool (bs_running s))])
     (sm_streams m))"

definition on_client_stream :: "string \<Rightarrow> string \<Rightarrow> StreamManager \<Rightarrow> StreamManager" where
  "on_client_stream name h m =
     m\<lparr>sm_client_stream_handlers := AList.update name h (sm_client_stream_handlers m)\<rparr>"

text \<open>The RPC handlers that \<open>register_server_handlers\<close> puts on a server; \<open>uid\<close> is a fresh \<open>uuid4\<close>.\<close>

datatype stream_rpc =
    RpcStreamList
  | RpcStreamSubscribe string
  | RpcStreamUnsubscribe string
  | RpcStreamCreate string

definition stream_rpc_subscribe :: "string \<Rightarrow> string \<Rightarrow> StreamManager \<Rightarrow> StreamManager \<times> pyval" where
  "stream_rpc_subscribe name uid m =
     (case map_of (sm_streams m) name of
        None \<Rightarrow> (m, PDict [(''error'', PStr (''Stream not found: '' @ name))])
      | Some st \<Rightarrow>
          (put_stream name (fst (stream_subscribe uid st)) m,
           PDict [(''subscribed'', PBool True), (''stream'', PStr name)]))"

definition stream_rpc_unsubscribe :: "string \<Rightarrow> string \<Rightarrow> StreamManager \<Rightarrow> StreamManager \<times> pyval" where
  "stream_rpc_unsubscribe name uid m =
     (case map_of (sm_streams m) name of
        None \<Rightarrow> (m, PDict [(''unsubscribed'', PBool True)])
      | Some st \<Rightarrow>
          (put_stream name (fst (stream_unsubscribe uid st)) m, PDict [(''unsubscribed'', PBool True)]))"

definition stream_rpc_create ::
  "string \<Rightarrow> string \<Rightarrow> string \<Rightarrow> time \<Rightarrow> StreamManager \<Rightarrow> StreamManager \<times> pyval" where
  "stream_rpc_create name client_id uid now m =
     (if dict_has (sm_streams m) name
      then (m, PDict [(''error'', PStr ''Stream already exists'')])
      else
        (let st = new_stream name client_id 100 uid now
         in (put_stream name st m,
             PDict [(''created'', PBool True), (''stream'', PStr name),
                    (''stream_id'', PStr (bs_stream_id st))])))"

fun stream_rpc_call ::
  "stream_rpc \<Rightarrow> string \<Rightarrow> string \<Rightarrow> time \<Rightarrow> StreamManager \<Rightarrow> StreamManager \<times> pyval" where
  "stream_rpc_call RpcStreamList uid uid2 now m = (m, PDict [(''streams'', list_streams m)])"
| "stream_rpc_call (RpcStreamSubscribe name) uid uid2 now m = stream_rpc_subscribe name uid m"
| "stream_rpc_call (RpcStreamUnsubscribe name) uid uid2 now m = stream_rpc_unsubscribe name uid m"
| "stream_rpc_call (RpcStreamCreate name) uid uid2 now m = stream_rpc_create name uid uid2 now m"

text \<open>
  The \<open>stream_data\<close> handlers.  The stream's name is the key of a dict: one that cannot be hashed is
  a TypeError, one that is not a str finds nothing.  The server's handler first calls the user's
  handler, if any, with the client and the payload; None as its result: an exception left it
  (\<open>handler_ok\<close>: the user's handler returns).
\<close>

definition stream_key :: "pyval \<Rightarrow> string option option" where
  "stream_key v = (case v of PStr name \<Rightarrow> Some (Some name) | PList _ \<Rightarrow> None | PDict _ \<Rightarrow> None | _ \<Rightarrow> Some None)"

definition post_to :: "string \<Rightarrow> pyval \<Rightarrow> time \<Rightarrow> StreamManager \<Rightarrow> StreamManager" where
  "post_to name v now m =
     (case map_of (sm_streams m) name of
        None \<Rightarrow> m | Some st \<Rightarrow> put_stream name (fst (stream_post v now st)) m)"

definition server_stream_data ::
  "bool \<Rightarrow> string \<Rightarrow> (string, pyval) dict \<Rightarrow> time \<Rightarrow> StreamManager
     \<Rightarrow> StreamManager \<times> (string \<times> string \<times> pyval) list \<times> pyval option" where
  "server_stream_data handler_ok client_id d now m =
     (let payload = dict_get d ''data''; received = Some (PDict [(''received'', PBool True)])
      in case stream_key (dict_get d ''stream'') of
           None \<Rightarrow> (m, [], None)
         | Some None \<Rightarrow> (m, [], received)
         | Some (Some name) \<Rightarrow>
             (case map_of (sm_client_stream_handlers m) name of
                None \<Rightarrow> (post_to name payload now m, [], received)
              | Some h \<Rightarrow>
                  if handler_ok then (post_to name payload now m, [(h, client_id, payload)], received)
                  else (m, [(h, client_id, payload)], None)))"

definition client_stream_data :: "(string, pyval) dict \<Rightarrow> time \<Rightarrow> StreamManager \<Rightarrow> StreamManager" where
  "client_stream_data d now m =
     (case stream_key (dict_get d ''stream'') of
        Some (Some name) \<Rightarrow> post_to name (PDict d) now m | _ \<Rightarrow> m)"

definition client_stream_closed :: "(string, pyval) dict \<Rightarrow> StreamManager \<Rightarrow> StreamManager" where
  "client_stream_closed d m =
     (case stream_key (dict_get d ''stream'') of
        Some (Some name) \<Rightarrow>
          (case map_of (sm_streams m) name of
             None \<Rightarrow> m | Some st \<Rightarrow> put_stream name (stream_close st) m)
      | _ \<Rightarrow> m)"

text \<open>
  \<open>subscribe\<close> on the client, up to the loop: \<open>reply\<close> is how the call of \<open>stream_subscribe\<close> ends.
  \<open>Inl\<close>: the exception (with what it carries); \<open>Inr\<close>: the local stream it iterates over.
\<close>

datatype subscribe_error = NoClient | SubscribeFailed pyval | CallFailed call_result | NotADict

definition manager_subscribe ::
  "call_result \<Rightarrow> string \<Rightarrow> string \<Rightarrow> time \<Rightarrow> StreamManager
     \<Rightarrow> subscribe_error + (StreamManager \<times> BidirectionalStream)" where
  "manager_subscribe reply name uid now m =
     (if \<not> sm_client m then Inl NoClient
      else case reply of
        CallReturns (PDict d) \<Rightarrow>
          if \<not> truthy (dict_get d ''success'') then Inl (SubscribeFailed (PDict d))
          else Inr (manager_create name 100 uid now m)
      | CallReturns v \<Rightarrow> Inl NotADict
      | r \<Rightarrow> Inl (CallFailed r))"

text \<open>What \<open>push_to_server\<close> sends, and the server's \<open>push_to_clients\<close>.  None: RuntimeError.\<close>

definition push_to_server :: "string \<Rightarrow> pyval \<Rightarrow> time \<Rightarrow> StreamManager \<Rightarrow> (string \<times> pyval) option" where
  "push_to_server name v now m =
     (if \<not> sm_client m then None
      else Some (''stream_data'', PDict [(''stream'', PStr name), (''data'', v), (''timestamp'', PFloat now)]))"

text \<open>
  Whom \<open>push_to_clients\<close> sends to: the pooled connections among the given ids, or a broadcast.
  The result: the manager, the number of local subscribers reached and the recipients (None: a
  broadcast, or nothing where the stream is unknown).
\<close>

datatype recipients = Nobody | Broadcast pyval | Clients "string list" pyval

definition push_to_clients ::
  "string \<Rightarrow> pyval \<Rightarrow> string list \<Rightarrow> 's ConnectionPool \<Rightarrow> time \<Rightarrow> StreamManager
     \<Rightarrow> (StreamManager \<times> nat \<times> recipients) option" where
  "push_to_clients name v client_ids pool now m =
     (if \<not> sm_server m then None
      else case map_of (sm_streams m) name of
        None \<Rightarrow> Some (m, 0, Nobody)
      | Some st \<Rightarrow>
          (case stream_push v now st of
             (st', sent) \<Rightarrow>
               (let msg = PDict [(''stream'', PStr name), (''data'', v), (''timestamp'', PFloat now)]
                in Some (put_stream name st' m, sent,
                     if client_ids \<noteq> []
                     then Clients (filter (\<lambda>k. pool_get k pool \<noteq> None) client_ids) msg
                     else Broadcast msg))))"

text \<open>The manager without streams, and the closed streams, which others may still hold.\<close>

definition close_all_streams :: "StreamManager \<Rightarrow> StreamManager \<times> BidirectionalStream list" where
  "close_all_streams m = (m\<lparr>sm_streams := []\<rparr>, map (\<lambda>(k, s). stream_close s) (sm_streams m))"

section \<open>Pushing\<close>

lemma put_all_length [simp]: "length (fst (put_all m subs store)) = length store"
  by (induction m subs store rule: put_all.induct) (auto split: option.split prod.split)

lemma q_put_iff: "q_put_nowait q x = Some q' \<longleftrightarrow>
    \<not> q_full q \<and> q' = q\<lparr>q_items := q_items q @ [x], q_unfinished := q_unfinished q + 1\<rparr>"
  by (auto simp: q_put_nowait_def)

lemma put_all_other: "j \<notin> snd ` set subs \<Longrightarrow> fst (put_all m subs store) ! j = store ! j"
proof (induction m subs store rule: put_all.induct)
  case (2 m k i subs store)
  then show ?case by (auto split: option.split prod.split)
qed simp

lemma put_all_spec:
  assumes "distinct (map snd subs)" and "\<forall>i \<in> snd ` set subs. i < length store"
  shows "snd (put_all m subs store) = length (filter (\<lambda>(k, i). \<not> q_full (store ! i)) subs)
    \<and> (\<forall>j \<in> snd ` set subs. q_items (fst (put_all m subs store) ! j) =
          q_items (store ! j) @ (if q_full (store ! j) then [] else [m])
        \<and> q_maxsize (fst (put_all m subs store) ! j) = q_maxsize (store ! j))"
  using assms
proof (induction m subs store rule: put_all.induct)
  case (1 m store)
  then show ?case by simp
next
  case (2 m k i subs store)
  show ?case
  proof (cases "q_put_nowait (store ! i) m")
    case None
    then have full: "q_full (store ! i)" by (simp add: q_put_nowait_def split: if_splits)
    from 2(1) [OF None] 2(3,4) put_all_other [of i subs m store] show ?thesis
      by (auto simp: None full)
  next
    case (Some q)
    then have q: "\<not> q_full (store ! i)" "q_items q = q_items (store ! i) @ [m]" "q_maxsize q = q_maxsize (store ! i)"
      by (auto simp: q_put_iff)
    have i: "i < length store" "i \<notin> snd ` set subs" using 2(3,4) by auto
    then have same: "j \<in> snd ` set subs \<Longrightarrow> store[i := q] ! j = store ! j" for j
      by (metis nth_list_update_neq)
    from 2(2) [OF Some] 2(3,4) have IH: "snd (put_all m subs (store[i := q])) =
        length (filter (\<lambda>(k, j). \<not> q_full (store[i := q] ! j)) subs)"
      "\<forall>j \<in> snd ` set subs. q_items (fst (put_all m subs (store[i := q])) ! j) =
          q_items (store ! j) @ (if q_full (store ! j) then [] else [m])
        \<and> q_maxsize (fst (put_all m subs (store[i := q])) ! j) = q_maxsize (store ! j)"
      using same by auto
    have "filter (\<lambda>(k, j). \<not> q_full (store[i := q] ! j)) subs = filter (\<lambda>(k, j). \<not> q_full (store ! j)) subs"
      using same by (intro filter_cong) force+
    with IH q i put_all_other [of i subs m "store[i := q]"] show ?thesis
      by (auto simp: Some split: prod.split)
  qed
qed

section \<open>Runs of a stream\<close>

text \<open>
  What can happen to a stream and to the queues it has handed out: \<open>Take i\<close> is a consumer that
  takes an element from its queue, if there is one.
\<close>

datatype stream_op =
    Subscribe string
  | Unsubscribe string
  | Push pyval time
  | Take nat
  | Post pyval time
  | Receive
  | CloseStream

text \<open>The stream, the messages pushed to it so far, and what each consumer has taken.\<close>

type_synonym stream_run = "BidirectionalStream \<times> pyval list \<times> (nat \<Rightarrow> pyval list)"

definition take_from :: "nat \<Rightarrow> BidirectionalStream \<Rightarrow> BidirectionalStream \<times> pyval list" where
  "take_from i s =
     (if i < length (bs_store s) then
        (case q_get_nowait (bs_store s ! i) of
           None \<Rightarrow> (s, [])
         | Some (x, q) \<Rightarrow> (s\<lparr>bs_store := (bs_store s)[i := q]\<rparr>, [x]))
      else (s, []))"

fun stream_step :: "stream_run \<Rightarrow> stream_op \<Rightarrow> stream_run" where
  "stream_step (s, ps, tk) (Subscribe k) = (fst (stream_subscribe k s), ps, tk)"
| "stream_step (s, ps, tk) (Unsubscribe k) = (fst (stream_unsubscribe k s), ps, tk)"
| "stream_step (s, ps, tk) (Push v now) =
     (fst (stream_push v now s), if bs_running s then ps @ [push_message s v now] else ps, tk)"
| "stream_step (s, ps, tk) (Take i) = (fst (take_from i s), ps, tk(i := tk i @ snd (take_from i s)))"
| "stream_step (s, ps, tk) (Post v now) = (fst (stream_post v now s), ps, tk)"
| "stream_step (s, ps, tk) Receive =
     (case stream_receive True s of None \<Rightarrow> s | Some (s', x) \<Rightarrow> s', ps, tk)"
| "stream_step (s, ps, tk) CloseStream = (stream_close s, ps, tk)"

definition received :: "stream_run \<Rightarrow> nat \<Rightarrow> pyval list" where
  "received st i = snd (snd st) i @ q_items (bs_store (fst st) ! i)"

definition stream_ok :: "int \<Rightarrow> stream_run \<Rightarrow> bool" where
  "stream_ok n st =
     (bs_buffer_size (fst st) = n \<and> distinct (map fst (bs_subscribers (fst st)))
      \<and> distinct (map snd (bs_subscribers (fst st)))
      \<and> (\<forall>i \<in> snd ` set (bs_subscribers (fst st)). i < length (bs_store (fst st)))
      \<and> (\<forall>i < length (bs_store (fst st)).
           q_maxsize (bs_store (fst st) ! i) = n
           \<and> q_room (bs_store (fst st) ! i) (length (q_items (bs_store (fst st) ! i)))
           \<and> subseq (filter (\<lambda>m. \<not> ends_iteration m) (received st i)) (fst (snd st)))
      \<and> (\<forall>i \<ge> length (bs_store (fst st)). snd (snd st) i = []))"

lemma push_message_goes_on: "\<not> ends_iteration (push_message s v now)"
  by (simp add: ends_iteration_def push_message_def dict_get_def)

lemma close_message_ends: "ends_iteration (close_message s)"
  by (simp add: ends_iteration_def close_message_def dict_get_def)

lemma q_full_room: "\<not> q_full q \<Longrightarrow> q_room q (Suc (length (q_items q)))"
  by (auto simp: q_full_def q_room_def)

lemma stream_okD:
  assumes "stream_ok n (s, ps, tk)"
  shows "bs_buffer_size s = n" "distinct (map fst (bs_subscribers s))" "distinct (map snd (bs_subscribers s))"
    "\<forall>i \<in> snd ` set (bs_subscribers s). i < length (bs_store s)"
    "i < length (bs_store s) \<Longrightarrow> q_maxsize (bs_store s ! i) = n"
    "i < length (bs_store s) \<Longrightarrow> q_room (bs_store s ! i) (length (q_items (bs_store s ! i)))"
    "i < length (bs_store s) \<Longrightarrow> subseq (filter (\<lambda>m. \<not> ends_iteration m) (tk i @ q_items (bs_store s ! i))) ps"
    "length (bs_store s) \<le> i \<Longrightarrow> tk i = []"
  using assms by (auto simp: stream_ok_def received_def)

lemma subscribe_ok:
  assumes ok: "stream_ok n (s, ps, tk)"
  shows "stream_ok n (fst (stream_subscribe k s), ps, tk)"
proof (cases "map_of (bs_subscribers s) k")
  case None
  note D = stream_okD [OF ok]
  have "k \<notin> fst ` set (bs_subscribers s)" using None by (simp add: map_of_eq_None_iff)
  moreover have "length (bs_store s) \<notin> snd ` set (bs_subscribers s)" using D(4) by blast
  ultimately show ?thesis
    using D None
    by (auto simp: stream_ok_def stream_subscribe_def Let_def map_fst_update_new new_async_queue_def
        received_def nth_append q_room_def less_Suc_eq)
qed (use ok in \<open>simp add: stream_subscribe_def\<close>)

lemma unsubscribe_ok:
  assumes ok: "stream_ok n (s, ps, tk)"
  shows "stream_ok n (fst (stream_unsubscribe k s), ps, tk)"
proof -
  have sub: "set (AList.delete k (bs_subscribers s)) \<subseteq> set (bs_subscribers s)"
    by (auto simp: AList.delete_eq)
  have "distinct (map snd (AList.delete k (bs_subscribers s)))"
    using stream_okD(3) [OF ok] by (simp add: AList.delete_eq distinct_map_filter)
  with sub ok show ?thesis
    by (auto simp: stream_ok_def stream_unsubscribe_def received_def intro: distinct_delete_dict)
qed

text \<open>A store in which the subscribers' queues may have got one more element.\<close>

lemma put_all_ok:
  assumes ok: "stream_ok n (s, ps, tk)" and ps: "subseq ps ps'"
    and m: "ends_iteration m \<or> ps' = ps @ [m]"
    and s': "bs_store s' = fst (put_all m (bs_subscribers s) (bs_store s))"
    and subs: "bs_subscribers s' = bs_subscribers s \<or> bs_subscribers s' = []"
    and size: "bs_buffer_size s' = bs_buffer_size s"
  shows "stream_ok n (s', ps', tk)"
proof -
  note D = stream_okD [OF ok]
  have len: "length (bs_store s') = length (bs_store s)" by (simp add: s')
  have new: "q_maxsize (bs_store s' ! i) = n
      \<and> q_room (bs_store s' ! i) (length (q_items (bs_store s' ! i)))
      \<and> subseq (filter (\<lambda>m. \<not> ends_iteration m) (tk i @ q_items (bs_store s' ! i))) ps'"
    if i: "i < length (bs_store s)" for i
  proof (cases "i \<in> snd ` set (bs_subscribers s)")
    case False
    then have "bs_store s' ! i = bs_store s ! i" by (simp add: s' put_all_other)
    with D(5-7) [OF i] ps show ?thesis by (auto intro: subseq_order.order_trans)
  next
    case True
    with put_all_spec [OF D(3,4), of m] have q: "q_items (bs_store s' ! i) =
          q_items (bs_store s ! i) @ (if q_full (bs_store s ! i) then [] else [m])"
        "q_maxsize (bs_store s' ! i) = q_maxsize (bs_store s ! i)" by (auto simp: s')
    have "subseq (filter (\<lambda>m. \<not> ends_iteration m) (tk i @ q_items (bs_store s ! i)) @
        (if ends_iteration m then [] else [m])) ps'"
      using D(7) [OF i] m ps list_emb_append_mono [OF D(7) [OF i], of "[m]" "[m]"]
      by (auto intro: subseq_order.order_trans)
    then have "subseq (filter (\<lambda>m. \<not> ends_iteration m) (tk i @ q_items (bs_store s' ! i))) ps'"
      using D(7) [OF i] ps by (auto simp: q(1) intro: subseq_order.order_trans split: if_splits)
    moreover have "q_room (bs_store s' ! i) = q_room (bs_store s ! i)"
      using q(2) by (simp add: q_room_def fun_eq_iff)
    then have "q_room (bs_store s' ! i) (length (q_items (bs_store s' ! i)))"
      using D(6) [OF i] q_full_room [of "bs_store s ! i"] q(1) by simp
    ultimately show ?thesis using D(5) [OF i] q(2) by simp
  qed
  show ?thesis
    using D(1-4,8) new len subs size by (auto simp: stream_ok_def received_def)
qed

lemma take_ok:
  assumes ok: "stream_ok n (s, ps, tk)"
  shows "stream_ok n (fst (take_from i s), ps, tk(i := tk i @ snd (take_from i s)))"
proof (cases "i < length (bs_store s) \<and> q_items (bs_store s ! i) \<noteq> []")
  case True
  then obtain x xs where x: "q_items (bs_store s ! i) = x # xs" by (cases "q_items (bs_store s ! i)") auto
  note D = stream_okD [OF ok]
  have "q_room (bs_store s ! i) (length xs)"
    using D(6) [of i] True x by (auto simp: q_room_def)
  moreover have "subseq (filter (\<lambda>m. \<not> ends_iteration m) (tk i @ x # xs)) ps"
    using D(7) [of i] True x by simp
  ultimately show ?thesis
    using D True x
    by (auto simp: stream_ok_def take_from_def q_get_nowait_def received_def nth_list_update q_room_def)
qed (use ok in \<open>auto simp: take_from_def q_get_nowait_def split: list.split\<close>)

interpretation stream: op_machine stream_step "stream_ok n" for n
proof
  fix st :: stream_run and op
  assume ok': "stream_ok n st"
  obtain s ps tk where st: "st = (s, ps, tk)" by (cases st)
  note ok = ok'[unfolded st]
  show "stream_ok n (stream_step st op)"
  proof (cases op)
    case (Push v now)
    show ?thesis
    proof (cases "\<not> bs_running s \<or> bs_subscribers s = []")
      case True
      have "stream_ok n (s, ps @ [push_message s v now], tk)"
        using ok by (auto simp: stream_ok_def received_def)
      with True ok show ?thesis by (auto simp: st Push stream_push_def)
    next
      case False
      then show ?thesis
        by (auto simp: st Push stream_push_def split: prod.split
            intro!: put_all_ok [OF ok, where m = "push_message s v now"])
    qed
  next
    case CloseStream
    then show ?thesis
      by (auto simp: st stream_close_def close_message_ends intro!: put_all_ok [OF ok, where m = "close_message s"])
  next
    case (Post v now)
    then show ?thesis using ok
      by (auto simp: st stream_post_def stream_ok_def received_def Let_def split: option.split)
  next
    case Receive
    then show ?thesis using ok
      by (auto simp: st stream_receive_def stream_ok_def received_def split: option.split)
  qed (use ok in \<open>auto simp: st subscribe_ok unsubscribe_ok take_ok\<close>)
qed

section \<open>Iteration\<close>

definition message_data :: "pyval \<Rightarrow> pyval" where
  "message_data m = (case m of PDict d \<Rightarrow> dict_get d ''data'' | _ \<Rightarrow> PNone)"

lemma iterate_append:
  "\<forall>m \<in> set xs. \<not> ends_iteration m \<Longrightarrow>
     iterate (xs @ ys) = (map message_data xs @ fst (iterate ys), snd (iterate ys))"
  by (induction xs)
    (auto simp: message_data_def ends_iteration_def split: pyval.splits prod.split)

definition goes_on :: "pyval AsyncQueue \<Rightarrow> bool" where
  "goes_on q = (\<forall>m \<in> set (q_items q). \<not> ends_iteration m)"

definition open_queues :: "stream_run \<Rightarrow> bool" where
  "open_queues st = (goes_on (bs_data_queue (fst st)) \<and> (\<forall>q \<in> set (bs_store (fst st)). goes_on q))"

lemma iterate_open:
  "goes_on q \<Longrightarrow> iterate (q_items q @ ys) = (map message_data (q_items q) @ fst (iterate ys), snd (iterate ys))"
  by (simp add: goes_on_def iterate_append)

lemma put_all_goes_on:
  "\<forall>q \<in> set store. goes_on q \<Longrightarrow> \<not> ends_iteration m \<Longrightarrow> q \<in> set (fst (put_all m subs store)) \<Longrightarrow> goes_on q"
proof (induction m subs store rule: put_all.induct)
  case (2 m k i subs store)
  show ?case
  proof (cases "q_put_nowait (store ! i) m")
    case (Some q')
    have "goes_on r" if r: "r \<in> set (store[i := q'])" for r
    proof (cases "i < length store")
      case True
      with Some 2(3,4) have "goes_on q'" by (auto simp: q_put_iff goes_on_def)
      with r 2(3) set_update_subset_insert [of store i q'] show ?thesis by blast
    next
      case False
      then have "store[i := q'] = store" by (simp add: list_update_beyond)
      with r 2(3) show ?thesis by metis
    qed
    with 2(2) [OF Some] 2(4,5) Some show ?thesis by (simp split: prod.splits)
  qed (use 2 in simp)
qed simp

lemma open_queues_step: "open_queues st \<Longrightarrow> op \<noteq> CloseStream \<Longrightarrow> open_queues (stream_step st op)"
proof (cases "(st, op)" rule: stream_step.cases)
  case (3 s ps tk v now)
  assume "open_queues st"
  with 3 have "open_queues (fst (stream_push v now s), ps, tk)"
    using put_all_goes_on [of "bs_store s" "push_message s v now" _ "bs_subscribers s"] push_message_goes_on
    by (auto simp: open_queues_def stream_push_def split: prod.split)
  with 3 show ?thesis by (simp add: open_queues_def)
next
  case (4 s ps tk i)
  assume ok: "open_queues st"
  show ?thesis
  proof (cases "i < length (bs_store s) \<and> q_items (bs_store s ! i) \<noteq> []")
    case True
    then obtain x xs where x: "q_items (bs_store s ! i) = x # xs" by (cases "q_items (bs_store s ! i)") auto
    let ?q = "(bs_store s ! i)\<lparr>q_items := xs\<rparr>"
    from ok 4 True have "goes_on (bs_store s ! i)" by (simp add: open_queues_def)
    then have "goes_on ?q" by (simp add: goes_on_def x)
    with ok 4 set_update_subset_insert [of "bs_store s" i ?q] have "\<forall>q \<in> set ((bs_store s)[i := ?q]). goes_on q"
      by (auto simp: open_queues_def)
    with ok 4 True x show ?thesis by (simp add: open_queues_def take_from_def q_get_nowait_def)
  next
    case False
    with ok 4 show ?thesis by (auto simp: open_queues_def take_from_def q_get_nowait_def split: list.split)
  qed
qed (auto simp: open_queues_def goes_on_def stream_subscribe_def stream_unsubscribe_def new_async_queue_def
      stream_post_def stream_receive_def q_put_iff q_get_nowait_def ends_iteration_def dict_get_def Let_def
      split: option.split prod.split list.split)

lemma open_queues_run:
  "open_queues st \<Longrightarrow> CloseStream \<notin> set ops \<Longrightarrow> open_queues (foldl stream_step st ops)"
proof (induction ops arbitrary: st)
  case (Cons op ops)
  then have "open_queues (stream_step st op)" by (intro open_queues_step) auto
  with Cons show ?case by simp
qed simp

section \<open>Properties\<close>

text \<open>
  C6. Delivery: after any calls on a stream and any reading by its consumers, what a subscriber has
  received so far - taken or waiting in its queue - is in the order of the pushes and holds no
  message twice, its queue is within the buffer size, and one more push reaches exactly the
  subscribers whose queues have room, at their ends, and returns their number; a full queue holds
  up nobody.
\<close>

theorem stream_delivery:
  assumes run: "(s, pushed, taken) = foldl stream_step (new_stream name owner bufsize uid t0, [], \<lambda>_. []) ops"
  shows "(\<forall>i < length (bs_store s).
        subseq (filter (\<lambda>m. \<not> ends_iteration m) (taken i @ q_items (bs_store s ! i))) pushed
        \<and> (0 < bufsize \<longrightarrow> int (length (q_items (bs_store s ! i))) \<le> bufsize))
    \<and> (bs_running s \<and> bs_subscribers s \<noteq> [] \<longrightarrow>
        snd (stream_push v now s) = length (filter (\<lambda>(k, i). \<not> q_full (bs_store s ! i)) (bs_subscribers s))
        \<and> (\<forall>(k, i) \<in> set (bs_subscribers s). q_items (bs_store (fst (stream_push v now s)) ! i) =
             q_items (bs_store s ! i) @ (if q_full (bs_store s ! i) then [] else [push_message s v now])))"
proof -
  have "stream_ok bufsize (new_stream name owner bufsize uid t0, [], \<lambda>_. [])"
    by (simp add: stream_ok_def new_stream_def)
  then have ok: "stream_ok bufsize (s, pushed, taken)" unfolding run by (rule stream.run_inv)
  note D = stream_okD [OF ok]
  have "0 < bufsize \<Longrightarrow> i < length (bs_store s) \<Longrightarrow> int (length (q_items (bs_store s ! i))) \<le> bufsize" for i
    using D(5,6) [of i] by (simp add: q_room_def)
  moreover have "bs_running s \<and> bs_subscribers s \<noteq> [] \<Longrightarrow>
      stream_push v now s = (s\<lparr>bs_store := fst (put_all (push_message s v now) (bs_subscribers s) (bs_store s)),
        bs_info := (bs_info s)\<lparr>si_message_count := si_message_count (bs_info s) + 1\<rparr>\<rparr>,
        snd (put_all (push_message s v now) (bs_subscribers s) (bs_store s)))"
    by (simp add: stream_push_def split: prod.split)
  ultimately show ?thesis
    using D(7) put_all_spec [OF D(3,4), of "push_message s v now"] by fastforce
qed

theorem stream_delivery_witness:
  "\<exists>s pushed taken. (s, pushed, taken) = foldl stream_step (new_stream ''s'' ''server'' 1 ''u'' 0, [], \<lambda>_. [])
      [Subscribe ''a'', Push (PInt 1) 0, Subscribe ''b'']
    \<and> subseq (taken 0 @ q_items (bs_store s ! 0)) pushed \<and> snd (stream_push (PInt 2) 1 s) = 1"
proof -
  let ?st = "foldl stream_step (new_stream ''s'' ''server'' 1 ''u'' 0, [], \<lambda>_. [])
      [Subscribe ''a'', Push (PInt 1) 0, Subscribe ''b'']"
  obtain s pushed taken where st: "(s, pushed, taken) = ?st" by (cases ?st) simp
  have s: "bs_subscribers s = [(''a'', 0), (''b'', 1)]" "bs_running s" "length (bs_store s) = 2"
    "q_full (bs_store s ! 0)" "\<not> q_full (bs_store s ! 1)"
    "filter (\<lambda>m. \<not> ends_iteration m) (taken 0 @ q_items (bs_store s ! 0)) = taken 0 @ q_items (bs_store s ! 0)"
    using st by (simp_all add: stream_subscribe_def stream_push_def new_stream_def new_async_queue_def
        q_put_nowait_def q_full_def push_message_goes_on)
  note D = stream_delivery [OF st, of "PInt 2" 1]
  have "subseq (filter (\<lambda>m. \<not> ends_iteration m) (taken 0 @ q_items (bs_store s ! 0))) pushed"
    using D s(3) by (metis zero_less_numeral)
  moreover have
    "snd (stream_push (PInt 2) 1 s) = length (filter (\<lambda>(k, i). \<not> q_full (bs_store s ! i)) [(''a'', 0), (''b'', 1)])"
    using D s(1,2) by simp
  ultimately have "subseq (taken 0 @ q_items (bs_store s ! 0)) pushed" "snd (stream_push (PInt 2) 1 s) = 1"
    using s(4-6) by simp_all
  with st show ?thesis by blast
qed

text \<open>
  C40. A close message can be lost: after any calls, closing a stream stops it and forgets its
  subscribers, and puts the close message behind what is buffered in its own queue and in the queue of
  every subscriber - unless that queue is full.  A consumer that iterates over such a queue, its own or
  a subscriber's, gets everything that was buffered and then ends exactly if there was room for the
  close message; on a full buffer it waits for ever after the last element.
\<close>

theorem closed_stream_ends_iff:
  assumes "CloseStream \<notin> set ops"
    and "s = fst (foldl stream_step (new_stream name owner bufsize uid t0, [], \<lambda>_. []) ops)"
  shows "stream_iter (stream_close s) =
      (map message_data (q_items (bs_data_queue s)), \<not> q_full (bs_data_queue s))
    \<and> (\<forall>(k, i) \<in> set (bs_subscribers s).
        iterate (q_items (bs_store (stream_close s) ! i)) =
          (map message_data (q_items (bs_store s ! i)), \<not> q_full (bs_store s ! i)))
    \<and> bs_subscribers (stream_close s) = [] \<and> snd (stream_push v now (stream_close s)) = 0"
proof -
  let ?st = "foldl stream_step (new_stream name owner bufsize uid t0, [], \<lambda>_. []) ops"
  obtain ps tk where st: "?st = (s, ps, tk)" using assms(2) by (cases ?st) simp
  have "open_queues (new_stream name owner bufsize uid t0, [], \<lambda>_. [])"
    by (simp add: open_queues_def goes_on_def new_stream_def new_async_queue_def)
  from open_queues_run [OF this assms(1)] have open_all: "goes_on (bs_data_queue s)"
    "\<And>i. i < length (bs_store s) \<Longrightarrow> goes_on (bs_store s ! i)" by (simp_all add: open_queues_def st)
  have "stream_ok bufsize (new_stream name owner bufsize uid t0, [], \<lambda>_. [])"
    by (simp add: stream_ok_def new_stream_def)
  then have "stream_ok bufsize (s, ps, tk)" unfolding st [symmetric] by (rule stream.run_inv)
  note D = stream_okD [OF this]
  have ends: "snd (iterate [close_message s])" "fst (iterate [close_message s]) = []"
    by (simp_all add: close_message_ends)
  have "iterate (q_items (bs_store (stream_close s) ! i)) =
      (map message_data (q_items (bs_store s ! i)), \<not> q_full (bs_store s ! i))" if "(k, i) \<in> set (bs_subscribers s)" for k i
  proof -
    from that have i: "i \<in> snd ` set (bs_subscribers s)" by force
    with D(4) have go: "goes_on (bs_store s ! i)" by (intro open_all) blast
    from put_all_spec [OF D(3,4), of "close_message s"] i
    have "q_items (bs_store (stream_close s) ! i) =
        q_items (bs_store s ! i) @ (if q_full (bs_store s ! i) then [] else [close_message s])"
      unfolding stream_close_def by auto
    with iterate_open [OF go, of "[]"] iterate_open [OF go, of "[close_message s]"] ends
    show ?thesis by (simp del: iterate.simps(2))
  qed
  moreover from iterate_open [OF open_all(1), of "[]"] iterate_open [OF open_all(1), of "[close_message s]"] ends
  have "stream_iter (stream_close s) = (map message_data (q_items (bs_data_queue s)), \<not> q_full (bs_data_queue s))"
    by (simp add: stream_iter_def stream_close_def q_put_nowait_def)
  ultimately show ?thesis by (auto simp: stream_close_def stream_push_def)
qed

theorem closed_stream_ends_iff_witness:
  "\<exists>s. s = fst (foldl stream_step (new_stream ''s'' ''server'' 1 ''u'' 0, [], \<lambda>_. [])
      [Post (PInt 7) 0, Subscribe ''a'', Subscribe ''b'', Take 1, Push (PInt 5) 0, Take 0])
    \<and> snd (stream_iter (stream_close s)) = False
    \<and> iterate (q_items (bs_store (stream_close s) ! 0)) = ([], True)
    \<and> iterate (q_items (bs_store (stream_close s) ! 1)) = ([PInt 5], False)"
proof -
  let ?ops = "[Post (PInt 7) 0, Subscribe ''a'', Subscribe ''b'', Take 1, Push (PInt 5) 0, Take 0]"
  let ?s = "fst (foldl stream_step (new_stream ''s'' ''server'' 1 ''u'' 0, [], \<lambda>_. []) ?ops)"
  have s: "bs_subscribers ?s = [(''a'', 0), (''b'', 1)]" "q_full (bs_data_queue ?s)"
    "q_items (bs_store ?s ! 0) = []" "\<not> q_full (bs_store ?s ! 0)" "q_full (bs_store ?s ! 1)"
    "map message_data (q_items (bs_store ?s ! 1)) = [PInt 5]"
    by (simp_all add: stream_post_def stream_subscribe_def stream_push_def take_from_def new_stream_def
        new_async_queue_def q_put_nowait_def q_get_nowait_def q_full_def push_message_def message_data_def
        dict_get_def Let_def)
  have "CloseStream \<notin> set ?ops" by simp
  from closed_stream_ends_iff [OF this refl, of "''s''" "''server''" 1 "''u''" 0] s show ?thesis by simp
qed

text \<open>
  Unsubscribing by RPC does nothing: every RPC call draws a new subscriber id, so after any
  sequence of \<open>stream_subscribe\<close> and \<open>stream_unsubscribe\<close> calls for a stream it has one more
  subscriber for every subscribe call, none ever leaves.
\<close>

lemma rpc_unsubscribe_leaks:
  assumes "map_of (sm_streams m) name = Some st"
    and "\<forall>c \<in> set calls. fst c \<in> {RpcStreamSubscribe name, RpcStreamUnsubscribe name}"
    and "distinct (map snd calls)" and "\<forall>c \<in> set calls. \<not> dict_has (bs_subscribers st) (snd c)"
  shows "\<exists>st'. map_of (sm_streams (foldl (\<lambda>m c. fst (stream_rpc_call (fst c) (snd c) [] 0 m)) m calls)) name = Some st'
    \<and> subscriber_count st' = subscriber_count st + length (filter (\<lambda>c. fst c = RpcStreamSubscribe name) calls)"
  using assms
proof (induction calls arbitrary: m st)
  case Nil
  then show ?case by simp
next
  case (Cons c calls)
  show ?case
  proof (cases "fst c = RpcStreamSubscribe name")
    case True
    let ?st = "fst (stream_subscribe (snd c) st)"
    have none: "map_of (bs_subscribers st) (snd c) = None" using Cons.prems(4) by (simp add: dict_has_def)
    then have sub: "bs_subscribers ?st = AList.update (snd c) (length (bs_store st)) (bs_subscribers st)"
      by (simp add: stream_subscribe_def Let_def)
    have m: "map_of (sm_streams (fst (stream_rpc_call (fst c) (snd c) [] 0 m))) name = Some ?st"
      using Cons.prems(1) True by (simp add: stream_rpc_subscribe_def put_stream_def update_conv')
    have "subscriber_count ?st = subscriber_count st + 1"
      using none by (simp add: subscriber_count_def sub length_update_new)
    moreover have "\<forall>d \<in> set calls. \<not> dict_has (bs_subscribers ?st) (snd d)"
    proof
      fix d assume "d \<in> set calls"
      moreover from this have "snd d \<noteq> snd c" using Cons.prems(3) by (metis distinct.simps(2) image_eqI list.set_map list.simps(9))
      ultimately show "\<not> dict_has (bs_subscribers ?st) (snd d)" using Cons.prems(4) by (simp add: sub)
    qed
    ultimately show ?thesis
      using Cons.IH [OF m] Cons.prems(2,3) True by auto
  next
    case False
    then have "fst c = RpcStreamUnsubscribe name" using Cons.prems(2) by simp
    then have m: "map_of (sm_streams (fst (stream_rpc_call (fst c) (snd c) [] 0 m))) name = Some st"
      using Cons.prems(1,4) by (simp add: stream_rpc_unsubscribe_def stream_unsubscribe_def put_stream_def update_conv')
    from Cons.IH [OF m] Cons.prems(2-4) False show ?thesis by auto
  qed
qed

text \<open>
  Subscribing to a server's stream never works: whatever the server answers to the
  \<open>stream_subscribe\<close> call - its dict has no success key, and \<open>RPC.call\<close> has taken the wrapper off -
  the client's \<open>subscribe\<close> raises.
\<close>

lemma subscribe_always_raises:
  assumes "json_law cd (snd (stream_rpc_subscribe name uid server))"
  shows "\<exists>e. manager_subscribe
      (caller_sees cd ''stream_subscribe'' timeout (snd (stream_rpc_subscribe name uid server)))
      name uid' now client = Inl e"
proof -
  have "\<exists>d. snd (stream_rpc_subscribe name uid server) = PDict d \<and> \<not> dict_has d ''success''"
    by (simp add: stream_rpc_subscribe_def dict_has_def split: option.split)
  then obtain d where d: "snd (stream_rpc_subscribe name uid server) = PDict d" "\<not> dict_has d ''success''"
    by blast
  from caller_sees_no_success [OF d assms] consider
    "caller_sees cd ''stream_subscribe'' timeout (snd (stream_rpc_subscribe name uid server)) = CallReturns (PDict d)"
    | "caller_sees cd ''stream_subscribe'' timeout (snd (stream_rpc_subscribe name uid server))
        = RPCTimeoutRaised ''stream_subscribe'' timeout"
    using d(1) by auto
  moreover have "\<not> truthy (dict_get d ''success'')" using d(2) by (simp add: dict_has_def dict_get_def)
  ultimately show ?thesis by cases (auto simp: manager_subscribe_def)
qed

end
