(* ===== verification/FileTransfer.thy ===== *)
theory FileTransfer
  imports Calls
begin

text \<open>
  \<open>src/conduit/transfer/file_transfer.py\<close>: chunked upload and download.  Files are kept as the code's
  calls see them: a directory from path strings to inodes and a store of contents, so that an open
  handle survives a rename or a removal.  Paths are compared as strings (no normalisation), writes
  are visible at once (no buffering), and the disk does not fill up.  SHA-256, base64 and which
  directories exist are the record \<open>transfer_env\<close>.
\<close>

section \<open>Paths\<close>

definition after_last :: "char \<Rightarrow> string \<Rightarrow> string" where
  "after_last c p = rev (takeWhile (\<lambda>x. x \<noteq> c) (rev p))"

definition path_join :: "string \<Rightarrow> string \<Rightarrow> string" where
  "path_join a b =
     (if b \<noteq> [] \<and> hd b = CHR ''/'' then b
      else if a = [] \<or> List.last a = CHR ''/'' then a @ b else a @ CHR ''/'' # b)"

definition path_basename :: "string \<Rightarrow> string" where
  "path_basename p = after_last (CHR ''/'') p"

text \<open>\<open>os.path.splitext\<close>: leading dots of the file name are no extension.\<close>

definition path_splitext :: "string \<Rightarrow> string \<times> string" where
  "path_splitext p =
     (let name = after_last (CHR ''/'') p; dir = take (length p - length name) p;
          ext = after_last (CHR ''.'') name; stem = take (length name - length ext - 1) name
      in if CHR ''.'' \<in> set name \<and> (\<exists>c \<in> set stem. c \<noteq> CHR ''.'') then (dir @ stem, CHR ''.'' # ext)
         else (p, []))"

record transfer_env =
  te_sha256 :: "bytes \<Rightarrow> string"
  te_b64decode :: "string \<Rightarrow> bytes option" \<comment> \<open>None: \<open>binascii.Error\<close>\<close>
  te_is_dir :: "string \<Rightarrow> bool"
  te_parent_ok :: "string \<Rightarrow> bool" \<comment> \<open>a file can be created at that path\<close>

section \<open>Progress\<close>

record TransferProgress =
  tp_filename :: string
  tp_total_size :: int
  tp_transferred :: int
  tp_chunks_sent :: int
  tp_direction :: string
  tp_start_time :: time

definition progress_percent :: "TransferProgress \<Rightarrow> rat" where
  "progress_percent p =
     (if tp_total_size p = 0 then 100 else of_int (tp_transferred p) / of_int (tp_total_size p) * 100)"

definition progress_elapsed :: "time \<Rightarrow> TransferProgress \<Rightarrow> time" where
  "progress_elapsed now p = now - tp_start_time p"

definition progress_speed :: "time \<Rightarrow> TransferProgress \<Rightarrow> rat" where
  "progress_speed now p =
     (if progress_elapsed now p = 0 then 0 else of_int (tp_transferred p) / progress_elapsed now p)"

text \<open>None: infinity.\<close>

definition progress_eta :: "time \<Rightarrow> TransferProgress \<Rightarrow> rat option" where
  "progress_eta now p =
     (if progress_speed now p = 0 then None
      else Some (of_int (tp_total_size p - tp_transferred p) / progress_speed now p))"

section \<open>Transfers\<close>

record incoming =
  in_filename :: string
  in_size :: int
  in_checksum :: string
  in_total_chunks :: int
  in_received_chunks :: int
  in_temp_path :: string
  in_final_path :: string
  in_inode :: nat \<comment> \<open>the open file, its position, and whether it is closed\<close>
  in_pos :: nat
  in_closed :: bool
  in_start_time :: time

record outgoing =
  out_filepath :: string
  out_size :: int
  out_total_chunks :: int
  out_inode :: nat
  out_closed :: bool

datatype transfer = Incoming incoming | Outgoing outgoing

record FileTransferHandler =
  ft_storage_dir :: string
  ft_chunk_size :: int
  ft_active :: "(string, transfer) dict"
  ft_disk :: "(string, nat) dict"
  ft_inodes :: "bytes list"
  ft_on_file_received :: bool
  ft_on_progress :: bool

definition new_file_transfer :: "string \<Rightarrow> int \<Rightarrow> (string, nat) dict \<Rightarrow> bytes list \<Rightarrow> FileTransferHandler" where
  "new_file_transfer dir chunk disk inodes = \<lparr>ft_storage_dir = dir, ft_chunk_size = chunk, ft_active = [],
     ft_disk = disk, ft_inodes = inodes, ft_on_file_received = False, ft_on_progress = False\<rparr>"

definition file_at :: "FileTransferHandler \<Rightarrow> string \<Rightarrow> bytes option" where
  "file_at s p = map_option (\<lambda>i. ft_inodes s ! i) (map_of (ft_disk s) p)"

definition put_transfer :: "string \<Rightarrow> transfer \<Rightarrow> FileTransferHandler \<Rightarrow> FileTransferHandler" where
  "put_transfer k t s = s\<lparr>ft_active := AList.update k t (ft_active s)\<rparr>"

definition drop_transfer :: "string \<Rightarrow> FileTransferHandler \<Rightarrow> FileTransferHandler" where
  "drop_transfer k s = s\<lparr>ft_active := AList.delete k (ft_active s)\<rparr>"

text \<open>\<open>open(p, "wb")\<close>: an existing file is emptied, a missing one created.\<close>

definition open_wb :: "transfer_env \<Rightarrow> string \<Rightarrow> FileTransferHandler \<Rightarrow> (FileTransferHandler \<times> nat) option" where
  "open_wb te p s =
     (if te_is_dir te p \<or> \<not> te_parent_ok te p then None
      else case map_of (ft_disk s) p of
        Some i \<Rightarrow> Some (s\<lparr>ft_inodes := (ft_inodes s)[i := []]\<rparr>, i)
      | None \<Rightarrow> Some (s\<lparr>ft_inodes := ft_inodes s @ [[]],
                    ft_disk := AList.update p (length (ft_inodes s)) (ft_disk s)\<rparr>, length (ft_inodes s)))"

text \<open>Writing at a position: a gap before it is filled with zeros.\<close>

definition write_at :: "nat \<Rightarrow> bytes \<Rightarrow> bytes \<Rightarrow> bytes" where
  "write_at pos bs content =
     (if bs = [] then content
      else take pos content @ replicate (pos - length content) 0 @ bs @ drop (pos + length bs) content)"

definition path_exists :: "transfer_env \<Rightarrow> FileTransferHandler \<Rightarrow> string \<Rightarrow> bool" where
  "path_exists te s p = (dict_has (ft_disk s) p \<or> te_is_dir te p)"

text \<open>\<open>(size + chunk_size - 1) // chunk_size\<close>; None: ZeroDivisionError.\<close>

definition chunk_count :: "int \<Rightarrow> int \<Rightarrow> int option" where
  "chunk_count chunk bytes_total =
     (if chunk = 0 then None else Some ((bytes_total + chunk - 1) div chunk))"

section \<open>Receiving\<close>

text \<open>Each operation gives the state it leaves, and its answer; None: an exception.\<close>

definition start_receive ::
  "transfer_env \<Rightarrow> string \<Rightarrow> int \<Rightarrow> string \<Rightarrow> string \<Rightarrow> time \<Rightarrow> FileTransferHandler
     \<Rightarrow> FileTransferHandler \<times> pyval option" where
  "start_receive te filename len checksum tid now s =
     (case chunk_count (ft_chunk_size s) len of
        None \<Rightarrow> (s, None)
      | Some n \<Rightarrow>
          (let temp_path = path_join (ft_storage_dir s) (CHR ''.'' # tid @ ''.tmp'')
           in case open_wb te temp_path s of
                None \<Rightarrow> (s, None)
              | Some (s1, i) \<Rightarrow>
                  (put_transfer tid (Incoming \<lparr>in_filename = filename, in_size = len, in_checksum = checksum,
                       in_total_chunks = n, in_received_chunks = 0, in_temp_path = temp_path,
                       in_final_path = path_join (ft_storage_dir s) filename, in_inode = i, in_pos = 0,
                       in_closed = False, in_start_time = now\<rparr>) s1,
                   Some (PDict [(''transfer_id'', PStr tid), (''chunk_size'', PInt (ft_chunk_size s)),
                                (''total_chunks'', PInt n)]))))"

definition not_found :: pyval where
  "not_found = PDict [(''error'', PStr ''Transfer not found'')]"

definition chunk_bytes :: "transfer_env \<Rightarrow> pyval \<Rightarrow> bytes option" where
  "chunk_bytes te v = (case v of PStr t \<Rightarrow> te_b64decode te t | PBytes b \<Rightarrow> Some b | _ \<Rightarrow> None)"

definition receive_chunk ::
  "transfer_env \<Rightarrow> string \<Rightarrow> int \<Rightarrow> pyval \<Rightarrow> FileTransferHandler \<Rightarrow> FileTransferHandler \<times> pyval option" where
  "receive_chunk te tid chunk_index v s =
     (case map_of (ft_active s) tid of
        None \<Rightarrow> (s, Some not_found)
      | Some (Outgoing t) \<Rightarrow> (s, None)
      | Some (Incoming t) \<Rightarrow>
          (case chunk_bytes te v of
             None \<Rightarrow> (s, None)
           | Some bs \<Rightarrow>
               if in_closed t then (s, None)
               else
                 (let t' = t\<lparr>in_pos := in_pos t + length bs, in_received_chunks := in_received_chunks t + 1\<rparr>
                  in (put_transfer tid (Incoming t')
                        (s\<lparr>ft_inodes := (ft_inodes s)[in_inode t := write_at (in_pos t) bs (ft_inodes s ! in_inode t)]\<rparr>),
                      Some (PDict [(''received'', PBool True), (''chunk_index'', PInt chunk_index),
                        (''chunks_received'', PInt (in_received_chunks t')),
                        (''total_chunks'', PInt (in_total_chunks t))])))))"

text \<open>\<open>int\<close> of a clock reading, as text.\<close>

definition stamp :: "time \<Rightarrow> string" where
  "stamp now = (if py_int now < 0 then CHR ''-'' # digits_of (nat (- py_int now)) else digits_of (nat (py_int now)))"

definition free_path :: "transfer_env \<Rightarrow> FileTransferHandler \<Rightarrow> string \<Rightarrow> time \<Rightarrow> string" where
  "free_path te s p now =
     (if path_exists te s p
      then (case path_splitext p of (base, ext) \<Rightarrow> base @ CHR ''_'' # stamp now @ ext) else p)"

definition rename_file :: "string \<Rightarrow> string \<Rightarrow> FileTransferHandler \<Rightarrow> FileTransferHandler" where
  "rename_file a b s =
     (case map_of (ft_disk s) a of
        None \<Rightarrow> s
      | Some i \<Rightarrow> s\<lparr>ft_disk := AList.update b i (AList.delete a (ft_disk s))\<rparr>)"

definition complete_receive ::
  "transfer_env \<Rightarrow> string \<Rightarrow> time \<Rightarrow> FileTransferHandler \<Rightarrow> FileTransferHandler \<times> pyval option" where
  "complete_receive te tid now s =
     (case map_of (ft_active s) tid of
        None \<Rightarrow> (s, Some not_found)
      | Some (Outgoing t) \<Rightarrow> (put_transfer tid (Outgoing (t\<lparr>out_closed := True\<rparr>)) s, None)
      | Some (Incoming t) \<Rightarrow>
          (let s1 = put_transfer tid (Incoming (t\<lparr>in_closed := True\<rparr>)) s
           in case file_at s1 (in_temp_path t) of
                None \<Rightarrow> (s1, None)
              | Some content \<Rightarrow>
                  (let computed = te_sha256 te content
                   in if computed \<noteq> in_checksum t then
                        (drop_transfer tid (s1\<lparr>ft_disk := AList.delete (in_temp_path t) (ft_disk s1)\<rparr>),
                         Some (PDict [(''error'', PStr ''Checksum mismatch''),
                           (''expected'', PStr (in_checksum t)), (''got'', PStr computed)]))
                      else
                        (let final_path = free_path te s1 (in_final_path t) now
                         in if te_is_dir te final_path \<or> \<not> te_parent_ok te final_path then (s1, None)
                            else
                              (drop_transfer tid (rename_file (in_temp_path t) final_path s1),
                               Some (PDict [(''success'', PBool True), (''filename'', PStr (in_filename t)),
                                 (''size'', PInt (in_size t)), (''path'', PStr final_path),
                                 (''elapsed'', PFloat (now - in_start_time t))]))))))"

section \<open>Downloads\<close>

definition start_download ::
  "transfer_env \<Rightarrow> string \<Rightarrow> string \<Rightarrow> FileTransferHandler \<Rightarrow> FileTransferHandler \<times> pyval option" where
  "start_download te filename tid s =
     (let filepath = path_join (ft_storage_dir s) filename
      in if \<not> path_exists te s filepath then (s, Some (PDict [(''error'', PStr ''File not found'')]))
         else case map_of (ft_disk s) filepath of
           None \<Rightarrow> (s, None)
         | Some i \<Rightarrow>
             (let len = int (length (ft_inodes s ! i))
              in case chunk_count (ft_chunk_size s) len of
                   None \<Rightarrow> (s, None)
                 | Some n \<Rightarrow>
                     (put_transfer tid (Outgoing \<lparr>out_filepath = filepath, out_size = len,
                          out_total_chunks = n, out_inode = i, out_closed = False\<rparr>) s,
                      Some (PDict [(''transfer_id'', PStr tid), (''size'', PInt len),
                        (''total_chunks'', PInt n), (''chunk_size'', PInt (ft_chunk_size s))]))))"

text \<open>\<open>f.read(n)\<close> at a position: all that is left if \<open>n\<close> is negative.\<close>

definition read_at :: "nat \<Rightarrow> int \<Rightarrow> bytes \<Rightarrow> bytes" where
  "read_at pos n content = (if n < 0 then drop pos content else take (nat n) (drop pos content))"

text \<open>On a file opened for writing the seek is done, and then the read raises.\<close>

definition get_download_chunk ::
  "string \<Rightarrow> int \<Rightarrow> FileTransferHandler \<Rightarrow> FileTransferHandler \<times> pyval option" where
  "get_download_chunk tid chunk_index s =
     (let pos = chunk_index * ft_chunk_size s
      in case map_of (ft_active s) tid of
           None \<Rightarrow> (s, Some not_found)
         | Some (Incoming t) \<Rightarrow>
             (if in_closed t \<or> pos < 0 then s else put_transfer tid (Incoming (t\<lparr>in_pos := nat pos\<rparr>)) s, None)
         | Some (Outgoing t) \<Rightarrow>
             if out_closed t \<or> pos < 0 then (s, None)
             else
               (let chunk = read_at (nat pos) (ft_chunk_size s) (ft_inodes s ! out_inode t)
                in (s, Some (PDict [(''chunk_index'', PInt chunk_index), (''chunk_data'', PBytes chunk),
                      (''size'', PInt (int (length chunk)))]))))"

text \<open>\<open>file_list\<close>: the plain files of the storage directory whose names do not begin with a dot.\<close>

definition list_files :: "transfer_env \<Rightarrow> FileTransferHandler \<Rightarrow> pyval" where
  "list_files te s =
     (let prefix = path_join (ft_storage_dir s) [];
          inside = filter (\<lambda>(p, i). take (length prefix) p = prefix \<and> length prefix < length p
                      \<and> CHR ''/'' \<notin> set (drop (length prefix) p) \<and> p ! length prefix \<noteq> CHR ''.'') (ft_disk s)
      in PDict [(''files'', PList (map (\<lambda>(p, i). PDict
           [(''name'', PStr (drop (length prefix) p)), (''size'', PInt (int (length (ft_inodes s ! i))))]) inside))])"

section \<open>The handlers on both sides\<close>

text \<open>
  The RPC methods of \<open>register_server_handlers\<close>, with the \<open>uuid4\<close> a call may draw.  The third
  component: the paths given to the \<open>on_file_received\<close> callback.
\<close>

datatype file_call =
    UploadStart string int string
  | UploadChunk string int pyval pyval
  | UploadComplete string
  | DownloadStart string
  | DownloadChunk string int
  | FileList

definition completed_path :: "pyval option \<Rightarrow> FileTransferHandler \<Rightarrow> pyval list" where
  "completed_path r s =
     (case r of
        Some (PDict d) \<Rightarrow> if truthy (dict_get d ''success'') \<and> ft_on_file_received s then [dict_get d ''path''] else []
      | _ \<Rightarrow> [])"

fun file_rpc ::
  "transfer_env \<Rightarrow> file_call \<Rightarrow> string \<Rightarrow> time \<Rightarrow> FileTransferHandler
     \<Rightarrow> FileTransferHandler \<times> pyval option \<times> pyval list" where
  "file_rpc te (UploadStart filename n checksum) uid now s =
     (case start_receive te filename n checksum uid now s of (s', r) \<Rightarrow> (s', r, []))"
| "file_rpc te (UploadChunk tid i chunk_data data_b64) uid now s =
     (case receive_chunk te tid i (if chunk_data \<noteq> PNone then chunk_data else data_b64) s of
        (s', r) \<Rightarrow> (s', r, []))"
| "file_rpc te (UploadComplete tid) uid now s =
     (case complete_receive te tid now s of (s', r) \<Rightarrow> (s', r, completed_path r s))"
| "file_rpc te (DownloadStart filename) uid now s =
     (case start_download te filename uid s of (s', r) \<Rightarrow> (s', r, []))"
| "file_rpc te (DownloadChunk tid i) uid now s =
     (case get_download_chunk tid i s of (s', r) \<Rightarrow> (s', r, []))"
| "file_rpc te FileList uid now s = (s, Some (list_files te s), [])"

text \<open>
  The message handlers of \<open>register_client_handlers\<close>, for messages whose fields have the types the
  sender gives them.  A transfer id of None makes \<open>start_receive\<close> draw one.
\<close>

definition client_file_incoming ::
  "transfer_env \<Rightarrow> (string, pyval) dict \<Rightarrow> string \<Rightarrow> time \<Rightarrow> FileTransferHandler
     \<Rightarrow> FileTransferHandler \<times> (string \<times> pyval) option" where
  "client_file_incoming te d uid now s =
     (case (dict_get d ''transfer_id'', dict_get d ''filename'', dict_get d ''size'', dict_get d ''checksum'') of
        (tid, PStr filename, PInt n, PStr checksum) \<Rightarrow>
          (case start_receive te filename n checksum (case tid of PStr t \<Rightarrow> t | _ \<Rightarrow> uid) now s of
             (s', None) \<Rightarrow> (s', None)
           | (s', Some r) \<Rightarrow>
               (s', Some (''file_incoming_ack'', PDict [(''transfer_id'', tid), (''ready'', PBool True)])))
      | _ \<Rightarrow> (s, None))"

definition client_file_chunk ::
  "transfer_env \<Rightarrow> (string, pyval) dict \<Rightarrow> time \<Rightarrow> FileTransferHandler
     \<Rightarrow> FileTransferHandler \<times> TransferProgress list" where
  "client_file_chunk te d now s =
     (case (dict_get d ''transfer_id'', dict_get d ''chunk_index'') of
        (PStr tid, PInt i) \<Rightarrow>
          (case receive_chunk te tid i
              (if dict_get d ''chunk_data'' = PNone then dict_get d ''data_b64'' else dict_get d ''chunk_data'') s of
             (s', None) \<Rightarrow> (s', [])
           | (s', Some r) \<Rightarrow>
               (s', case (ft_on_progress s', map_of (ft_active s') tid) of
                  (True, Some (Incoming t)) \<Rightarrow>
                    [\<lparr>tp_filename = in_filename t, tp_total_size = in_size t,
                      tp_transferred = in_received_chunks t * ft_chunk_size s', tp_chunks_sent = in_received_chunks t,
                      tp_direction = ''download'', tp_start_time = now\<rparr>]
                | _ \<Rightarrow> []))
      | _ \<Rightarrow> (s, []))"

definition client_file_complete ::
  "transfer_env \<Rightarrow> (string, pyval) dict \<Rightarrow> time \<Rightarrow> FileTransferHandler \<Rightarrow> FileTransferHandler \<times> pyval list" where
  "client_file_complete te d now s =
     (case dict_get d ''transfer_id'' of
        PStr tid \<Rightarrow> (case complete_receive te tid now s of (s', r) \<Rightarrow> (s', completed_path r s))
      | _ \<Rightarrow> (s, []))"

section \<open>Sending\<close>

text \<open>The chunks that reading the file in steps gives: none for a chunk size of 0, one for a negative one.\<close>

function file_chunks :: "int \<Rightarrow> bytes \<Rightarrow> bytes list" where
  "file_chunks n content =
     (if content = [] \<or> n = 0 then []
      else if n < 0 then [content]
      else take (nat n) content # file_chunks n (drop (nat n) content))"
  by pat_completeness auto
termination
  by (relation "measure (\<lambda>(n, content). length content)") auto

declare file_chunks.simps [simp del]

text \<open>
  The world a sender works in: \<open>call\<close> is \<open>client.rpc.call\<close> of a method of the other side.  The
  result is a value, or None for an exception; a dict is asked for its success entry, anything else
  is an AttributeError.
\<close>

fun upload_chunks ::
  "(file_call \<Rightarrow> 'w \<Rightarrow> 'w \<times> call_result) \<Rightarrow> string \<Rightarrow> int \<Rightarrow> bytes list \<Rightarrow> 'w
     \<Rightarrow> 'w \<times> (pyval option + unit)" where
  "upload_chunks call tid i [] w = (w, Inr ())"
| "upload_chunks call tid i (c # cs) w =
     (case call (UploadChunk tid i (PBytes c) PNone) w of
        (w', CallReturns (PDict d)) \<Rightarrow>
          if truthy (dict_get d ''success'') then upload_chunks call tid (i + 1) cs w'
          else (w', Inl (Some (PDict d)))
      | (w', _) \<Rightarrow> (w', Inl None))"

definition send_to_server ::
  "(bytes \<Rightarrow> string) \<Rightarrow> (file_call \<Rightarrow> 'w \<Rightarrow> 'w \<times> call_result) \<Rightarrow> int \<Rightarrow> string \<Rightarrow> bytes option \<Rightarrow> 'w
     \<Rightarrow> 'w \<times> pyval option" where
  "send_to_server sha call chunk filepath file w =
     (case file of
        None \<Rightarrow> (w, None)
      | Some content \<Rightarrow>
          if chunk = 0 then (w, None)
          else
            (case call (UploadStart (path_basename filepath) (int (length content)) (sha content)) w of
               (w1, CallReturns (PDict d)) \<Rightarrow>
                 if \<not> truthy (dict_get d ''success'') then (w1, Some (PDict d))
                 else
                   (case (if dict_has d ''data'' then dict_get d ''data'' else PDict []) of
                      PDict info \<Rightarrow>
                        (case dict_get info ''transfer_id'' of
                           PStr tid \<Rightarrow>
                             (case upload_chunks call tid 0 (file_chunks chunk content) w1 of
                                (w2, Inl r) \<Rightarrow> (w2, r)
                              | (w2, Inr u) \<Rightarrow>
                                  (case call (UploadComplete tid) w2 of
                                     (w3, CallReturns v) \<Rightarrow> (w3, Some v)
                                   | (w3, _) \<Rightarrow> (w3, None)))
                         | _ \<Rightarrow> (w1, None))
                    | _ \<Rightarrow> (w1, None))
             | (w1, _) \<Rightarrow> (w1, None)))"

text \<open>The messages of \<open>send_to_client\<close> in order, and their sending until one raises.\<close>

definition client_messages ::
  "(bytes \<Rightarrow> string) \<Rightarrow> int \<Rightarrow> string \<Rightarrow> bytes \<Rightarrow> string \<Rightarrow> int \<Rightarrow> (string \<times> pyval) list" where
  "client_messages sha chunk filename content tid n =
     [(''file_incoming'', PDict [(''transfer_id'', PStr tid), (''filename'', PStr filename),
         (''size'', PInt (int (length content))), (''checksum'', PStr (sha content)), (''total_chunks'', PInt n)])]
     @ map (\<lambda>(i, c). (''file_chunk'', PDict [(''transfer_id'', PStr tid), (''chunk_index'', PInt (int i)),
         (''chunk_data'', PBytes c)])) (enumerate 0 (file_chunks chunk content))
     @ [(''file_complete'', PDict [(''transfer_id'', PStr tid), (''checksum'', PStr (sha content))])]"

fun send_all :: "(string \<Rightarrow> pyval \<Rightarrow> 'w \<Rightarrow> 'w \<times> bool) \<Rightarrow> (string \<times> pyval) list \<Rightarrow> 'w \<Rightarrow> 'w \<times> bool" where
  "send_all send [] w = (w, True)"
| "send_all send ((t, v) # ms) w =
     (case send t v w of (w', ok) \<Rightarrow> if ok then send_all send ms w' else (w', False))"

definition send_to_client ::
  "(bytes \<Rightarrow> string) \<Rightarrow> (string \<Rightarrow> pyval \<Rightarrow> 'w \<Rightarrow> 'w \<times> bool) \<Rightarrow> bool \<Rightarrow> int \<Rightarrow> string \<Rightarrow> bytes option \<Rightarrow> string
     \<Rightarrow> 'w \<Rightarrow> 'w \<times> pyval option" where
  "send_to_client sha send known chunk filepath file tid w =
     (case file of
        None \<Rightarrow> (w, None)
      | Some content \<Rightarrow>
          (case chunk_count chunk (int (length content)) of
             None \<Rightarrow> (w, None)
           | Some n \<Rightarrow>
               if \<not> known then (w, Some (PDict [(''error'', PStr ''Client not found'')]))
               else
                 (case send_all send (client_messages sha chunk (path_basename filepath) content tid n) w of
                    (w', ok) \<Rightarrow>
                      (w', if ok then Some (PDict [(''success'', PBool True),
                             (''filename'', PStr (path_basename filepath)), (''size'', PInt (int (length content)))])
                           else None))))"

text \<open>
  \<open>receive_from_server\<close>: the world, what has been written to the local file (None: it was not
  opened), and the result.
\<close>

fun download_chunks ::
  "(string \<Rightarrow> bytes option) \<Rightarrow> (file_call \<Rightarrow> 'w \<Rightarrow> 'w \<times> call_result) \<Rightarrow> string \<Rightarrow> int list \<Rightarrow> 'w \<Rightarrow> bytes
     \<Rightarrow> 'w \<times> bytes \<times> (pyval option + unit)" where
  "download_chunks b64 call tid [] w acc = (w, acc, Inr ())"
| "download_chunks b64 call tid (i # is) w acc =
     (case call (DownloadChunk tid i) w of
        (w', CallReturns (PDict d)) \<Rightarrow>
          if \<not> truthy (dict_get d ''success'') then (w', acc, Inl (Some (PDict d)))
          else
            (case (if dict_has d ''data'' then dict_get d ''data'' else PDict []) of
               PDict e \<Rightarrow>
                 (case (case dict_get e ''chunk_data'' of
                          PNone \<Rightarrow>
                            (case (if dict_has e ''data_b64'' then dict_get e ''data_b64'' else PStr []) of
                               PStr t \<Rightarrow> b64 t | _ \<Rightarrow> None)
                        | PBytes c \<Rightarrow> Some c
                        | _ \<Rightarrow> None) of
                    None \<Rightarrow> (w', acc, Inl None)
                  | Some c \<Rightarrow> download_chunks b64 call tid is w' (acc @ c))
             | _ \<Rightarrow> (w', acc, Inl None))
      | (w', _) \<Rightarrow> (w', acc, Inl None))"

definition receive_from_server ::
  "(string \<Rightarrow> bytes option) \<Rightarrow> (file_call \<Rightarrow> 'w \<Rightarrow> 'w \<times> call_result) \<Rightarrow> string \<Rightarrow> string \<Rightarrow> 'w
     \<Rightarrow> 'w \<times> bytes option \<times> pyval option" where
  "receive_from_server b64 call remote_filename local_dir w =
     (case call (DownloadStart remote_filename) w of
        (w1, CallReturns (PDict d)) \<Rightarrow>
          if \<not> truthy (dict_get d ''success'') then (w1, None, Some (PDict d))
          else
            (case (if dict_has d ''data'' then dict_get d ''data'' else PDict []) of
               PDict info \<Rightarrow>
                 (case (dict_get info ''transfer_id'', if dict_has info ''total_chunks'' then dict_get info ''total_chunks'' else PInt 0) of
                    (PStr tid, PInt n) \<Rightarrow>
                      (case download_chunks b64 call tid [0..n - 1] w1 [] of
                         (w2, acc, Inl r) \<Rightarrow> (w2, Some acc, r)
                       | (w2, acc, Inr u) \<Rightarrow>
                           (w2, Some acc, Some (PDict [(''success'', PBool True),
                              (''path'', PStr (path_join local_dir remote_filename)),
                              (''size'', if dict_has info ''size'' then dict_get info ''size'' else PInt 0)])))
                  | _ \<Rightarrow> (w1, None, None))
             | _ \<Rightarrow> (w1, None, None))
      | (w1, _) \<Rightarrow> (w1, None, None))"

text \<open>
  A call over the connection to a server that has the handlers registered.  Arguments that JSON
  cannot write are an exception on the caller's side; otherwise the handler runs, and the caller
  sees its value as \<open>caller_sees\<close> says.  \<open>err\<close> is the error that an exception becomes.
\<close>

definition file_method :: "file_call \<Rightarrow> string" where
  "file_method c = (case c of
     UploadStart _ _ _ \<Rightarrow> ''file_upload_start'' | UploadChunk _ _ _ _ \<Rightarrow> ''file_upload_chunk''
   | UploadComplete _ \<Rightarrow> ''file_upload_complete'' | DownloadStart _ \<Rightarrow> ''file_download_start''
   | DownloadChunk _ _ \<Rightarrow> ''file_download_chunk'' | FileList \<Rightarrow> ''file_list'')"

fun file_params :: "file_call \<Rightarrow> pyval" where
  "file_params (UploadStart f n h) = PDict [(''filename'', PStr f), (''size'', PInt n), (''checksum'', PStr h)]"
| "file_params (UploadChunk t i c b) = PDict ([(''transfer_id'', PStr t), (''chunk_index'', PInt i)]
     @ (if c \<noteq> PNone then [(''chunk_data'', c)] else []) @ (if b \<noteq> PNone then [(''data_b64'', b)] else []))"
| "file_params (UploadComplete t) = PDict [(''transfer_id'', PStr t)]"
| "file_params (DownloadStart f) = PDict [(''filename'', PStr f)]"
| "file_params (DownloadChunk t i) = PDict [(''transfer_id'', PStr t), (''chunk_index'', PInt i)]"
| "file_params FileList = PDict []"

definition remote_file_call ::
  "codec \<Rightarrow> transfer_env \<Rightarrow> call_result \<Rightarrow> string \<Rightarrow> time \<Rightarrow> time \<Rightarrow> file_call \<Rightarrow> FileTransferHandler
     \<Rightarrow> FileTransferHandler \<times> call_result" where
  "remote_file_call cd te err uid now timeout c s =
     (case serialize_data cd (file_params c) of
        Inl x \<Rightarrow> (s, err)
      | Inr bs \<Rightarrow>
          (case file_rpc te c uid now s of
             (s', r, cbs) \<Rightarrow>
               (s', case r of Some v \<Rightarrow> caller_sees cd (file_method c) timeout v | None \<Rightarrow> err)))"

end
