(* ===== verification/FileTransferProofs.thy ===== *)
theory FileTransferProofs
  imports FileTransfer Connections
begin

text \<open>
  File transfer: what arrives is what was sent, what is published has the announced checksum, reading
  by index gives the chunks of reading in sequence; and where the two Python sides do not fit.
\<close>

section \<open>Chunks\<close>

lemma concat_file_chunks: "n \<noteq> 0 \<Longrightarrow> concat (file_chunks n content) = content"
proof (induction n content rule: file_chunks.induct)
  case (1 n content)
  then show ?case by (cases "content = [] \<or> n < 0") (auto simp: file_chunks.simps [of n content])
qed

lemma file_chunks_nth:
  assumes "0 < k"
  shows "file_chunks (int k) content =
    map (\<lambda>i. take k (drop (i * k) content)) [0..<(length content + k - 1) div k]"
  using assms
proof (induction "length content" arbitrary: content rule: less_induct)
  case less
  show ?case
  proof (cases "content = []")
    case True
    then show ?thesis using less.prems by (simp add: file_chunks.simps)
  next
    case False
    define M where "M = (length (drop k content) + k - 1) div k"
    have "(length content + k - 1) div k = Suc ((length content - 1) div k)"
      using False less.prems div_add_self2 [of k "length content - 1"] by (cases content) (auto simp: add.commute)
    moreover have "(length content - 1) div k = M"
    proof (cases "length content \<le> k")
      case True
      then have "(length content - 1) div k = 0" using False less.prems by (cases content) auto
      with True less.prems show ?thesis by (simp add: M_def)
    next
      case False
      then show ?thesis by (simp add: M_def)
    qed
    ultimately have count: "(length content + k - 1) div k = Suc M" by simp
    have IH: "file_chunks (int k) (drop k content) = map (\<lambda>i. take k (drop (i * k) (drop k content))) [0..<M]"
      using less.hyps [of "drop k content"] False less.prems by (simp add: M_def)
    have "[0..<Suc M] = 0 # map Suc [0..<M]" by (simp add: map_Suc_upt upt_conv_Cons del: upt_Suc)
    moreover have "file_chunks (int k) content = take k content # file_chunks (int k) (drop k content)"
      using False less.prems by (simp add: file_chunks.simps [of "int k" content])
    ultimately show ?thesis
      unfolding count IH by (simp add: add.commute del: upt_Suc)
  qed
qed

lemma upto_map_int: "[0..int n - 1] = map int [0..<n]"
proof (induction n)
  case (Suc n)
  have "[0..int (Suc n) - 1] = [0..int n - 1] @ [int n]" using upto_rec2 [of 0 "int n"] by simp
  with Suc show ?case by simp
qed simp

lemma chunk_count_nat:
  "0 < k \<Longrightarrow> chunk_count (int k) (int len) = Some (int ((len + k - 1) div k))"
  by (simp add: chunk_count_def zdiv_int of_nat_diff)

section \<open>Receiving\<close>

lemma put_transfer_simps [simp]:
  "ft_disk (put_transfer k t s) = ft_disk s" "ft_inodes (put_transfer k t s) = ft_inodes s"
  "ft_chunk_size (put_transfer k t s) = ft_chunk_size s" "ft_storage_dir (put_transfer k t s) = ft_storage_dir s"
  "map_of (ft_active (put_transfer k t s)) k' = (if k' = k then Some t else map_of (ft_active s) k')"
  "ft_disk (drop_transfer k s) = ft_disk s" "ft_inodes (drop_transfer k s) = ft_inodes s"
  "map_of (ft_active (drop_transfer k s)) k' = (if k' = k then None else map_of (ft_active s) k')"
  by (simp_all add: put_transfer_def drop_transfer_def update_conv' delete_conv')

lemma write_at_end: "write_at (length content) bs content = content @ bs"
  by (simp add: write_at_def)

text \<open>
  An upload that has written \<open>acc\<close> so far: its file is open at its end, under the temporary path.
\<close>

definition receiving ::
  "string \<Rightarrow> string \<Rightarrow> string \<Rightarrow> string \<Rightarrow> bytes \<Rightarrow> FileTransferHandler \<Rightarrow> bool" where
  "receiving tid temp final checksum acc s =
     (\<exists>t i. map_of (ft_active s) tid = Some (Incoming t) \<and> \<not> in_closed t \<and> in_inode t = i
        \<and> in_pos t = length acc \<and> i < length (ft_inodes s) \<and> ft_inodes s ! i = acc
        \<and> map_of (ft_disk s) temp = Some i \<and> in_temp_path t = temp \<and> in_final_path t = final
        \<and> in_checksum t = checksum)"

definition disk_ok :: "FileTransferHandler \<Rightarrow> bool" where
  "disk_ok s = (\<forall>p i. map_of (ft_disk s) p = Some i \<longrightarrow> i < length (ft_inodes s))"

lemma start_receiving:
  assumes "start_receive te filename n checksum tid t0 s = (s1, Some r)" and "disk_ok s"
  shows "receiving tid (path_join (ft_storage_dir s) (CHR ''.'' # tid @ ''.tmp''))
      (path_join (ft_storage_dir s) filename) checksum [] s1"
  using assms
  by (auto simp: start_receive_def open_wb_def receiving_def disk_ok_def update_conv' Let_def
      split: option.splits if_splits)

lemma chunk_received:
  assumes "receiving tid temp final checksum acc s" and "chunk_bytes te v = Some bs"
  shows "receiving tid temp final checksum (acc @ bs) (fst (receive_chunk te tid i v s))"
  using assms by (auto simp: receiving_def receive_chunk_def write_at_end Let_def)

lemma chunks_received:
  assumes "receiving tid temp final checksum acc s" and "\<forall>c \<in> set cs. chunk_bytes te (snd c) \<noteq> None"
  shows "receiving tid temp final checksum (acc @ concat (map (\<lambda>c. the (chunk_bytes te (snd c))) cs))
    (foldl (\<lambda>s c. fst (receive_chunk te tid (fst c) (snd c) s)) s cs)"
  using assms
proof (induction cs arbitrary: acc s)
  case (Cons c cs)
  then obtain bs where bs: "chunk_bytes te (snd c) = Some bs" by auto
  from Cons.IH [OF chunk_received [OF Cons.prems(1) bs, of "fst c"]] Cons.prems(2) bs show ?case by simp
qed simp

lemma complete_cases:
  assumes t: "map_of (ft_active s) tid = Some (Incoming t)" and c: "file_at s (in_temp_path t) = Some content"
    and p: "p = free_path te s (in_final_path t) now"
  shows "complete_receive te tid now s =
    (if te_sha256 te content \<noteq> in_checksum t then
       (drop_transfer tid (put_transfer tid (Incoming (t\<lparr>in_closed := True\<rparr>)) s
          \<lparr>ft_disk := AList.delete (in_temp_path t) (ft_disk s)\<rparr>),
        Some (PDict [(''error'', PStr ''Checksum mismatch''), (''expected'', PStr (in_checksum t)),
          (''got'', PStr (te_sha256 te content))]))
     else if te_is_dir te p \<or> \<not> te_parent_ok te p then (put_transfer tid (Incoming (t\<lparr>in_closed := True\<rparr>)) s, None)
     else (drop_transfer tid (rename_file (in_temp_path t) p (put_transfer tid (Incoming (t\<lparr>in_closed := True\<rparr>)) s)),
        Some (PDict [(''success'', PBool True), (''filename'', PStr (in_filename t)), (''size'', PInt (in_size t)),
          (''path'', PStr p), (''elapsed'', PFloat (now - in_start_time t))])))"
proof -
  have "file_at (put_transfer tid (Incoming (t\<lparr>in_closed := True\<rparr>)) s) q = file_at s q" for q
    by (simp add: file_at_def)
  moreover have "free_path te (put_transfer tid (Incoming (t\<lparr>in_closed := True\<rparr>)) s) q now = free_path te s q now" for q
    by (simp add: free_path_def path_exists_def)
  ultimately show ?thesis using t c by (simp add: complete_receive_def Let_def p)
qed

lemma rename_file_at:
  assumes "map_of (ft_disk s) a = Some i"
  shows "file_at (rename_file a b s) q =
    (if q = b then Some (ft_inodes s ! i) else if q = a then None else file_at s q)"
  using assms by (auto simp: rename_file_def file_at_def update_conv' delete_conv')

lemma drop_file_at [simp]: "file_at (drop_transfer tid s) q = file_at s q"
  by (simp add: file_at_def)

lemma put_file_at [simp]: "file_at (put_transfer tid t s) q = file_at s q"
  by (simp add: file_at_def)

lemma delete_file_at:
  "file_at (put_transfer tid t s\<lparr>ft_disk := AList.delete a (ft_disk s)\<rparr>) q = (if q = a then None else file_at s q)"
  by (simp add: file_at_def delete_conv')

section \<open>Properties\<close>

text \<open>
  C5. What is uploaded is what is stored: an upload that was started with the checksum of a content
  and has received chunks - base64 text or bytes, whatever indices they carry - that make up that
  content, completes with success, and the file under the final path is the content; the transfer
  and the temporary file are gone.
\<close>

theorem upload_stores_content:
  assumes "start_receive te filename n (te_sha256 te content) tid t0 s = (s1, Some r)" and "disk_ok s"
    and "\<forall>c \<in> set cs. chunk_bytes te (snd c) \<noteq> None"
    and "concat (map (\<lambda>c. the (chunk_bytes te (snd c))) cs) = content"
    and "s2 = foldl (\<lambda>s c. fst (receive_chunk te tid (fst c) (snd c) s)) s1 cs"
    and "p = free_path te s2 (path_join (ft_storage_dir s) filename) now"
    and "\<not> te_is_dir te p" and "te_parent_ok te p"
    and "temp = path_join (ft_storage_dir s) (CHR ''.'' # tid @ ''.tmp'')"
  shows "\<exists>s3 d. complete_receive te tid now s2 = (s3, Some (PDict d)) \<and> dict_get d ''success'' = PBool True
    \<and> dict_get d ''path'' = PStr p \<and> file_at s3 p = Some content
    \<and> map_of (ft_active s3) tid = None \<and> (p \<noteq> temp \<longrightarrow> file_at s3 temp = None)"
proof -
  from chunks_received [OF start_receiving [OF assms(1,2)] assms(3)] assms(4,5,9)
  have "receiving tid temp (path_join (ft_storage_dir s) filename) (te_sha256 te content) content s2" by simp
  then obtain t i where t: "map_of (ft_active s2) tid = Some (Incoming t)" "map_of (ft_disk s2) temp = Some i"
    "ft_inodes s2 ! i = content" "in_temp_path t = temp" "in_final_path t = path_join (ft_storage_dir s) filename"
    "in_checksum t = te_sha256 te content"
    by (auto simp: receiving_def)
  have "file_at s2 (in_temp_path t) = Some content" using t by (simp add: file_at_def)
  from complete_cases [OF t(1) this, of p te now] t assms(6-8) show ?thesis
    by (auto simp: rename_file_at [where i = i] dict_get_def)
qed

definition plain_env :: transfer_env where
  "plain_env = \<lparr>te_sha256 = (\<lambda>b. replicate (length b) (CHR ''x'')), te_b64decode = (\<lambda>t. Some (utf8_encode t)), te_is_dir = (\<lambda>_. False),
     te_parent_ok = (\<lambda>_. True)\<rparr>"

theorem upload_stores_content_witness:
  "\<exists>s3 d. complete_receive plain_env ''t'' 5
      (foldl (\<lambda>s c. fst (receive_chunk plain_env ''t'' (fst c) (snd c) s))
        (fst (start_receive plain_env ''f'' 2 ''xx'' ''t'' 0 (new_file_transfer ''d'' 1 [] [])))
        [(7, PStr ''A''), (0, PBytes [66])]) = (s3, Some (PDict d))
    \<and> dict_get d ''success'' = PBool True \<and> file_at s3 ''d/f'' = Some [65, 66]"
proof -
  let ?s = "new_file_transfer ''d'' 1 [] []"
  let ?cs = "[(7 :: int, PStr ''A''), (0, PBytes [66])]"
  have sha: "te_sha256 plain_env [65, 66] = ''xx''" by (simp add: plain_env_def numeral_2_eq_2)
  obtain s1 r where s1: "start_receive plain_env ''f'' 2 (te_sha256 plain_env [65, 66]) ''t'' 0 ?s = (s1, Some r)"
    by (simp add: start_receive_def new_file_transfer_def chunk_count_def open_wb_def plain_env_def Let_def)
  let ?s2 = "foldl (\<lambda>s c. fst (receive_chunk plain_env ''t'' (fst c) (snd c) s)) s1 ?cs"
  have "ft_disk ?s2 = [(''d/.t.tmp'', 0)]"
    using s1 by (auto simp: start_receive_def new_file_transfer_def chunk_count_def open_wb_def plain_env_def
        path_join_def receive_chunk_def chunk_bytes_def Let_def)
  then have p: "''d/f'' = free_path plain_env ?s2 (path_join (ft_storage_dir ?s) ''f'') 5"
    by (simp add: free_path_def path_exists_def dict_has_def plain_env_def path_join_def new_file_transfer_def)
  have "\<exists>s3 d. complete_receive plain_env ''t'' 5 ?s2 = (s3, Some (PDict d)) \<and> dict_get d ''success'' = PBool True
    \<and> dict_get d ''path'' = PStr ''d/f'' \<and> file_at s3 ''d/f'' = Some [65, 66]
    \<and> map_of (ft_active s3) ''t'' = None
    \<and> (''d/f'' \<noteq> path_join (ft_storage_dir ?s) (CHR ''.'' # ''t'' @ ''.tmp'') \<longrightarrow>
        file_at s3 (path_join (ft_storage_dir ?s) (CHR ''.'' # ''t'' @ ''.tmp'')) = None)"
    by (rule upload_stores_content [OF s1 _ _ _ refl p _ _ refl])
      (auto simp: disk_ok_def new_file_transfer_def chunk_bytes_def plain_env_def utf8_encode_def)
  then show ?thesis using s1 by (auto simp: sha)
qed

text \<open>
  C25. Only what has the announced checksum is published: completing an upload either answers with
  success, and then the file put under the final path has the checksum, or it puts nothing there -
  no path but the temporary one changes - and after a mismatch the temporary file and the transfer
  are gone.
\<close>

theorem published_has_checksum:
  assumes t: "map_of (ft_active s) tid = Some (Incoming t)" and c: "file_at s (in_temp_path t) = Some content"
    and r: "complete_receive te tid now s = (s', r)" and p: "p = free_path te s (in_final_path t) now"
  shows "if te_sha256 te content = in_checksum t \<and> \<not> te_is_dir te p \<and> te_parent_ok te p
    then file_at s' p = Some content \<and> (\<forall>q. q \<noteq> p \<and> q \<noteq> in_temp_path t \<longrightarrow> file_at s' q = file_at s q)
      \<and> map_of (ft_active s') tid = None \<and> (\<exists>d. r = Some (PDict d) \<and> dict_get d ''success'' = PBool True)
    else (\<forall>q. q \<noteq> in_temp_path t \<longrightarrow> file_at s' q = file_at s q)
      \<and> (\<forall>d. r = Some (PDict d) \<longrightarrow> \<not> dict_has d ''success'')
      \<and> (te_sha256 te content \<noteq> in_checksum t \<longrightarrow>
           file_at s' (in_temp_path t) = None \<and> map_of (ft_active s') tid = None)"
proof -
  obtain i where i: "map_of (ft_disk s) (in_temp_path t) = Some i" "ft_inodes s ! i = content"
    using c by (auto simp: file_at_def)
  from complete_cases [OF t c p] r have "(s', r) = (if te_sha256 te content \<noteq> in_checksum t then
       (drop_transfer tid (put_transfer tid (Incoming (t\<lparr>in_closed := True\<rparr>)) s
          \<lparr>ft_disk := AList.delete (in_temp_path t) (ft_disk s)\<rparr>),
        Some (PDict [(''error'', PStr ''Checksum mismatch''), (''expected'', PStr (in_checksum t)),
          (''got'', PStr (te_sha256 te content))]))
     else if te_is_dir te p \<or> \<not> te_parent_ok te p then (put_transfer tid (Incoming (t\<lparr>in_closed := True\<rparr>)) s, None)
     else (drop_transfer tid (rename_file (in_temp_path t) p (put_transfer tid (Incoming (t\<lparr>in_closed := True\<rparr>)) s)),
        Some (PDict [(''success'', PBool True), (''filename'', PStr (in_filename t)), (''size'', PInt (in_size t)),
          (''path'', PStr p), (''elapsed'', PFloat (now - in_start_time t))])))" by simp
  then show ?thesis
    using i by (auto simp: rename_file_at [where i = i] dict_get_def dict_has_def delete_file_at
        split: if_splits)
qed

theorem published_has_checksum_witness:
  "\<exists>s. file_at s ''d/.t.tmp'' = Some [1]
     \<and> file_at (fst (complete_receive plain_env ''t'' 5 s)) ''d/.t.tmp'' = None
     \<and> file_at (fst (complete_receive plain_env ''t'' 5 s)) ''d/f'' = None"
proof -
  let ?t = "\<lparr>in_filename = ''f'', in_size = 1, in_checksum = ''y'', in_total_chunks = 1, in_received_chunks = 1,
    in_temp_path = ''d/.t.tmp'', in_final_path = ''d/f'', in_inode = 0, in_pos = 1, in_closed = False, in_start_time = 0\<rparr>"
  let ?s = "put_transfer ''t'' (Incoming ?t) (new_file_transfer ''d'' 1 [(''d/.t.tmp'', 0)] [[1]])"
  obtain s' r where r: "complete_receive plain_env ''t'' 5 ?s = (s', r)" by (cases "complete_receive plain_env ''t'' 5 ?s")
  have c: "file_at ?s (in_temp_path ?t) = Some [1]" by (simp add: file_at_def new_file_transfer_def)
  have "map_of (ft_active ?s) ''t'' = Some (Incoming ?t)" by simp
  from published_has_checksum [OF this c r refl]
  have "file_at s' ''d/.t.tmp'' = None" "file_at s' ''d/f'' = file_at ?s ''d/f''"
    by (simp_all add: plain_env_def)
  moreover have "file_at ?s ''d/f'' = None" by (simp add: file_at_def new_file_transfer_def)
  ultimately show ?thesis using c r by (intro exI [of _ ?s]) simp
qed

text \<open>The chunk that an index gives.\<close>

definition chunk_at :: "string \<Rightarrow> FileTransferHandler \<Rightarrow> int \<Rightarrow> bytes" where
  "chunk_at tid s i =
     (case snd (get_download_chunk tid i s) of
        Some (PDict d) \<Rightarrow> (case dict_get d ''chunk_data'' of PBytes b \<Rightarrow> b | _ \<Rightarrow> []) | _ \<Rightarrow> [])"

lemma download_chunks_eq:
  assumes "file_at s (path_join (ft_storage_dir s) filename) = Some content" and "0 < ft_chunk_size s"
  shows "\<exists>s' d n. start_download te filename tid s = (s', Some (PDict d)) \<and> dict_get d ''total_chunks'' = PInt n
    \<and> dict_get d ''transfer_id'' = PStr tid \<and> map (chunk_at tid s') [0..n - 1] = file_chunks (ft_chunk_size s) content"
proof -
  obtain k where k: "ft_chunk_size s = int k" "0 < k" using assms(2) by (metis zero_less_imp_eq_int)
  obtain i where i: "map_of (ft_disk s) (path_join (ft_storage_dir s) filename) = Some i" "ft_inodes s ! i = content"
    using assms(1) by (auto simp: file_at_def)
  let ?n = "(length content + k - 1) div k"
  let ?t = "Outgoing \<lparr>out_filepath = path_join (ft_storage_dir s) filename, out_size = int (length content),
      out_total_chunks = int ?n, out_inode = i, out_closed = False\<rparr>"
  let ?d = "[(''transfer_id'', PStr tid), (''size'', PInt (int (length content))), (''total_chunks'', PInt (int ?n)),
      (''chunk_size'', PInt (int k))]"
  have start: "start_download te filename tid s = (put_transfer tid ?t s, Some (PDict ?d))"
    using i k by (simp add: start_download_def path_exists_def dict_has_def chunk_count_nat Let_def)
  have "chunk_at tid (put_transfer tid ?t s) (int j) = take k (drop (j * k) content)" for j
  proof -
    have "\<not> int j * int k < 0" by (simp add: not_less)
    then show ?thesis
      using i k by (simp add: chunk_at_def get_download_chunk_def read_at_def dict_get_def Let_def nat_mult_distrib)
  qed
  moreover have "[0..int ?n - 1] = map int [0..<?n]"
    by (rule upto_map_int)
  ultimately have "map (chunk_at tid (put_transfer tid ?t s)) [0..int ?n - 1] = file_chunks (int k) content"
    by (simp add: file_chunks_nth [OF k(2)] comp_def)
  with start k show ?thesis by (intro exI conjI) (auto simp: dict_get_def)
qed

text \<open>
  C26. Reading by index is reading in sequence: the chunks that \<open>get_download_chunk\<close> gives for the
  indices below the announced number are the chunks in which a sender reads the file, and they make
  up the file.
\<close>

theorem download_reads_file:
  assumes "file_at s (path_join (ft_storage_dir s) filename) = Some content" and "0 < ft_chunk_size s"
  shows "\<exists>s' d n. start_download te filename tid s = (s', Some (PDict d)) \<and> dict_get d ''total_chunks'' = PInt n
    \<and> map (chunk_at tid s') [0..n - 1] = file_chunks (ft_chunk_size s) content
    \<and> concat (map (chunk_at tid s') [0..n - 1]) = content"
  using download_chunks_eq [OF assms, of te tid] concat_file_chunks [of "ft_chunk_size s" content] assms(2) by fastforce

theorem download_reads_file_witness:
  "\<exists>s' d n. start_download plain_env ''f'' ''t'' (new_file_transfer ''d'' 2 [(''d/f'', 0)] [[1, 2, 3]])
      = (s', Some (PDict d)) \<and> concat (map (chunk_at ''t'' s') [0..n - 1]) = [1, 2, 3]"
proof -
  let ?s = "new_file_transfer ''d'' 2 [(''d/f'', 0)] [[1, 2, 3]]"
  have "file_at ?s (path_join (ft_storage_dir ?s) ''f'') = Some [1, 2, 3]" "0 < ft_chunk_size ?s"
    by (simp_all add: file_at_def new_file_transfer_def path_join_def)
  from download_reads_file [OF this, of plain_env "''t''"] show ?thesis by blast
qed

text \<open>
  The storage directory confines nothing: a file name that is an absolute path names that path.
  A download of it reads the file wherever it is, and an upload under it is stored there.
\<close>

lemma absolute_name_escapes:
  assumes "file_at s (CHR ''/'' # name) = Some content" and "0 < ft_chunk_size s"
  shows "\<exists>s' d n. start_download te (CHR ''/'' # name) tid s = (s', Some (PDict d))
      \<and> dict_get d ''total_chunks'' = PInt n \<and> concat (map (chunk_at tid s') [0..n - 1]) = content
    \<and> (\<forall>s1 r. start_receive te (CHR ''/'' # name) len checksum tid t0 s = (s1, Some r) \<longrightarrow>
         (\<exists>t. map_of (ft_active s1) tid = Some (Incoming t) \<and> in_final_path t = CHR ''/'' # name))"
proof -
  have path: "path_join (ft_storage_dir s) (CHR ''/'' # name) = CHR ''/'' # name" by (simp add: path_join_def)
  with assms(1) have "file_at s (path_join (ft_storage_dir s) (CHR ''/'' # name)) = Some content" by simp
  from download_chunks_eq [OF this assms(2), of te tid] concat_file_chunks [of "ft_chunk_size s" content] assms(2)
  have "\<exists>s' d n. start_download te (CHR ''/'' # name) tid s = (s', Some (PDict d))
      \<and> dict_get d ''total_chunks'' = PInt n \<and> concat (map (chunk_at tid s') [0..n - 1]) = content"
    by fastforce
  moreover have "\<exists>t. map_of (ft_active s1) tid = Some (Incoming t) \<and> in_final_path t = CHR ''/'' # name"
    if "start_receive te (CHR ''/'' # name) len checksum tid t0 s = (s1, Some r)" for s1 r
    using that by (auto simp: start_receive_def path Let_def split: option.splits)
  ultimately show ?thesis by blast
qed

lemma start_answer:
  "start_receive te filename n checksum tid now s = (s1, Some v) \<Longrightarrow> \<exists>e. v = PDict e \<and> \<not> dict_has e ''success''"
  by (auto simp: start_receive_def dict_has_def Let_def split: option.splits)

text \<open>
  Uploads stop before the first chunk: when both sides are this program, the answer to
  \<open>file_upload_start\<close> reaches the sender without the wrapper that holds the success entry, so
  \<open>send_to_server\<close> takes it for a failure: it returns that answer, or raises, after one call, and no
  chunk of the file is ever sent, whatever the file.
\<close>

lemma upload_never_sends_a_chunk:
  assumes "\<forall>v. snd (start_receive te (path_basename filepath) (int (length content)) (sha content) uid now s) = Some v
      \<longrightarrow> json_law cd v"
    and "\<forall>v. err \<noteq> CallReturns v"
  shows "send_to_server sha (remote_file_call cd te err uid now timeout) chunk filepath (Some content) s
    \<in> {(s', r) | s' r. s' \<in> {s, fst (start_receive te (path_basename filepath) (int (length content)) (sha content) uid now s)}
        \<and> (\<forall>d. r = Some (PDict d) \<longrightarrow> \<not> dict_has d ''success'')}"
proof -
  let ?call = "remote_file_call cd te err uid now timeout"
  let ?c = "UploadStart (path_basename filepath) (int (length content)) (sha content)"
  obtain s1 a where a: "start_receive te (path_basename filepath) (int (length content)) (sha content) uid now s = (s1, a)"
    by (cases "start_receive te (path_basename filepath) (int (length content)) (sha content) uid now s")
  obtain w r where call: "?call ?c s = (w, r)" by (cases "?call ?c s")
  have w: "w \<in> {s, s1}" and r: "r = CallReturns (PDict d) \<Longrightarrow> \<not> dict_has d ''success''" for d
  proof -
    show "w \<in> {s, s1}" using call a by (auto simp: remote_file_call_def split: sum.splits prod.splits)
    assume d: "r = CallReturns (PDict d)"
    with call a assms(2) obtain v where v: "a = Some v" "caller_sees cd ''file_upload_start'' timeout v = CallReturns (PDict d)"
      by (auto simp: remote_file_call_def file_method_def split: sum.splits option.splits)
    from v(1) a obtain e where e: "v = PDict e" "\<not> dict_has e ''success''" using start_answer by blast
    have "json_law cd v" using assms(1) a v(1) by simp
    from caller_sees_no_success [OF e this, of "''file_upload_start''" timeout] v(2) e
    show "\<not> dict_has d ''success''" by auto
  qed
  show ?thesis
  proof (cases "\<exists>d. r = CallReturns (PDict d)")
    case True
    then obtain d where d: "r = CallReturns (PDict d)" by blast
    from r [OF d] have "\<not> truthy (dict_get d ''success'')" by (simp add: dict_has_def dict_get_def)
    with call d w r [OF d] a show ?thesis by (auto simp: send_to_server_def)
  next
    case False
    then have "send_to_server sha ?call chunk filepath (Some content) s \<in> {(s, None), (w, None)}"
      using call by (auto simp: send_to_server_def split: call_result.split pyval.split)
    with w a show ?thesis by auto
  qed
qed

text \<open>The law of JSON that matters here: bytes cannot be dumped.\<close>

definition bytes_law :: "codec \<Rightarrow> bool" where
  "bytes_law cd = (\<forall>d k b. (k, PBytes b) \<in> set d \<longrightarrow> json_dumps cd (PDict d) = None)"

text \<open>The connection as a sender's world: encoder, connection, and the frames sent.\<close>

definition connection_sender ::
  "codec \<Rightarrow> (bytes \<Rightarrow> bool) \<Rightarrow> time \<Rightarrow> string \<Rightarrow> pyval \<Rightarrow> ProtocolEncoder \<times> 's Connection \<times> frames
     \<Rightarrow> (ProtocolEncoder \<times> 's Connection \<times> frames) \<times> bool" where
  "connection_sender cd deliver now t v w =
     (case w of (e, c, fs) \<Rightarrow>
        (case send_message cd deliver t v now e c of
           (e', c', r, gs) \<Rightarrow> ((e', c', fs @ gs), case r of Inl x \<Rightarrow> False | Inr u \<Rightarrow> True)))"

text \<open>
  Raw chunks cannot be sent as messages: JSON has no bytes, so \<open>send_to_client\<close> of a file that is
  not empty raises at its first chunk; of the file only the announcement has been sent.
\<close>

lemma send_to_client_raises:
  fixes c :: "'s Connection"
  assumes "bytes_law cd" and "content \<noteq> []" and "0 < chunk"
  shows "\<exists>e' c' gs. send_to_client sha (connection_sender cd deliver now) True chunk filepath (Some content) tid (e, c, fs)
      = ((e', c', fs @ gs), None) \<and> length gs \<le> 1"
proof -
  obtain n where n: "chunk_count chunk (int (length content)) = Some n" using assms(3) by (simp add: chunk_count_def)
  obtain c0 cs where chunks: "file_chunks chunk content = c0 # cs"
    using assms(2,3) by (simp add: file_chunks.simps [of chunk content])
  let ?m = "\<lambda>i b. PDict [(''transfer_id'', PStr tid), (''chunk_index'', PInt (int i)), (''chunk_data'', PBytes b)]"
  have "json_dumps cd (?m i b) = None" for i b
    using assms(1) unfolding bytes_law_def by (metis list.set_intros(1) list.set_intros(2))
  then have stop: "connection_sender cd deliver now t (?m i b) (e, c, fs) = ((e, c, fs), False)" for t i b e fs and c :: "'s Connection"
    by (simp add: connection_sender_def send_message_def send_encoded_def encode_message_def serialize_data_def)
  obtain m ms where m: "client_messages sha chunk (path_basename filepath) content tid n = m # (''file_chunk'', ?m 0 c0) # ms"
    by (simp add: client_messages_def chunks)
  obtain e1 c1 r gs where s: "send_message cd deliver (fst m) (snd m) now e c = (e1, c1, r, gs)"
    by (metis prod_cases4)
  then have "length gs \<le> 1"
    by (auto simp: send_message_def send_encoded_def transmit_def split: prod.splits sum.splits)
  moreover have "send_all (connection_sender cd deliver now) (m # (''file_chunk'', ?m 0 c0) # ms) (e, c, fs)
      = ((e1, c1, fs @ gs), False)"
  proof -
    obtain ok where "connection_sender cd deliver now (fst m) (snd m) (e, c, fs) = ((e1, c1, fs @ gs), ok)"
      using s by (simp add: connection_sender_def)
    then show ?thesis using stop [of _ 0, simplified] by (cases m; cases ok) simp_all
  qed
  ultimately show ?thesis using n m by (auto simp: send_to_client_def)
qed

end
