(* ===== verification/ClientPool.thy ===== *)
theory ClientPool
  imports Prelude "HOL-Library.Multiset"
begin

text \<open>
  \<open>src/conduit/pool/client_pool.py\<close>: several clients behind one, with three ways to choose among
  those that are connected.  A client is a value of \<open>'c\<close>; whether it is connected is a predicate of
  the moment of the call (\<open>up\<close>), and what a call on it does is a parameter.
\<close>

record PoolStats =
  ps_total_connections :: nat
  ps_active_connections :: nat
  ps_requests_sent :: nat
  ps_requests_failed :: nat

record ('c, 'h) ClientPool =
  cp_servers :: "(string \<times> int) list"
  cp_pool_size :: int
  cp_strategy :: string
  cp_clients :: "'c list"
  cp_current_index :: nat
  cp_latencies :: "(nat, time) dict"
  cp_stats :: PoolStats
  cp_registered_handlers :: "(string, 'h) dict"

definition new_client_pool :: "(string \<times> int) list \<Rightarrow> int \<Rightarrow> string \<Rightarrow> ('c, 'h) ClientPool" where
  "new_client_pool servers pool_size strategy =
     \<lparr>cp_servers = servers, cp_pool_size = pool_size, cp_strategy = strategy, cp_clients = [],
      cp_current_index = 0, cp_latencies = [],
      cp_stats = \<lparr>ps_total_connections = 0, ps_active_connections = 0, ps_requests_sent = 0,
        ps_requests_failed = 0\<rparr>, cp_registered_handlers = []\<rparr>"

definition connected_count :: "('c \<Rightarrow> bool) \<Rightarrow> ('c, 'h) ClientPool \<Rightarrow> nat" where
  "connected_count up p = length (filter up (cp_clients p))"

section \<open>Connecting\<close>

text \<open>
  The clients that \<open>connect_all\<close> makes, in order: \<open>mk host port k\<close> is the \<open>k\<close>-th, and whether its
  \<open>connect\<close> returned True (an exception counts as not connected).  Every new client gets the handlers
  registered so far.
\<close>

definition connect_plan :: "('c, 'h) ClientPool \<Rightarrow> (string \<times> int) list" where
  "connect_plan p = concat (map (\<lambda>srv. map (\<lambda>i. srv) [0..cp_pool_size p - 1]) (cp_servers p))"

fun connect_loop :: "(string \<Rightarrow> int \<Rightarrow> nat \<Rightarrow> 'c \<times> bool) \<Rightarrow> nat \<Rightarrow> (string \<times> int) list \<Rightarrow> 'c list" where
  "connect_loop mk k [] = []"
| "connect_loop mk k ((host, port) # plan) =
     (case mk host port k of
        (c, ok) \<Rightarrow> (if ok then [c] else []) @ connect_loop mk (Suc k) plan)"

definition connect_all ::
  "(string \<Rightarrow> int \<Rightarrow> nat \<Rightarrow> 'c \<times> bool) \<Rightarrow> ('c, 'h) ClientPool \<Rightarrow> ('c, 'h) ClientPool \<times> nat" where
  "connect_all mk p =
     (let new = connect_loop mk 0 (connect_plan p); clients = cp_clients p @ new
      in (p\<lparr>cp_clients := clients,
            cp_stats := (cp_stats p)\<lparr>ps_total_connections := length clients,
              ps_active_connections := length new\<rparr>\<rparr>, length new))"

definition disconnect_all :: "('c, 'h) ClientPool \<Rightarrow> ('c, 'h) ClientPool" where
  "disconnect_all p = p\<lparr>cp_clients := [], cp_stats := (cp_stats p)\<lparr>ps_active_connections := 0\<rparr>\<rparr>"

section \<open>Choosing a client\<close>

text \<open>\<open>rnd n\<close> is the index that \<open>random.choice\<close> draws from a list of \<open>n\<close> elements.\<close>

definition get_next_client ::
  "('c \<Rightarrow> bool) \<Rightarrow> (nat \<Rightarrow> nat) \<Rightarrow> ('c, 'h) ClientPool \<Rightarrow> ('c, 'h) ClientPool \<times> 'c option" where
  "get_next_client up rnd p =
     (let active = filter up (cp_clients p)
      in if active = [] then (p, None)
         else if cp_strategy p = ''random'' then (p, Some (active ! rnd (length active)))
         else if cp_strategy p = ''least_latency'' then
           (p, Some (snd (hd (sort_key (\<lambda>(i, c). case map_of (cp_latencies p) i of None \<Rightarrow> 0 | Some l \<Rightarrow> l)
                       (enumerate 0 active)))))
         else (p\<lparr>cp_current_index := (cp_current_index p + 1) mod length active\<rparr>,
               Some (active ! (cp_current_index p mod length active))))"

section \<open>Calls\<close>

text \<open>\<open>list.index\<close>; None: ValueError.\<close>

fun list_index :: "'c list \<Rightarrow> 'c \<Rightarrow> nat option" where
  "list_index [] x = None"
| "list_index (y # ys) x = (if y = x then Some 0 else map_option Suc (list_index ys x))"

text \<open>
  \<open>rpc\<close>: the chosen client's call ends as \<open>call\<close> says after \<open>elapsed\<close> seconds.  \<open>Inl\<close>: an exception
  (\<open>NoConnection\<close>, or the call's own); a cancellation is not counted as a failure.
\<close>

datatype pool_error = NoConnection | CallError string | CallCancelled

definition pool_rpc ::
  "('c \<Rightarrow> bool) \<Rightarrow> (nat \<Rightarrow> nat) \<Rightarrow> ('c \<Rightarrow> outcome) \<Rightarrow> time \<Rightarrow> ('c, 'h) ClientPool
     \<Rightarrow> ('c, 'h) ClientPool \<times> (pool_error + pyval)" where
  "pool_rpc up rnd call elapsed p =
     (case get_next_client up rnd p of
        (p1, None) \<Rightarrow> (p1, Inl NoConnection)
      | (p1, Some c) \<Rightarrow>
          (let failed = p1\<lparr>cp_stats := (cp_stats p1)\<lparr>ps_requests_failed := ps_requests_failed (cp_stats p1) + 1\<rparr>\<rparr>
           in case call c of
                Cancelled \<Rightarrow> (p1, Inl CallCancelled)
              | Raised x \<Rightarrow> (failed, Inl (CallError x))
              | Returned v \<Rightarrow>
                  (case list_index (cp_clients p1) c of
                     None \<Rightarrow> (failed, Inl (CallError ''ValueError''))
                   | Some i \<Rightarrow>
                       (p1\<lparr>cp_latencies := AList.update i (elapsed * 1000) (cp_latencies p1),
                           cp_stats := (cp_stats p1)\<lparr>ps_requests_sent := ps_requests_sent (cp_stats p1) + 1\<rparr>\<rparr>,
                        Inr v))))"

text \<open>One result per connected client; None: cancelled.\<close>

fun broadcast_results :: "('c \<Rightarrow> outcome) \<Rightarrow> 'c list \<Rightarrow> pyval list option" where
  "broadcast_results call [] = Some []"
| "broadcast_results call (c # cs) =
     (case call c of
        Cancelled \<Rightarrow> None
      | Returned v \<Rightarrow> map_option (\<lambda>rs. v # rs) (broadcast_results call cs)
      | Raised x \<Rightarrow> map_option (\<lambda>rs. PDict [(''error'', PStr x)] # rs) (broadcast_results call cs))"

definition broadcast_rpc :: "('c \<Rightarrow> bool) \<Rightarrow> ('c \<Rightarrow> outcome) \<Rightarrow> ('c, 'h) ClientPool \<Rightarrow> pyval list option" where
  "broadcast_rpc up call p = broadcast_results call (filter up (cp_clients p))"

text \<open>\<open>send\<close>: the client it went to and 1, or 0; None: the send raised.\<close>

definition pool_send ::
  "('c \<Rightarrow> bool) \<Rightarrow> (nat \<Rightarrow> nat) \<Rightarrow> ('c \<Rightarrow> bool) \<Rightarrow> ('c, 'h) ClientPool
     \<Rightarrow> ('c, 'h) ClientPool \<times> (nat \<times> 'c option) option" where
  "pool_send up rnd ok p =
     (case get_next_client up rnd p of
        (p1, None) \<Rightarrow> (p1, Some (0, None))
      | (p1, Some c) \<Rightarrow> (p1, if ok c then Some (1, Some c) else None))"

definition pool_broadcast_message :: "('c \<Rightarrow> bool) \<Rightarrow> ('c \<Rightarrow> bool) \<Rightarrow> ('c, 'h) ClientPool \<Rightarrow> nat" where
  "pool_broadcast_message up ok p = length (filter (\<lambda>c. up c \<and> ok c) (cp_clients p))"

text \<open>\<open>on\<close>: the handler is kept for later clients and registered on the present ones.\<close>

definition pool_on :: "string \<Rightarrow> 'h \<Rightarrow> ('c, 'h) ClientPool \<Rightarrow> ('c, 'h) ClientPool \<times> ('c \<times> string \<times> 'h) list" where
  "pool_on t h p =
     (p\<lparr>cp_registered_handlers := AList.update t h (cp_registered_handlers p)\<rparr>,
      map (\<lambda>c. (c, t, h)) (cp_clients p))"

section \<open>Properties\<close>

text \<open>The clients that successive calls of \<open>_get_next_client\<close> choose.\<close>

fun picks :: "('c \<Rightarrow> bool) \<Rightarrow> (nat \<Rightarrow> nat) \<Rightarrow> nat \<Rightarrow> ('c, 'h) ClientPool \<Rightarrow> 'c option list" where
  "picks up rnd 0 p = []"
| "picks up rnd (Suc n) p = (case get_next_client up rnd p of (p', c) \<Rightarrow> c # picks up rnd n p')"

lemma picks_round_robin:
  assumes "cp_strategy p \<notin> {''random'', ''least_latency''}" and "filter up (cp_clients p) \<noteq> []"
  shows "picks up rnd k p = map (\<lambda>j. Some (filter up (cp_clients p) !
      ((cp_current_index p + j) mod length (filter up (cp_clients p))))) [0..<k]"
  using assms
proof (induction k arbitrary: p)
  case (Suc k)
  let ?a = "filter up (cp_clients p)"
  let ?p = "p\<lparr>cp_current_index := (cp_current_index p + 1) mod length ?a\<rparr>"
  have step: "get_next_client up rnd p = (?p, Some (?a ! (cp_current_index p mod length ?a)))"
    using Suc.prems by (simp add: get_next_client_def Let_def)
  have "picks up rnd k ?p = map (\<lambda>j. Some (?a ! ((cp_current_index p + Suc j) mod length ?a))) [0..<k]"
    using Suc.IH [of ?p] Suc.prems by (simp add: mod_add_left_eq del: mod_Suc_eq)
  moreover have "[0..<Suc k] = 0 # map Suc [0..<k]" by (simp add: map_Suc_upt upt_conv_Cons del: upt_Suc)
  ultimately show ?case by (simp add: step comp_def del: upt_Suc)
qed simp

lemma rotate_nth_map:
  assumes "xs \<noteq> []"
  shows "map (\<lambda>j. xs ! ((c + j) mod length xs)) [0..<length xs] = rotate c xs"
  using assms by (intro nth_equalityI) (auto simp: nth_rotate add.commute)

lemma mset_rotate: "mset (rotate k xs) = mset xs"
proof -
  have "mset (rotate k xs) = mset (drop (k mod length xs) xs @ take (k mod length xs) xs)"
    by (simp only: rotate_drop_take)
  also have "\<dots> = mset (take (k mod length xs) xs @ drop (k mod length xs) xs)"
    by (simp only: mset_append add.commute)
  finally show ?thesis by (simp only: append_take_drop_id)
qed

text \<open>
  C39. Round robin is fair: as long as the same clients stay connected, successive calls choose them
  in turn, and as many calls as there are connected clients choose each of them exactly once.
\<close>

theorem round_robin_fair:
  assumes "cp_strategy p \<notin> {''random'', ''least_latency''}" and "active = filter up (cp_clients p)"
    and "active \<noteq> []"
  shows "picks up rnd k p = map (\<lambda>j. Some (active ! ((cp_current_index p + j) mod length active))) [0..<k]
    \<and> mset (picks up rnd (length active) p) = image_mset Some (mset active)"
proof -
  let ?n = "length active"
  have all: "picks up rnd k p = map (\<lambda>j. Some (active ! ((cp_current_index p + j) mod ?n))) [0..<k]" for k
    using picks_round_robin [of p up rnd] assms by simp
  have "picks up rnd ?n p = map Some (map (\<lambda>j. active ! ((cp_current_index p + j) mod ?n)) [0..<?n])"
    by (simp add: all)
  also have "\<dots> = map Some (rotate (cp_current_index p) active)"
    by (simp only: rotate_nth_map [OF assms(3)])
  finally have "mset (picks up rnd ?n p) = image_mset Some (mset active)"
    by (simp only: mset_map mset_rotate)
  with all show ?thesis by blast
qed

theorem round_robin_fair_witness:
  "picks (\<lambda>c. c \<noteq> 2) id 3 ((new_client_pool [] 1 ''round_robin'' :: (nat, nat) ClientPool)\<lparr>cp_clients := [1, 2, 3]\<rparr>)
     = [Some 1, Some 3, Some 1]"
proof -
  let ?p = "(new_client_pool [] 1 ''round_robin'' :: (nat, nat) ClientPool)\<lparr>cp_clients := [1, 2, 3]\<rparr>"
  have "[1, 3] = filter (\<lambda>c. c \<noteq> 2) (cp_clients ?p)" "cp_strategy ?p \<notin> {''random'', ''least_latency''}"
    by (simp_all add: new_client_pool_def)
  from round_robin_fair [OF this(2,1), of id 3] show ?thesis
    by (simp add: new_client_pool_def upt_rec)
qed

lemma hd_sort_key_least:
  assumes "xs \<noteq> []"
  shows "hd (sort_key f xs) \<in> set xs \<and> (\<forall>x \<in> set xs. f (hd (sort_key f xs)) \<le> f x)"
proof -
  have ne: "sort_key f xs \<noteq> []" using assms by (metis length_sort length_0_conv)
  then have "hd (sort_key f xs) \<in> set xs" by (metis hd_in_set set_sort)
  moreover have "sorted (map f (sort_key f xs))" by simp
  ultimately show ?thesis
    using ne by (cases "sort_key f xs") (auto, metis set_sort set_ConsD order_refl)
qed

text \<open>
  Least latency looks up the wrong latencies: latencies are recorded by a client's place in the
  pool and looked up by its place among the connected ones.  With all clients connected the chosen
  one has the least recorded latency; with one of them down the slowest may be chosen.
\<close>

lemma least_latency_by_position:
  "(cp_strategy p = ''least_latency'' \<and> (\<forall>c \<in> set (cp_clients p). up c) \<and> cp_clients p \<noteq> [] \<longrightarrow>
     (\<exists>i < length (cp_clients p). snd (get_next_client up rnd p) = Some (cp_clients p ! i)
        \<and> (\<forall>j < length (cp_clients p).
             (case map_of (cp_latencies p) i of None \<Rightarrow> 0 | Some l \<Rightarrow> l)
             \<le> (case map_of (cp_latencies p) j of None \<Rightarrow> 0 | Some l \<Rightarrow> l))))
   \<and> (\<exists>q :: (nat, nat) ClientPool. \<exists>up' i j. cp_strategy q = ''least_latency''
        \<and> snd (get_next_client up' rnd q) = Some (cp_clients q ! i) \<and> up' (cp_clients q ! j)
        \<and> i < length (cp_clients q) \<and> j < length (cp_clients q)
        \<and> map_of (cp_latencies q) j = Some 1 \<and> map_of (cp_latencies q) i = Some 1000)"
proof (intro conjI impI)
  assume a: "cp_strategy p = ''least_latency'' \<and> (\<forall>c \<in> set (cp_clients p). up c) \<and> cp_clients p \<noteq> []"
  let ?f = "\<lambda>(i, c :: 'a). case map_of (cp_latencies p) i of None \<Rightarrow> 0 | Some l \<Rightarrow> l"
  let ?xs = "enumerate 0 (cp_clients p)"
  have ne: "?xs \<noteq> []" using a by (metis length_enumerate length_0_conv)
  obtain i c where ic: "hd (sort_key ?f ?xs) = (i, c)" by (cases "hd (sort_key ?f ?xs)")
  from hd_sort_key_least [OF ne, of ?f] ic have "(i, c) \<in> set ?xs" and least: "\<forall>x \<in> set ?xs. ?f (i, c) \<le> ?f x"
    by simp_all
  then have "(i, c) \<in> set ?xs" by simp
  moreover have "snd (get_next_client up rnd p) = Some c"
    using a ic by (simp add: get_next_client_def filter_id_conv Let_def)
  ultimately have "i < length (cp_clients p)" "snd (get_next_client up rnd p) = Some (cp_clients p ! i)"
    by (auto simp: in_set_enumerate_eq)
  moreover have "(case map_of (cp_latencies p) i of None \<Rightarrow> 0 | Some l \<Rightarrow> l)
      \<le> (case map_of (cp_latencies p) j of None \<Rightarrow> 0 | Some l \<Rightarrow> l)" if "j < length (cp_clients p)" for j
  proof -
    have "(j, cp_clients p ! j) \<in> set ?xs" using that by (simp add: in_set_enumerate_eq)
    from bspec [OF least this] show ?thesis by (simp only: prod.case)
  qed
  ultimately show "\<exists>i < length (cp_clients p). snd (get_next_client up rnd p) = Some (cp_clients p ! i)
        \<and> (\<forall>j < length (cp_clients p).
             (case map_of (cp_latencies p) i of None \<Rightarrow> 0 | Some l \<Rightarrow> l)
             \<le> (case map_of (cp_latencies p) j of None \<Rightarrow> 0 | Some l \<Rightarrow> l))"
    by blast
next
  let ?q = "(new_client_pool [] 1 ''least_latency'' :: (nat, nat) ClientPool)
    \<lparr>cp_clients := [1, 2, 3], cp_latencies := [(0, 5), (1, 1000), (2, 1)]\<rparr>"
  have "snd (get_next_client (\<lambda>c. c \<noteq> 1) rnd ?q) = Some (cp_clients ?q ! 1)"
    by (simp add: get_next_client_def new_client_pool_def)
  then show "\<exists>q :: (nat, nat) ClientPool. \<exists>up' i j. cp_strategy q = ''least_latency''
        \<and> snd (get_next_client up' rnd q) = Some (cp_clients q ! i) \<and> up' (cp_clients q ! j)
        \<and> i < length (cp_clients q) \<and> j < length (cp_clients q)
        \<and> map_of (cp_latencies q) j = Some 1 \<and> map_of (cp_latencies q) i = Some 1000"
    by (intro exI [of _ ?q] exI [of _ "\<lambda>c. c \<noteq> 1"] exI [of _ 1] exI [of _ 2])
      (simp add: new_client_pool_def)
qed

end
