(* ===== verification/Descriptors.thy ===== *)
theory Descriptors
  imports Prelude
begin

text \<open>
  \<open>src/conduit/data\<close>: the configuration of a server and of a client and the data classes of the
  protocol, with the types, defaults and bounds of their fields and the validators of the two
  descriptors.  Pydantic is a parameter: \<open>build\<close> builds an instance of a class from keyword
  arguments, \<open>lax\<close> is its conversion of a value to a declared type, and \<open>pydantic_law\<close> says of both
  what its documentation says.  The types of the entries of dicts and lists are not kept.
\<close>

datatype ftype = FStr | FInt | FFloat | FBool | FAny | FDict | FList | FOpt ftype

record field_spec =
  fs_name :: string
  fs_type :: ftype
  fs_default :: "pyval option" \<comment> \<open>None: required\<close>
  fs_ge :: "rat option"
  fs_le :: "rat option"
  fs_min_length :: "nat option"

definition field :: "string \<Rightarrow> ftype \<Rightarrow> pyval option \<Rightarrow> field_spec" where
  "field n t d = \<lparr>fs_name = n, fs_type = t, fs_default = d, fs_ge = None, fs_le = None, fs_min_length = None\<rparr>"
definition bounded ::
  "string \<Rightarrow> ftype \<Rightarrow> pyval option \<Rightarrow> rat option \<Rightarrow> rat option \<Rightarrow> nat option \<Rightarrow> field_spec" where
  "bounded n t d ge le ml =
     \<lparr>fs_name = n, fs_type = t, fs_default = d, fs_ge = ge, fs_le = le, fs_min_length = ml\<rparr>"

fun has_type :: "ftype \<Rightarrow> pyval \<Rightarrow> bool" where
  "has_type FStr v = (case v of PStr s \<Rightarrow> True | _ \<Rightarrow> False)"
| "has_type FInt v = (case v of PInt i \<Rightarrow> True | _ \<Rightarrow> False)"
| "has_type FFloat v = (case v of PFloat r \<Rightarrow> True | _ \<Rightarrow> False)"
| "has_type FBool v = (case v of PBool b \<Rightarrow> True | _ \<Rightarrow> False)"
| "has_type FAny v = True"
| "has_type FDict v = (case v of PDict d \<Rightarrow> True | _ \<Rightarrow> False)"
| "has_type FList v = (case v of PList xs \<Rightarrow> True | _ \<Rightarrow> False)"
| "has_type (FOpt t) v = (v = PNone \<or> has_type t v)"

text \<open>The value of a number; the model compares numbers only.\<close>

definition number :: "pyval \<Rightarrow> rat" where
  "number v = (case v of PInt i \<Rightarrow> of_int i | PFloat r \<Rightarrow> r | _ \<Rightarrow> 0)"

definition is_number :: "pyval \<Rightarrow> bool" where
  "is_number v = (case v of PInt i \<Rightarrow> True | PFloat r \<Rightarrow> True | _ \<Rightarrow> False)"

definition in_bounds :: "field_spec \<Rightarrow> pyval \<Rightarrow> bool" where
  "in_bounds f v = (has_type (fs_type f) v
     \<and> (is_number v \<longrightarrow> (case fs_ge f of None \<Rightarrow> True | Some b \<Rightarrow> b \<le> number v)
          \<and> (case fs_le f of None \<Rightarrow> True | Some b \<Rightarrow> number v \<le> b))
     \<and> (case v of PStr s \<Rightarrow> (case fs_min_length f of None \<Rightarrow> True | Some n \<Rightarrow> n \<le> length s) | _ \<Rightarrow> True))"

text \<open>A validator gets the value and the fields validated before it; None is ValueError.\<close>

type_synonym validator = "pyval \<Rightarrow> (string, pyval) dict \<Rightarrow> pyval option"

record model =
  md_fields :: "field_spec list"
  md_validators :: "(string \<times> validator) list"
  md_forbid_extra :: bool

section \<open>Validators\<close>

definition validate_heartbeat_timeout :: validator where
  "validate_heartbeat_timeout v dat =
     (if dict_has dat ''heartbeat_interval'' \<and> number v \<le> number (dict_get dat ''heartbeat_interval'')
      then None else Some v)"

definition validate_reconnect_delay_max :: validator where
  "validate_reconnect_delay_max v dat =
     (if dict_has dat ''reconnect_delay'' \<and> number v < number (dict_get dat ''reconnect_delay'')
      then None else Some v)"

section \<open>Descriptors\<close>

definition ServerDescriptor_model :: model where
  "ServerDescriptor_model =
    \<lparr>md_fields =
    [field ''name'' FStr (Some (PStr ''conduit_server'')),
     field ''version'' FStr (Some (PStr ''1.0.0'')),
     field ''description'' FStr (Some (PStr [])),
     field ''host'' FStr (Some (PStr ''0.0.0.0'')),
     bounded ''port'' FInt (Some (PInt 8080)) (Some 1) (Some 65535) None,
     field ''ipv6'' FBool (Some (PBool False)),
     field ''stun_server'' FStr (Some (PStr ''stun.l.google.com:19302'')),
     bounded ''password'' FStr None None None (Some 1),
     bounded ''max_connections'' FInt (Some (PInt 100)) (Some 1) None None,
     bounded ''max_message_size'' FInt (Some (PInt 10485760)) (Some 1024) None None,
     bounded ''buffer_size'' FInt (Some (PInt 65536)) (Some 1024) None None,
     bounded ''connection_timeout'' FInt (Some (PInt 120)) (Some 1) None None,
     bounded ''auth_timeout'' FInt (Some (PInt 10)) (Some 1) None None,
     bounded ''heartbeat_interval'' FInt (Some (PInt 30)) (Some 1) None None,
     bounded ''heartbeat_timeout'' FInt (Some (PInt 90)) (Some 1) None None,
     bounded ''send_queue_size'' FInt (Some (PInt 1000)) (Some 1) None None,
     bounded ''receive_queue_size'' FInt (Some (PInt 1000)) (Some 1) None None,
     field ''enable_backpressure'' FBool (Some (PBool True)),
     field ''enable_compression'' FBool (Some (PBool False)),
     field ''ssl_enabled'' FBool (Some (PBool False)),
     field ''ssl_cert_file'' (FOpt FStr) (Some PNone),
     field ''ssl_key_file'' (FOpt FStr) (Some PNone),
     field ''ssl_ca_file'' (FOpt FStr) (Some PNone),
     field ''ssl_verify_client'' FBool (Some (PBool False)),
     field ''rate_limit_enabled'' FBool (Some (PBool False)),
     bounded ''rate_limit_messages_per_second'' FInt (Some (PInt 100)) (Some 1) None None,
     bounded ''rate_limit_bytes_per_second'' FInt (Some (PInt 10485760)) (Some 1024) None None,
     field ''protocol_version'' FStr (Some (PStr ''1.0''))],
     md_validators = [(''heartbeat_timeout'', validate_heartbeat_timeout)], md_forbid_extra = True\<rparr>"

definition ClientDescriptor_model :: model where
  "ClientDescriptor_model =
    \<lparr>md_fields =
    [field ''server_host'' FStr None,
     bounded ''server_port'' FInt None (Some 1) (Some 65535) None,
     bounded ''password'' FStr None None None (Some 1),
     field ''name'' FStr (Some (PStr ''conduit_client'')),
     field ''version'' FStr (Some (PStr ''1.0.0'')),
     field ''description'' FStr (Some (PStr [])),
     field ''username'' (FOpt FStr) (Some PNone),
     field ''use_ipv6'' FBool (Some (PBool False)),
     bounded ''local_port'' (FOpt FInt) (Some PNone) (Some 0) (Some 65535) None,
     field ''stun_server'' FStr (Some (PStr ''stun.l.google.com:19302'')),
     bounded ''connect_timeout'' FInt (Some (PInt 10)) (Some 1) None None,
     field ''reconnect_enabled'' FBool (Some (PBool True)),
     bounded ''reconnect_attempts'' FInt (Some (PInt 5)) (Some 0) None None,
     bounded ''reconnect_delay'' FFloat (Some (PFloat 2)) (Some (1 / 10)) None None,
     bounded ''reconnect_delay_max'' FFloat (Some (PFloat 60)) (Some 1) None None,
     bounded ''reconnect_delay_multiplier'' FFloat (Some (PFloat 2)) (Some 1) None None,
     bounded ''max_message_size'' FInt (Some (PInt 10485760)) (Some 1024) None None,
     bounded ''buffer_size'' FInt (Some (PInt 65536)) (Some 1024) None None,
     bounded ''rpc_timeout'' FFloat (Some (PFloat 30)) (Some (1 / 10)) None None,
     bounded ''send_timeout'' FFloat (Some (PFloat 10)) (Some (1 / 10)) None None,
     bounded ''heartbeat_interval'' FInt (Some (PInt 30)) (Some 1) None None,
     bounded ''heartbeat_timeout'' FInt (Some (PInt 90)) (Some 1) None None,
     bounded ''send_queue_size'' FInt (Some (PInt 1000)) (Some 1) None None,
     bounded ''receive_queue_size'' FInt (Some (PInt 1000)) (Some 1) None None,
     field ''enable_compression'' FBool (Some (PBool False)),
     field ''ssl_enabled'' FBool (Some (PBool False)),
     field ''ssl_verify'' FBool (Some (PBool True)),
     field ''ssl_ca_file'' (FOpt FStr) (Some PNone),
     field ''ssl_cert_file'' (FOpt FStr) (Some PNone),
     field ''ssl_key_file'' (FOpt FStr) (Some PNone),
     field ''protocol_version'' FStr (Some (PStr ''1.0''))],
     md_validators = [(''heartbeat_timeout'', validate_heartbeat_timeout),
       (''reconnect_delay_max'', validate_reconnect_delay_max)], md_forbid_extra = True\<rparr>"

section \<open>Messages\<close>

definition MessageData_model :: model where
  "MessageData_model =
    \<lparr>md_fields =
    [field ''type'' FStr None,
     field ''data'' FAny (Some PNone)],
     md_validators = [], md_forbid_extra = False\<rparr>"

definition RPCRequest_model :: model where
  "RPCRequest_model =
    \<lparr>md_fields =
    [field ''method'' FStr None,
     field ''params'' FDict (Some (PDict []))],
     md_validators = [], md_forbid_extra = True\<rparr>"

definition RPCResponse_model :: model where
  "RPCResponse_model =
    \<lparr>md_fields =
    [field ''success'' FBool (Some (PBool True)),
     field ''result'' FAny (Some PNone)],
     md_validators = [], md_forbid_extra = False\<rparr>"

definition RPCError_model :: model where
  "RPCError_model =
    \<lparr>md_fields =
    [field ''success'' FBool (Some (PBool False)),
     field ''error'' FStr None,
     field ''code'' (FOpt FInt) (Some PNone),
     field ''details'' (FOpt FDict) (Some PNone)],
     md_validators = [], md_forbid_extra = True\<rparr>"

definition AuthRequest_model :: model where
  "AuthRequest_model =
    \<lparr>md_fields =
    [field ''password_hash'' FStr None,
     field ''client_info'' FDict (Some (PDict [])),
     field ''protocol_version'' FStr (Some (PStr ''1.0''))],
     md_validators = [], md_forbid_extra = True\<rparr>"

definition AuthSuccess_model :: model where
  "AuthSuccess_model =
    \<lparr>md_fields =
    [field ''session_token'' FStr None,
     field ''server_info'' FDict (Some (PDict [])),
     field ''heartbeat_interval'' FInt (Some (PInt 30))],
     md_validators = [], md_forbid_extra = True\<rparr>"

definition AuthFailure_model :: model where
  "AuthFailure_model =
    \<lparr>md_fields =
    [field ''reason'' FStr None,
     field ''retry_allowed'' FBool (Some (PBool False))],
     md_validators = [], md_forbid_extra = True\<rparr>"

definition HeartbeatData_model :: model where
  "HeartbeatData_model =
    \<lparr>md_fields =
    [field ''timestamp'' (FOpt FInt) (Some PNone)],
     md_validators = [], md_forbid_extra = False\<rparr>"

definition CloseReason_model :: model where
  "CloseReason_model =
    \<lparr>md_fields =
    [field ''reason'' FStr (Some (PStr [])),
     field ''code'' FInt (Some (PInt 0))],
     md_validators = [], md_forbid_extra = True\<rparr>"

definition AckData_model :: model where
  "AckData_model =
    \<lparr>md_fields =
    [field ''correlation_id'' FInt None],
     md_validators = [], md_forbid_extra = True\<rparr>"

definition NackData_model :: model where
  "NackData_model =
    \<lparr>md_fields =
    [field ''correlation_id'' FInt None,
     field ''reason'' FStr (Some (PStr []))],
     md_validators = [], md_forbid_extra = True\<rparr>"

definition RPCMethodInfo_model :: model where
  "RPCMethodInfo_model =
    \<lparr>md_fields =
    [field ''name'' FStr None,
     field ''description'' FStr (Some (PStr [])),
     field ''parameters'' FDict (Some (PDict [])),
     field ''return_type'' FStr (Some (PStr ''Any'')),
     field ''requires_auth'' FBool (Some (PBool True))],
     md_validators = [], md_forbid_extra = True\<rparr>"

definition RPCListResponse_model :: model where
  "RPCListResponse_model =
    \<lparr>md_fields =
    [field ''methods'' FList (Some (PList [])),
     field ''server_name'' FStr (Some (PStr [])),
     field ''server_version'' FStr (Some (PStr []))],
     md_validators = [], md_forbid_extra = True\<rparr>"

definition RPCCallResult_model :: model where
  "RPCCallResult_model =
    \<lparr>md_fields =
    [field ''success'' FBool None,
     field ''result'' FAny (Some PNone),
     field ''error'' (FOpt FStr) (Some PNone),
     field ''error_code'' (FOpt FInt) (Some PNone),
     field ''correlation_id'' FInt None,
     field ''elapsed_ms'' FFloat (Some (PInt 0))], \<comment> \<open>an int default, which is not converted\<close>
     md_validators = [], md_forbid_extra = False\<rparr>"

definition ClientInfo_model :: model where
  "ClientInfo_model =
    \<lparr>md_fields =
    [field ''name'' FStr (Some (PStr ''conduit_client'')),
     field ''version'' FStr (Some (PStr ''1.0.0'')),
     field ''description'' FStr (Some (PStr [])),
     field ''protocol_version'' FStr (Some (PStr ''1.0'')),
     field ''capabilities'' FList (Some (PList []))],
     md_validators = [], md_forbid_extra = False\<rparr>"

definition ServerInfo_model :: model where
  "ServerInfo_model =
    \<lparr>md_fields =
    [field ''name'' FStr (Some (PStr ''conduit_server'')),
     field ''version'' FStr (Some (PStr ''1.0.0'')),
     field ''description'' FStr (Some (PStr [])),
     field ''protocol_version'' FStr (Some (PStr ''1.0'')),
     field ''heartbeat_interval'' FInt (Some (PInt 30)),
     field ''capabilities'' FList (Some (PList []))],
     md_validators = [], md_forbid_extra = False\<rparr>"

definition data_models :: "model list" where
  "data_models = [ServerDescriptor_model, ClientDescriptor_model, MessageData_model, RPCRequest_model,
     RPCResponse_model, RPCError_model, AuthRequest_model, AuthSuccess_model, AuthFailure_model,
     HeartbeatData_model, CloseReason_model, AckData_model, NackData_model, RPCMethodInfo_model,
     RPCListResponse_model, ClientInfo_model, ServerInfo_model, RPCCallResult_model]"

section \<open>Health\<close>

datatype HealthState = H_DISCONNECTED | H_CONNECTING | H_AUTHENTICATING | H_CONNECTED | H_ACTIVE
  | H_PAUSED | H_CLOSING | H_CLOSED | H_FAILED

text \<open>The fields of \<open>ConnectionHealth\<close> that its operation reads.\<close>

record ConnectionHealth =
  ch_state :: HealthState
  ch_connected :: bool
  ch_authenticated :: bool
  ch_is_paused :: bool

definition health_is_healthy :: "ConnectionHealth \<Rightarrow> bool" where
  "health_is_healthy h = (ch_connected h \<and> ch_authenticated h \<and> ch_state h = H_ACTIVE \<and> \<not> ch_is_paused h)"

section \<open>What Pydantic documents\<close>

text \<open>
  Fields in the order of declaration: a given value is converted, checked against its bounds and
  given to its validator; a missing one takes the default, which is neither converted nor validated.
  Other arguments are an error in a class that forbids them; the other classes here all allow
  them, and keep them behind the fields.
\<close>

fun validated ::
  "(ftype \<Rightarrow> pyval \<Rightarrow> pyval option) \<Rightarrow> (string \<times> validator) list \<Rightarrow> field_spec list
     \<Rightarrow> (string, pyval) dict \<Rightarrow> (string, pyval) dict \<Rightarrow> (string, pyval) dict option" where
  "validated lax vs [] input seen = Some seen"
| "validated lax vs (f # fs) input seen =
     (case (case map_of input (fs_name f) of
              None \<Rightarrow> fs_default f
            | Some v \<Rightarrow>
                (case lax (fs_type f) v of
                   None \<Rightarrow> None
                 | Some w \<Rightarrow>
                     if \<not> in_bounds f w then None
                     else case map_of vs (fs_name f) of None \<Rightarrow> Some w | Some check \<Rightarrow> check w seen)) of
        None \<Rightarrow> None
      | Some w \<Rightarrow> validated lax vs fs input (seen @ [(fs_name f, w)]))"

definition no_extra :: "model \<Rightarrow> (string, pyval) dict \<Rightarrow> bool" where
  "no_extra md input = (\<forall>kv \<in> set input. fst kv \<in> fs_name ` set (md_fields md))"

definition extras :: "model \<Rightarrow> (string, pyval) dict \<Rightarrow> (string, pyval) dict" where
  "extras md input = filter (\<lambda>kv. fst kv \<notin> fs_name ` set (md_fields md)) input"

definition pydantic_law ::
  "(ftype \<Rightarrow> pyval \<Rightarrow> pyval option)
     \<Rightarrow> (model \<Rightarrow> (string, pyval) dict \<Rightarrow> (string, pyval) dict option) \<Rightarrow> bool" where
  "pydantic_law lax build =
     ((\<forall>t v. has_type t v \<longrightarrow> lax t v = Some v)
      \<and> (\<forall>md input. build md input =
           (if md_forbid_extra md \<and> \<not> no_extra md input then None
            else map_option (\<lambda>d. d @ extras md input) (validated lax (md_validators md) (md_fields md) input []))))"

section \<open>Properties\<close>

lemma validated_append:
  "validated lax vs (fs @ gs) input seen =
     (case validated lax vs fs input seen of None \<Rightarrow> None | Some s \<Rightarrow> validated lax vs gs input s)"
  by (induction fs arbitrary: seen) (auto split: option.split)

lemma validated_extends:
  assumes "validated lax vs fs input seen = Some d"
  shows "\<exists>e. d = seen @ e \<and> map fst e = map fs_name fs"
  using assms
proof (induction fs arbitrary: seen)
  case (Cons f fs)
  then obtain w where "validated lax vs fs input (seen @ [(fs_name f, w)]) = Some d"
    by (auto split: option.splits)
  from Cons.IH [OF this] show ?case by auto
qed simp

text \<open>A validator that returns, returns the value it was given.\<close>

definition keeps_value :: "(string \<times> validator) list \<Rightarrow> bool" where
  "keeps_value vs = (\<forall>n check. map_of vs n = Some check \<longrightarrow> (\<forall>v s w. check v s = Some w \<longrightarrow> w = v))"

lemma keeps_valueD: "keeps_value vs \<Longrightarrow> map_of vs n = Some check \<Longrightarrow> check v s = Some w \<Longrightarrow> w = v"
  by (auto simp: keeps_value_def)

lemma validated_bounds:
  assumes "validated lax vs fs input seen = Some d" and "keeps_value vs"
    and "\<forall>f \<in> set fs. \<forall>v. fs_default f = Some v \<longrightarrow> in_bounds f v"
    and "d = seen @ e"
  shows "list_all2 (\<lambda>f kv. fst kv = fs_name f \<and> in_bounds f (snd kv)) fs e"
  using assms
proof (induction fs arbitrary: seen e)
  case (Cons f fs)
  from Cons.prems(1) obtain w where rest: "validated lax vs fs input (seen @ [(fs_name f, w)]) = Some d"
    and w: "in_bounds f w"
    using Cons.prems(2,3) by (auto split: option.splits if_splits dest: keeps_valueD)
  from validated_extends [OF rest] obtain e' where e': "d = seen @ (fs_name f, w) # e'" by auto
  with Cons.prems(4) have "e = (fs_name f, w) # e'" by simp
  with Cons.IH [OF rest Cons.prems(2), of e'] Cons.prems(3) e' w show ?case by simp
qed simp

lemma list_all2_lookup:
  assumes "list_all2 (\<lambda>f kv. fst kv = fs_name f \<and> P f (snd kv)) fs e" and "distinct (map fs_name fs)"
    and "f \<in> set fs"
  shows "P f (dict_get e (fs_name f))"
  using assms
proof (induction fs e rule: list_all2_induct)
  case (Cons g gs kv kvs)
  show ?case
  proof (cases "f = g")
    case True
    with Cons show ?thesis by (cases kv) (simp add: dict_get_def)
  next
    case False
    with Cons.prems have "f \<in> set gs" by simp
    then have "fs_name f \<in> fs_name ` set gs" by (rule imageI)
    with Cons.prems have "fs_name f \<noteq> fs_name g" by auto
    with Cons False show ?thesis by (cases kv) (simp add: dict_get_def)
  qed
qed simp

lemma validators_keep_value:
  "md \<in> set data_models \<Longrightarrow> keeps_value (md_validators md)"
  by (auto simp: data_models_def keeps_value_def validate_heartbeat_timeout_def
      validate_reconnect_delay_max_def ServerDescriptor_model_def ClientDescriptor_model_def MessageData_model_def
      RPCRequest_model_def RPCResponse_model_def RPCError_model_def AuthRequest_model_def AuthSuccess_model_def
      AuthFailure_model_def HeartbeatData_model_def CloseReason_model_def AckData_model_def NackData_model_def
      RPCMethodInfo_model_def RPCListResponse_model_def RPCCallResult_model_def
      ClientInfo_model_def ServerInfo_model_def split: if_splits)

definition model_ok :: "model \<Rightarrow> bool" where
  "model_ok md = (distinct (map fs_name (md_fields md))
     \<and> list_all (\<lambda>f. case fs_default f of None \<Rightarrow> True | Some v \<Rightarrow> in_bounds f v) (md_fields md))"

lemma data_models_ok:
  assumes "md \<in> set data_models" and "md \<noteq> RPCCallResult_model"
  shows "model_ok md"
proof -
  have "list_all model_ok (butlast data_models)" by code_simp
  moreover have "md \<in> set (butlast data_models)" using assms by (simp add: data_models_def)
  ultimately show ?thesis by (simp add: list_all_iff)
qed

lemma no_extras: "no_extra md input \<Longrightarrow> extras md input = []"
  by (auto simp: no_extra_def extras_def filter_empty_conv)

lemma build_validated:
  assumes "pydantic_law lax build" and "build md input = Some d"
  shows "\<exists>e. validated lax (md_validators md) (md_fields md) input [] = Some e \<and> d = e @ extras md input
    \<and> (md_forbid_extra md \<longrightarrow> extras md input = [])"
proof (cases "md_forbid_extra md \<and> \<not> no_extra md input")
  case True
  with assms show ?thesis by (simp add: pydantic_law_def)
next
  case False
  with assms no_extras [of md input] show ?thesis by (auto simp: pydantic_law_def)
qed

text \<open>
  Every instance of a data class begins with the declared fields, each of its declared type and
  within its declared bounds, the defaults included - but for the elapsed time of an \<open>RPCCallResult\<close>,
  whose default is an int - and has nothing else if the class forbids it.
\<close>

lemma instances_well_typed:
  assumes "pydantic_law lax build" and "md \<in> set data_models" "md \<noteq> RPCCallResult_model" and "build md input = Some d"
  shows "\<exists>e. d = e @ extras md input \<and> (md_forbid_extra md \<longrightarrow> d = e) \<and> map fst e = map fs_name (md_fields md)
    \<and> (\<forall>f \<in> set (md_fields md). in_bounds f (dict_get e (fs_name f)))"
proof -
  from build_validated [OF assms(1,4)] obtain e where
    v: "validated lax (md_validators md) (md_fields md) input [] = Some e" and d: "d = e @ extras md input"
      "md_forbid_extra md \<longrightarrow> extras md input = []" by blast
  have "distinct (map fs_name (md_fields md))"
    and "\<forall>f \<in> set (md_fields md). \<forall>v. fs_default f = Some v \<longrightarrow> in_bounds f v"
    using data_models_ok [OF assms(2,3)] by (auto simp: model_ok_def list_all_iff)
  with validated_bounds [OF v validators_keep_value [OF assms(2)]] validated_extends [OF v]
  have "map fst e = map fs_name (md_fields md)" "\<forall>f \<in> set (md_fields md). in_bounds f (dict_get e (fs_name f))"
    by (auto intro: list_all2_lookup)
  with d show ?thesis by auto
qed

text \<open>The documented construction itself, with no conversion.\<close>

definition plain_build :: "model \<Rightarrow> (string, pyval) dict \<Rightarrow> (string, pyval) dict option" where
  "plain_build md input =
     (if md_forbid_extra md \<and> \<not> no_extra md input then None
      else map_option (\<lambda>d. d @ extras md input) (validated (\<lambda>t v. Some v) (md_validators md) (md_fields md) input []))"

lemma plain_build_law: "pydantic_law (\<lambda>t v. Some v) plain_build"
  by (simp add: pydantic_law_def plain_build_def)

lemma validator_ran:
  assumes v: "validated lax vs (pre @ f # post) input [] = Some d" and given: "map_of input (fs_name f) = Some x"
    and vs: "map_of vs (fs_name f) = Some check" "keeps_value vs"
    and new: "fs_name f \<notin> fs_name ` set pre"
  shows "\<exists>seen. (\<forall>k \<in> fs_name ` set pre. dict_has seen k \<and> dict_get seen k = dict_get d k)
    \<and> check (dict_get d (fs_name f)) seen \<noteq> None"
proof -
  from v obtain seen where seen: "validated lax vs pre input [] = Some seen"
    and rest: "validated lax vs (f # post) input seen = Some d"
    by (auto simp: validated_append split: option.splits)
  from rest given vs(1) obtain w0 w where w0: "check w0 seen = Some w"
    and go: "validated lax vs post input (seen @ [(fs_name f, w)]) = Some d"
    by (auto split: option.splits if_splits)
  from keeps_valueD [OF vs(2,1) w0] have "w0 = w" by simp
  from validated_extends [OF go] obtain e where d: "d = seen @ (fs_name f, w) # e" by auto
  from validated_extends [OF seen] have keys: "fst ` set seen = fs_name ` set pre"
    by (metis append_Nil list.set_map)
  have in_seen: "dict_has seen k \<and> dict_get seen k = dict_get d k" if "k \<in> fs_name ` set pre" for k
  proof -
    have "map_of seen k \<noteq> None" using that keys by (simp add: map_of_eq_None_iff)
    then show ?thesis by (auto simp: d dict_get_def dict_has_def map_add_def split: option.splits)
  qed
  have "map_of seen (fs_name f) = None" using new keys by (simp add: map_of_eq_None_iff)
  then have "dict_get d (fs_name f) = w"
    by (simp add: d dict_get_def map_add_def)
  with in_seen w0 \<open>w0 = w\<close> show ?thesis by (intro exI [of _ seen]) auto
qed

definition server_example :: "int \<Rightarrow> (string, pyval) dict" where
  "server_example i = [(''password'', PStr ''pw''), (''heartbeat_interval'', PInt i)]"
definition client_example :: "rat \<Rightarrow> (string, pyval) dict" where
  "client_example r = [(''server_host'', PStr ''h''), (''server_port'', PInt 1), (''password'', PStr ''pw''),
     (''reconnect_delay'', PFloat r)]"

text \<open>The configuration of a check that compares a field with an earlier one.\<close>

definition comes_before :: "model \<Rightarrow> string \<Rightarrow> string \<Rightarrow> bool" where
  "comes_before md earlier name =
     (earlier \<in> set (takeWhile (\<lambda>n. n \<noteq> name) (map fs_name (md_fields md)))
      \<and> name \<in> set (map fs_name (md_fields md)))"

definition has_check :: "model \<Rightarrow> string \<Rightarrow> string \<Rightarrow> validator \<Rightarrow> bool" where
  "has_check md earlier name check = (map_of (md_validators md) name = Some check
     \<and> comes_before md earlier name)"

lemma descriptor_validators:
  "md_validators ServerDescriptor_model = [(''heartbeat_timeout'', validate_heartbeat_timeout)]"
  "md_validators ClientDescriptor_model = [(''heartbeat_timeout'', validate_heartbeat_timeout),
     (''reconnect_delay_max'', validate_reconnect_delay_max)]"
  by (simp_all only: ServerDescriptor_model_def ClientDescriptor_model_def model.simps)

lemma descriptor_checks:
  "has_check ServerDescriptor_model ''heartbeat_interval'' ''heartbeat_timeout'' validate_heartbeat_timeout"
  "has_check ClientDescriptor_model ''heartbeat_interval'' ''heartbeat_timeout'' validate_heartbeat_timeout"
  "has_check ClientDescriptor_model ''reconnect_delay'' ''reconnect_delay_max'' validate_reconnect_delay_max"
proof -
  have "comes_before ServerDescriptor_model ''heartbeat_interval'' ''heartbeat_timeout''"
    "comes_before ClientDescriptor_model ''heartbeat_interval'' ''heartbeat_timeout''"
    "comes_before ClientDescriptor_model ''reconnect_delay'' ''reconnect_delay_max''" by code_simp+
  then show "has_check ServerDescriptor_model ''heartbeat_interval'' ''heartbeat_timeout'' validate_heartbeat_timeout"
    "has_check ClientDescriptor_model ''heartbeat_interval'' ''heartbeat_timeout'' validate_heartbeat_timeout"
    "has_check ClientDescriptor_model ''reconnect_delay'' ''reconnect_delay_max'' validate_reconnect_delay_max"
    by (simp_all add: has_check_def descriptor_validators)
qed

lemma check_ran:
  assumes chk: "has_check md earlier name check" and md: "md \<in> set data_models"
    and v: "validated lax (md_validators md) (md_fields md) input [] = Some d" and given: "dict_has input name"
  shows "\<exists>seen. dict_has seen earlier \<and> dict_get seen earlier = dict_get d earlier
    \<and> check (dict_get d name) seen \<noteq> None"
proof -
  let ?pre = "takeWhile (\<lambda>f. fs_name f \<noteq> name) (md_fields md)"
  have "\<exists>f \<in> set (md_fields md). fs_name f = name" using chk by (auto simp: has_check_def comes_before_def)
  then have ne: "dropWhile (\<lambda>f. fs_name f \<noteq> name) (md_fields md) \<noteq> []" by (auto simp: dropWhile_eq_Nil_conv)
  then obtain f post where drop: "dropWhile (\<lambda>f. fs_name f \<noteq> name) (md_fields md) = f # post"
    by (cases "dropWhile (\<lambda>f. fs_name f \<noteq> name) (md_fields md)") auto
  with hd_dropWhile [OF ne] have name: "fs_name f = name" by simp
  obtain pre where pre: "pre = ?pre" by simp
  have split: "md_fields md = pre @ f # post" by (simp only: pre drop [symmetric] takeWhile_dropWhile_id)
  have new: "fs_name f \<notin> fs_name ` set pre" by (auto simp: pre name dest: set_takeWhileD)
  have early: "earlier \<in> fs_name ` set pre"
    using chk by (simp add: has_check_def comes_before_def takeWhile_map pre comp_def)
  from given obtain x where x: "map_of input (fs_name f) = Some x" by (auto simp: dict_has_def name)
  have c: "map_of (md_validators md) (fs_name f) = Some check" using chk by (simp add: has_check_def name)
  have "validated lax (md_validators md) (pre @ f # post) input [] = Some d"
    using v by (simp only: split)
  from validator_ran [OF this x c validators_keep_value [OF md] new] early
  show ?thesis by (auto simp: name)
qed

lemma default_taken:
  assumes v: "validated lax vs (pre @ f # post) input [] = Some d" and missing: "map_of input (fs_name f) = None"
    and w: "fs_default f = Some w" and new: "fs_name f \<notin> fs_name ` set pre"
  shows "dict_get d (fs_name f) = w"
proof -
  from v obtain seen where seen: "validated lax vs pre input [] = Some seen"
    and rest: "validated lax vs (f # post) input seen = Some d"
    by (auto simp: validated_append split: option.splits)
  with missing w have "validated lax vs post input (seen @ [(fs_name f, w)]) = Some d" by simp
  from validated_extends [OF this] obtain e where d: "d = seen @ (fs_name f, w) # e" by auto
  from validated_extends [OF seen] have "fst ` set seen = fs_name ` set pre" by (metis append_Nil list.set_map)
  with new have "map_of seen (fs_name f) = None" by (simp add: map_of_eq_None_iff)
  then show ?thesis by (simp add: d dict_get_def map_add_def)
qed

definition has_default :: "model \<Rightarrow> string \<Rightarrow> pyval \<Rightarrow> bool" where
  "has_default md name w = (name \<in> set (map fs_name (md_fields md))
     \<and> list_all (\<lambda>f. fs_name f = name \<longrightarrow> fs_default f = Some w) (md_fields md))"

lemma field_default:
  assumes "has_default md name w" and "validated lax vs (md_fields md) input [] = Some d" and "\<not> dict_has input name"
  shows "dict_get d name = w"
proof -
  have "name \<in> fs_name ` set (md_fields md)" using assms(1) by (simp add: has_default_def)
  then obtain f where "f \<in> set (md_fields md)" "fs_name f = name" by blast
  then have "\<exists>f \<in> set (md_fields md). fs_name f = name" by blast
  from split_list_first_prop [OF this] obtain pre f post where
    split: "md_fields md = pre @ f # post" "fs_name f = name" "\<forall>g \<in> set pre. fs_name g \<noteq> name" by blast
  with assms(1) have "fs_default f = Some w" by (simp add: has_default_def)
  moreover have "map_of input (fs_name f) = None" using assms(3) split(2) by (simp add: dict_has_def)
  moreover have "fs_name f \<notin> fs_name ` set pre" using split(2,3) by auto
  ultimately show ?thesis using default_taken [of lax vs pre f post input d w] assms(2) split by simp
qed

lemma descriptor_defaults:
  "has_default ServerDescriptor_model ''heartbeat_timeout'' (PInt 90)"
  "has_default ClientDescriptor_model ''heartbeat_timeout'' (PInt 90)"
  "has_default ClientDescriptor_model ''reconnect_delay_max'' (PFloat 60)"
  by code_simp+

lemma descriptor_extra: "md_forbid_extra ServerDescriptor_model" "md_forbid_extra ClientDescriptor_model"
  by (simp_all only: ServerDescriptor_model_def ClientDescriptor_model_def model.simps)

text \<open>A checked field of a descriptor: what the check demands holds if the field was given, and of the default.\<close>

lemma checked_field:
  assumes law: "pydantic_law lax build" and md: "md \<in> set data_models" "md_forbid_extra md" and d: "build md input = Some d"
    and check: "has_check md earlier name check" and default: "has_default md name w"
    and demand: "\<And>v seen. dict_has seen earlier \<Longrightarrow> check v seen \<noteq> None \<longleftrightarrow> P (number (dict_get seen earlier)) (number v)"
  shows "P (number (dict_get d earlier)) (number (dict_get d name)) \<longleftrightarrow>
    dict_has input name \<or> P (number (dict_get d earlier)) (number w)"
proof -
  from build_validated [OF law d] md(2) have v: "validated lax (md_validators md) (md_fields md) input [] = Some d"
    by auto
  show ?thesis
  proof (cases "dict_has input name")
    case True
    from check_ran [OF check md(1) v True] demand True show ?thesis by metis
  next
    case False
    from field_default [OF default v False] False show ?thesis by simp
  qed
qed

text \<open>
  C35. The cross-field checks of a configuration see only what is given: a built descriptor has a
  heartbeat timeout above its interval exactly if the timeout was given or the interval is below the
  default of 90, and a client's maximum delay is at least its first delay exactly if it was given or
  the first delay is at most the default of 60.  So an interval of 90 or more, or a first delay above
  60, is accepted as long as the other field is left out - against what the fields are documented to
  ensure.
\<close>

theorem cross_checks_see_only_given:
  assumes law: "pydantic_law lax build"
  shows "(\<forall>md input d. (md = ServerDescriptor_model \<or> md = ClientDescriptor_model) \<and> build md input = Some d \<longrightarrow>
        (number (dict_get d ''heartbeat_interval'') < number (dict_get d ''heartbeat_timeout'')
          \<longleftrightarrow> dict_has input ''heartbeat_timeout'' \<or> number (dict_get d ''heartbeat_interval'') < 90))
    \<and> (\<forall>input d. build ClientDescriptor_model input = Some d \<longrightarrow>
        (number (dict_get d ''reconnect_delay'') \<le> number (dict_get d ''reconnect_delay_max'')
          \<longleftrightarrow> dict_has input ''reconnect_delay_max'' \<or> number (dict_get d ''reconnect_delay'') \<le> 60))
    \<and> (\<forall>i. 1 \<le> i \<longrightarrow> (\<exists>e. build ServerDescriptor_model (server_example i) = Some e
        \<and> dict_get e ''heartbeat_interval'' = PInt i \<and> dict_get e ''heartbeat_timeout'' = PInt 90))
    \<and> (\<forall>r. 1 \<le> r \<longrightarrow> (\<exists>e. build ClientDescriptor_model (client_example r) = Some e
        \<and> dict_get e ''reconnect_delay'' = PFloat r \<and> dict_get e ''reconnect_delay_max'' = PFloat 60))"
proof (intro conjI allI impI)
  fix md input d
  assume "(md = ServerDescriptor_model \<or> md = ClientDescriptor_model) \<and> build md input = Some d"
  then have md: "md \<in> set data_models" "md_forbid_extra md" "build md input = Some d"
    "has_check md ''heartbeat_interval'' ''heartbeat_timeout'' validate_heartbeat_timeout"
    "has_default md ''heartbeat_timeout'' (PInt 90)"
    using descriptor_checks descriptor_defaults descriptor_extra by (auto simp: data_models_def)
  show "number (dict_get d ''heartbeat_interval'') < number (dict_get d ''heartbeat_timeout'')
      \<longleftrightarrow> dict_has input ''heartbeat_timeout'' \<or> number (dict_get d ''heartbeat_interval'') < 90"
    using checked_field [OF law md, of "(<)"] by (simp add: validate_heartbeat_timeout_def number_def not_le)
next
  fix input d
  assume d: "build ClientDescriptor_model input = Some d"
  have md: "ClientDescriptor_model \<in> set data_models" by (simp add: data_models_def)
  show "number (dict_get d ''reconnect_delay'') \<le> number (dict_get d ''reconnect_delay_max'')
      \<longleftrightarrow> dict_has input ''reconnect_delay_max'' \<or> number (dict_get d ''reconnect_delay'') \<le> 60"
    using checked_field [OF law md descriptor_extra(2) d descriptor_checks(3) descriptor_defaults(3), of "(\<le>)"]
    by (simp add: validate_reconnect_delay_max_def number_def not_less)
next
  fix i :: int
  assume i: "1 \<le> i"
  have lax: "has_type t v \<Longrightarrow> lax t v = Some v" for t v using assms by (simp add: pydantic_law_def)
  have "no_extra ServerDescriptor_model (server_example 1)" by code_simp
  then have "no_extra ServerDescriptor_model (server_example i)" by (simp add: no_extra_def server_example_def)
  with law i lax no_extras [OF this] show "\<exists>e. build ServerDescriptor_model (server_example i) = Some e
      \<and> dict_get e ''heartbeat_interval'' = PInt i \<and> dict_get e ''heartbeat_timeout'' = PInt 90"
    by (simp add: pydantic_law_def server_example_def ServerDescriptor_model_def field_def bounded_def
        in_bounds_def is_number_def number_def dict_get_def)
next
  fix r :: rat
  assume r: "1 \<le> r"
  have lax: "has_type t v \<Longrightarrow> lax t v = Some v" for t v using assms by (simp add: pydantic_law_def)
  have "no_extra ClientDescriptor_model (client_example 1)" by code_simp
  then have "no_extra ClientDescriptor_model (client_example r)" by (simp add: no_extra_def client_example_def)
  with law r lax no_extras [OF this] show "\<exists>e. build ClientDescriptor_model (client_example r) = Some e
      \<and> dict_get e ''reconnect_delay'' = PFloat r \<and> dict_get e ''reconnect_delay_max'' = PFloat 60"
    by (simp add: pydantic_law_def client_example_def ClientDescriptor_model_def field_def bounded_def
        in_bounds_def is_number_def number_def dict_get_def)
qed

theorem cross_checks_see_only_given_witness:
  "\<exists>e. plain_build ServerDescriptor_model (server_example 120) = Some e
     \<and> \<not> number (dict_get e ''heartbeat_interval'') < number (dict_get e ''heartbeat_timeout'')"
  using cross_checks_see_only_given [OF plain_build_law, THEN conjunct2, THEN conjunct2, THEN conjunct1, rule_format, of 120]
  by (auto simp: number_def)

end
