(* ===== verification/Client.thy ===== *)
theory Client
  imports Steps Connections Rpc Router
begin

text \<open>
  \<open>src/conduit/client.py\<close>: the client's connection attempts with their authentication exchange, its
  handling of every event of the transport, the reconnection loop, disconnect, the mesh side and the
  peer-to-peer handlers.  A handler is a step as in Steps.thy.  User code, the transport, hashes and the
  TLS tunnel are the record \<open>client_env\<close>; one task runs at a time, so what happens while a task waits
  is a step between its two halves.
\<close>

section \<open>State\<close>

record ClientConfig =
  cc_server_host :: string
  cc_server_port :: int
  cc_password :: string
  cc_name :: string
  cc_version :: string
  cc_username :: "string option"
  cc_local_port :: "int option"
  cc_stun_server :: string
  cc_connect_timeout :: int
  cc_reconnect_enabled :: bool
  cc_reconnect_attempts :: int
  cc_reconnect_delay :: time
  cc_reconnect_delay_max :: time
  cc_reconnect_delay_multiplier :: rat
  cc_enable_compression :: bool

datatype task_state = TaskRunning | TaskDone
datatype auth_future = AuthPending | AuthResult bool | AuthDropped

text \<open>The elements of the tuples in \<open>_p2p_servers\<close>; a future is shown by whether it is done.\<close>

datatype p2p_item = LocalServer string int | ConnFuture bool | PeerSource pyval

text \<open>
  The connection of a peer reached over the mesh.  Tunnels are shared with the client that owns
  them, so a tunnel is named by its address in the client's store.
\<close>

record MeshConnection =
  mc_peer_id :: string
  mc_tunnel :: nat
  mc_encoder :: ProtocolEncoder
  mc_pending_rpcs :: "(int, future) dict"
  mc_stats :: ConnectionStats
  mc_on_message :: bool
  mc_on_disconnect :: "string option"

text \<open>What a value of \<open>_peer_clients\<close> has: a mesh connection, or only one way to take a packet.\<close>

datatype peer = MeshPeer MeshConnection | EventPeer | RawPeer | SendPeer

record ('m, 'h, 't) Client =
  cl_config :: ClientConfig
  cl_rust :: bool
  cl_connection :: "pyval Connection option"
  cl_encoder :: ProtocolEncoder
  cl_router :: "'m MessageRouter"
  cl_pending_rpcs :: "(int, future) dict"
  cl_registry :: "'h RPCRegistry"
  cl_session_token :: pyval
  cl_cached_session_token :: pyval
  cl_server_info :: "(string, pyval) dict"
  cl_binary_handler :: bool
  cl_on_p2p_established :: bool
  cl_reconnect_tries :: nat
  cl_should_reconnect :: bool
  cl_connect_task :: "task_state option"
  cl_reconnect_task :: "task_state option"
  cl_auth_future :: "auth_future option"
  cl_mesh_tunnels :: "(string, nat) dict"
  cl_tunnels :: "'t list"
  cl_peer_clients :: "(string, peer) dict"
  cl_p2p_servers :: "(string, p2p_item list) dict"
  cl_p2p_futures :: "(string, future) dict"

definition setup_client_p2p_handlers :: "'m \<Rightarrow> 'm \<Rightarrow> 'm \<Rightarrow> 'm MessageRouter \<Rightarrow> 'm MessageRouter" where
  "setup_client_p2p_handlers incoming punch_cmd response r =
     router_register ''p2p_request_response'' response False 0
       (router_register ''p2p_punch_cmd'' punch_cmd False 0
         (router_register ''p2p_incoming'' incoming False 0 r))"

definition new_client :: "'m \<Rightarrow> 'm \<Rightarrow> 'm \<Rightarrow> ClientConfig \<Rightarrow> ('m, 'h, 't) Client" where
  "new_client incoming punch_cmd response cf =
     \<lparr>cl_config = cf, cl_rust = False, cl_connection = None, cl_encoder = new_encoder (cc_enable_compression cf),
      cl_router = setup_client_p2p_handlers incoming punch_cmd response new_router, cl_pending_rpcs = [],
      cl_registry = new_registry, cl_session_token = PNone, cl_cached_session_token = PNone,
      cl_server_info = [], cl_binary_handler = False, cl_on_p2p_established = False,
      cl_reconnect_tries = 0, cl_should_reconnect = True, cl_connect_task = None,
      cl_reconnect_task = None, cl_auth_future = None, cl_mesh_tunnels = [], cl_tunnels = [],
      cl_peer_clients = [], cl_p2p_servers = [], cl_p2p_futures = []\<rparr>"

record ('m, 'h, 't) client_env =
  ce_codec :: codec
  ce_sha256 :: "string \<Rightarrow> string"
  ce_rpc :: "'h rpc_env"
  ce_msg :: "'m \<Rightarrow> pyval \<Rightarrow> outcome"
  ce_deliver :: "bytes \<Rightarrow> bool" \<comment> \<open>\<open>send_message\<close> of the transport returns\<close>
  ce_private_ip :: "string \<Rightarrow> bool" \<comment> \<open>the library \<open>ipaddress\<close>\<close>
  ce_new_tunnel :: "bool \<Rightarrow> 't"
  ce_feed :: "'t \<Rightarrow> bytes \<Rightarrow> ('t \<times> bytes) option"
  ce_handshake :: "'t \<Rightarrow> ('t \<times> bytes) option"
  ce_handshake_done :: "'t \<Rightarrow> bool"
  ce_write :: "'t \<Rightarrow> bytes \<Rightarrow> ('t \<times> bytes) option"

datatype client_hook = ConnectHook | DisconnectHook | ReconnectHook
datatype client_task = ConnectTask | ReconnectTask
datatype peer_call = PeerEvent | PeerRaw | PeerSend

datatype 'm client_action =
    CSent bytes \<comment> \<open>a frame handed to the transport\<close>
  | CPunch string int string \<comment> \<open>\<open>stun_punch_hole\<close>\<close>
  | CRustConnect string int int int
  | CRustDisconnect
  | CHooks client_hook
  | CCancel client_task \<comment> \<open>\<open>Task.cancel\<close>\<close>
  | CStartReconnect
  | CSleep time
  | CStopServer string
  | CStartServer string
  | CCancelFuture string
  | CToPeer string peer_call bytes
  | CPeerMessage string DecodedMessage
  | CEstablished string
  | CRouted "'m route_event list"
  | CDispatched string
  | CBinary string bytes
  | CStream pyval pyval

type_synonym ('m, 'h, 't, 'a) cstep = "(('m, 'h, 't) Client, 'm client_action, 'a) srv"

section \<open>Addresses\<close>

definition lower :: "string \<Rightarrow> string" where
  "lower s = map (\<lambda>c. if 65 \<le> (of_char c :: nat) \<and> (of_char c :: nat) \<le> 90
                       then char_of (of_char c + 32 :: nat) else c) s"

definition is_loopback :: "string \<Rightarrow> bool" where
  "is_loopback h = (lower h \<in> {''localhost'', ''127.0.0.1'', ''::1''} \<or> prefix ''127.'' (lower h))"

definition address :: "string \<Rightarrow> int \<Rightarrow> string" where
  "address host port = host @ '':'' @ digits_of (nat port)"

text \<open>\<open>getattr(config, 'local_port', 0) or 0\<close>.\<close>

definition bind_port :: "ClientConfig \<Rightarrow> int" where
  "bind_port cf = (case cc_local_port cf of None \<Rightarrow> 0 | Some p \<Rightarrow> p)"

section \<open>Sending\<close>

definition c_rust_send :: "('m, 'h, 't) client_env \<Rightarrow> bytes \<Rightarrow> ('m, 'h, 't, unit) cstep" where
  "c_rust_send ev bs s = (s, [CSent bs], if ce_deliver ev bs then Some () else None)"

definition c_encoded ::
  "(ProtocolEncoder \<Rightarrow> (encode_error + bytes) \<times> ProtocolEncoder) \<Rightarrow> ('m, 'h, 't, bytes) cstep" where
  "c_encoded f s =
     (case f (cl_encoder s) of
        (Inl x, e) \<Rightarrow> (s\<lparr>cl_encoder := e\<rparr>, [], None)
      | (Inr bs, e) \<Rightarrow> (s\<lparr>cl_encoder := e\<rparr>, [], Some bs))"

text \<open>A send of the connection; without one it is an exception.\<close>

definition c_conn_send ::
  "(ProtocolEncoder \<Rightarrow> pyval Connection
      \<Rightarrow> ProtocolEncoder \<times> pyval Connection \<times> (send_error + 'a) \<times> frames) \<Rightarrow> ('m, 'h, 't, 'a) cstep" where
  "c_conn_send f s =
     (case cl_connection s of
        None \<Rightarrow> (s, [], None)
      | Some c \<Rightarrow>
          (case f (cl_encoder s) c of
             (e, c', r, fs) \<Rightarrow>
               (s\<lparr>cl_encoder := e, cl_connection := Some c'\<rparr>, map (\<lambda>(k, bs). CSent bs) fs,
                case r of Inl x \<Rightarrow> None | Inr v \<Rightarrow> Some v)))"

definition client_send :: "('m, 'h, 't) client_env \<Rightarrow> string \<Rightarrow> pyval \<Rightarrow> time \<Rightarrow> ('m, 'h, 't, unit) cstep" where
  "client_send ev t v now = c_conn_send (send_message (ce_codec ev) (ce_deliver ev) t v now)"

definition client_send_rpc_request ::
  "('m, 'h, 't) client_env \<Rightarrow> string \<Rightarrow> pyval \<Rightarrow> time \<Rightarrow> ('m, 'h, 't, int) cstep" where
  "client_send_rpc_request ev meth ps now =
     c_conn_send (send_rpc_request (ce_codec ev) (ce_deliver ev) meth ps now)"

definition client_wait_start :: "int \<Rightarrow> ('m, 'h, 't, future) cstep" where
  "client_wait_start corr =
     s_bind (s_get cl_connection) (\<lambda>c. case c of None \<Rightarrow> s_fail | Some c \<Rightarrow> s_opt (wait_start corr c))"

section \<open>Status\<close>

definition client_is_connected :: "('m, 'h, 't) Client \<Rightarrow> bool" where
  "client_is_connected s = (cl_connection s \<noteq> None)"
definition client_is_authenticated :: "('m, 'h, 't) Client \<Rightarrow> bool" where
  "client_is_authenticated s = (cl_session_token s \<noteq> PNone)"
definition client_state :: "('m, 'h, 't) Client \<Rightarrow> string" where
  "client_state s = (if client_is_connected s then ''ACTIVE'' else ''DISCONNECTED'')"
definition client_health :: "('m, 'h, 't) Client \<Rightarrow> (string, pyval) dict" where
  "client_health s =
     [(''connected'', PBool (client_is_connected s)), (''state'', PStr (client_state s)),
      (''authenticated'', PBool (client_is_authenticated s)),
      (''reconnect_attempts'', PInt (int (cl_reconnect_tries s))), (''server_info'', PDict (cl_server_info s))]"

section \<open>Disconnecting\<close>

text \<open>
  The unpacking \<open>local_server, _ = server_info\<close>: a ValueError, which is passed over, unless the tuple
  has two elements.
\<close>

definition stop_p2p_server :: "p2p_item list \<Rightarrow> 'm client_action list" where
  "stop_p2p_server info =
     (case info of [LocalServer n p, x] \<Rightarrow> [CStopServer n] | _ \<Rightarrow> [])"

definition cancel_future :: "string \<times> future \<Rightarrow> 'm client_action list" where
  "cancel_future kf = (case snd kf of Waiting \<Rightarrow> [CCancelFuture (fst kf)] | Resolved v \<Rightarrow> [])"

text \<open>Closing a client's connection runs no callback: nothing sets one on it.\<close>

definition client_disconnect :: "('m, 'h, 't, unit) cstep" where
  "client_disconnect s =
     (s\<lparr>cl_should_reconnect := False, cl_p2p_servers := [], cl_p2p_futures := [], cl_rust := False,
        cl_connection := None\<rparr>,
      (if cl_connect_task s = Some TaskRunning then [CCancel ConnectTask] else [])
      @ (if cl_reconnect_task s \<noteq> None then [CCancel ReconnectTask] else [])
      @ concat (map (stop_p2p_server \<circ> snd) (cl_p2p_servers s))
      @ concat (map cancel_future (cl_p2p_futures s))
      @ (if cl_rust s then [CRustDisconnect] else [])
      @ (if cl_connection s \<noteq> None then [CHooks DisconnectHook] else []),
      Some ())"

definition handle_disconnect :: "('m, 'h, 't, unit) cstep" where
  "handle_disconnect s =
     (let s1 = (if cl_auth_future s = Some AuthPending then s\<lparr>cl_auth_future := Some (AuthResult False)\<rparr> else s);
          was_connected = cl_connection s1 \<noteq> None;
          s2 = s1\<lparr>cl_connection := None\<rparr>;
          again = cl_should_reconnect s2 \<and> cc_reconnect_enabled (cl_config s2)
                  \<and> cl_reconnect_task s2 \<noteq> Some TaskRunning
      in (if again then s2\<lparr>cl_reconnect_task := Some TaskRunning\<rparr> else s2,
          (if was_connected then [CHooks DisconnectHook] else []) @ (if again then [CStartReconnect] else []),
          Some ()))"

section \<open>Connecting\<close>

definition auth_client_info :: "('m, 'h, 't) Client \<Rightarrow> (string, pyval) dict" where
  "auth_client_info s =
     [(''name'', PStr (cc_name (cl_config s))), (''version'', PStr (cc_version (cl_config s)))]
     @ (case cc_username (cl_config s) of
          None \<Rightarrow> [] | Some u \<Rightarrow> if u \<noteq> [] then [(''username'', PStr u)] else [])
     @ (if truthy (cl_cached_session_token s) then [(''session_token'', cl_cached_session_token s)] else [])"

definition auth_password_hash :: "('m, 'h, 't) client_env \<Rightarrow> ('m, 'h, 't) Client \<Rightarrow> string" where
  "auth_password_hash ev s =
     (if truthy (cl_cached_session_token s) then [] else ce_sha256 ev (cc_password (cl_config s)))"

text \<open>
  \<open>_do_connect\<close> up to the wait for the answer: True when it waits, False when it has returned False.
  \<open>link\<close> is what the transport's \<open>connect\<close> returns, None when it raises.
\<close>

definition do_connect_start ::
  "('m, 'h, 't) client_env \<Rightarrow> bool option \<Rightarrow> string \<Rightarrow> time \<Rightarrow> ('m, 'h, 't, bool) cstep" where
  "do_connect_start ev link uid now = catch_with False
     (s_then (s_put (\<lambda>s. s\<lparr>cl_rust := True\<rparr>))
     (s_bind (s_get cl_config)
       (\<lambda>cf. s_then
          (if is_loopback (cc_server_host cf) then s_ret ()
           else s_act (CPunch (cc_stun_server cf) (bind_port cf) (address (cc_server_host cf) (cc_server_port cf))))
         (s_then
            (s_act (CRustConnect (cc_server_host cf) (cc_server_port cf) (cc_connect_timeout cf) (bind_port cf)))
            (case link of
               None \<Rightarrow> s_fail
             | Some False \<Rightarrow> s_ret False
             | Some True \<Rightarrow>
                 s_then (s_put (\<lambda>s. s\<lparr>cl_connection := Some (new_connection [] uid now),
                                      cl_auth_future := Some AuthPending\<rparr>))
                   (s_bind (s_get (\<lambda>s. (auth_password_hash ev s, auth_client_info s)))
                     (\<lambda>(hash, info).
                        s_bind (c_encoded (\<lambda>e. encode_auth_request (ce_codec ev) e hash info now))
                          (\<lambda>msg. s_then (c_rust_send ev msg) (s_ret True)))))))))"

text \<open>
  The rest of it, once the future is done or - when it still is pending - \<open>connect_timeout\<close> has passed.
\<close>

definition do_connect_finish :: "('m, 'h, 't, bool) cstep" where
  "do_connect_finish = catch_with False
     (s_bind (s_get cl_auth_future)
       (\<lambda>f. if f = Some (AuthResult True) then
              s_bind (s_get cl_connection)
                (\<lambda>c. case c of
                   None \<Rightarrow> s_fail
                 | Some c \<Rightarrow>
                     s_then (s_put (\<lambda>s. s\<lparr>cl_connection := Some (mark_authenticated c), cl_reconnect_tries := 0\<rparr>))
                    (s_then (s_act (CHooks ConnectHook)) (s_ret True)))
            else if f = Some (AuthResult False) then s_then client_disconnect (s_ret False)
            else s_then (s_put (\<lambda>s. s\<lparr>cl_auth_future := Some AuthDropped\<rparr>)) s_fail))"

text \<open>\<open>connect\<close>: its task is the one that called it.\<close>

definition connect_begin ::
  "('m, 'h, 't) client_env \<Rightarrow> bool option \<Rightarrow> string \<Rightarrow> time \<Rightarrow> ('m, 'h, 't, bool) cstep" where
  "connect_begin ev link uid now =
     s_then (s_put (\<lambda>s. s\<lparr>cl_connect_task := Some TaskRunning, cl_should_reconnect := True\<rparr>))
    (s_bind (do_connect_start ev link uid now)
      (\<lambda>waits. s_then (if waits then s_ret () else s_put (\<lambda>s. s\<lparr>cl_connect_task := None\<rparr>)) (s_ret waits)))"

definition connect_end :: "('m, 'h, 't, bool) cstep" where
  "connect_end =
     s_bind do_connect_finish (\<lambda>r. s_then (s_put (\<lambda>s. s\<lparr>cl_connect_task := None\<rparr>)) (s_ret r))"

section \<open>Mesh packets\<close>

text \<open>\<open>create_task\<close> and calls of a peer are actions: what the peer does is its own.\<close>

definition peer_takes :: "peer \<Rightarrow> peer_call" where
  "peer_takes p = (case p of MeshPeer c \<Rightarrow> PeerEvent | EventPeer \<Rightarrow> PeerEvent | RawPeer \<Rightarrow> PeerRaw | SendPeer \<Rightarrow> PeerSend)"

definition is_mesh_peer :: "peer \<Rightarrow> bool" where
  "is_mesh_peer p = (case p of MeshPeer c \<Rightarrow> True | _ \<Rightarrow> False)"

definition route_mesh_message ::
  "('m, 'h, 't) client_env \<Rightarrow> string \<Rightarrow> bytes \<Rightarrow> ('m, 'h, 't, unit) cstep" where
  "route_mesh_message ev dst raw_payload =
     s_bind (s_get (\<lambda>s. (map_of (cl_peer_clients s) dst, cl_rust s)))
       (\<lambda>(p, rust). case p of
          Some p \<Rightarrow> s_act (CToPeer dst (peer_takes p) raw_payload)
        | None \<Rightarrow> if rust then c_rust_send ev raw_payload else s_ret ())"

definition send_mesh_raw ::
  "('m, 'h, 't) client_env \<Rightarrow> string \<Rightarrow> bytes \<Rightarrow> ('m, 'h, 't, unit) cstep" where
  "send_mesh_raw ev target packet =
     s_bind (s_get (\<lambda>s. map_of (cl_peer_clients s) target))
       (\<lambda>p. case p of
          Some p \<Rightarrow>
            if is_mesh_peer p then c_conn_send (\<lambda>e c. (e, send_raw (ce_deliver ev) packet c))
            else s_act (CToPeer target (peer_takes p) packet)
        | None \<Rightarrow> c_conn_send (\<lambda>e c. (e, send_raw (ce_deliver ev) packet c)))"

text \<open>A mesh packet around bytes: \<open>serialize_data\<close> leaves bytes as they are.\<close>

definition c_mesh_packet ::
  "('m, 'h, 't) client_env \<Rightarrow> string \<Rightarrow> bytes \<Rightarrow> string \<Rightarrow> time \<Rightarrow> ('m, 'h, 't, bytes) cstep" where
  "c_mesh_packet ev t payload dst now =
     s_bind (s_opt (ser_MessagePayload (ce_codec ev) \<lparr>mp_type = t, mp_data = payload\<rparr>))
       (\<lambda>inner. s_bind (s_get (\<lambda>s. cc_name (cl_config s)))
         (\<lambda>name. c_encoded (\<lambda>e. encode (ce_codec ev) e MESSAGE inner None 0 (Some name) (Some dst) True now)))"

definition tunnel_at :: "string \<Rightarrow> ('m, 'h, 't) Client \<Rightarrow> nat option" where
  "tunnel_at src s = map_of (cl_mesh_tunnels s) src"

definition put_new_tunnel :: "string \<Rightarrow> 't \<Rightarrow> ('m, 'h, 't, nat) cstep" where
  "put_new_tunnel node t s =
     (s\<lparr>cl_mesh_tunnels := AList.update node (length (cl_tunnels s)) (cl_mesh_tunnels s),
        cl_tunnels := cl_tunnels s @ [t]\<rparr>, [], Some (length (cl_tunnels s)))"

definition with_tunnel :: "nat \<Rightarrow> ('t \<Rightarrow> ('t \<times> 'a) option) \<Rightarrow> ('m, 'h, 't, 'a) cstep" where
  "with_tunnel a f s =
     (case f (cl_tunnels s ! a) of
        None \<Rightarrow> (s, [], None)
      | Some (t, v) \<Rightarrow> (s\<lparr>cl_tunnels := (cl_tunnels s)[a := t]\<rparr>, [], Some v))"

section \<open>Connections over the mesh\<close>

definition new_mesh_connection :: "string \<Rightarrow> nat \<Rightarrow> ProtocolEncoder \<Rightarrow> time \<Rightarrow> MeshConnection" where
  "new_mesh_connection peer_id a e now =
     \<lparr>mc_peer_id = peer_id, mc_tunnel = a, mc_encoder = e, mc_pending_rpcs = [],
      mc_stats = \<lparr>cs_connected_at = now, cs_messages_sent = 0, cs_messages_received = 0,
                  cs_bytes_sent = 0, cs_bytes_received = 0, cs_errors = 0\<rparr>,
      mc_on_message = False, mc_on_disconnect = None\<rparr>"

text \<open>\<open>MeshFallbackClient\<close>: its connection, with the client's own message handler set.\<close>

definition new_mesh_fallback_client :: "string \<Rightarrow> nat \<Rightarrow> time \<Rightarrow> peer" where
  "new_mesh_fallback_client peer_id a now =
     MeshPeer ((new_mesh_connection peer_id a (new_encoder False) now)\<lparr>mc_on_message := True\<rparr>)"

definition mesh_handle_decoded :: "DecodedMessage \<Rightarrow> MeshConnection \<Rightarrow> MeshConnection \<times> bool" where
  "mesh_handle_decoded m c =
     (let c1 = c\<lparr>mc_stats := (mc_stats c)
                \<lparr>cs_messages_received := cs_messages_received (mc_stats c) + 1,
                 cs_bytes_received := cs_bytes_received (mc_stats c) + length (dm_raw_payload m)\<rparr>\<rparr>
      in if dm_message_type m \<in> {RPC_RESPONSE, RPC_ERROR}
            \<and> map_of (mc_pending_rpcs c) (dm_correlation_id m) = Some Waiting
         then (c1\<lparr>mc_pending_rpcs :=
                   AList.update (dm_correlation_id m) (Resolved (dm_payload m)) (mc_pending_rpcs c1)\<rparr>,
               True)
         else (c1, False))"

definition put_peer :: "string \<Rightarrow> peer \<Rightarrow> ('m, 'h, 't, unit) cstep" where
  "put_peer node p = s_put (\<lambda>s. s\<lparr>cl_peer_clients := AList.update node p (cl_peer_clients s)\<rparr>)"

definition handle_decrypted_payload ::
  "('m, 'h, 't) client_env \<Rightarrow> string \<Rightarrow> MeshConnection \<Rightarrow> bytes \<Rightarrow> ('m, 'h, 't, unit) cstep" where
  "handle_decrypted_payload ev src c decrypted =
     (case decode_single (ce_codec ev) decrypted of
        Inl x \<Rightarrow> s_fail
      | Inr m \<Rightarrow>
          (case mesh_handle_decoded m c of
             (c', intercepted) \<Rightarrow>
               s_then (put_peer src (MeshPeer c'))
                 (if \<not> intercepted \<and> mc_on_message c' then s_act (CPeerMessage src m) else s_ret ())))"

text \<open>
  The sends of a mesh connection, as steps of the client that owns it: an encoded frame is encrypted,
  wrapped by the peer's own encoder, handed to the next hop, and counted only then.
\<close>

definition peer_step ::
  "string \<Rightarrow> (MeshConnection \<Rightarrow> MeshConnection \<times> 'a option) \<Rightarrow> ('m, 'h, 't, 'a) cstep" where
  "peer_step node f s =
     (case map_of (cl_peer_clients s) node of
        Some (MeshPeer c) \<Rightarrow>
          (case f c of (c', r) \<Rightarrow>
             (s\<lparr>cl_peer_clients := AList.update node (MeshPeer c') (cl_peer_clients s)\<rparr>, [], r))
      | _ \<Rightarrow> (s, [], None))"

definition peer_encoded ::
  "string \<Rightarrow> (ProtocolEncoder \<Rightarrow> (encode_error + 'a) \<times> ProtocolEncoder) \<Rightarrow> ('m, 'h, 't, 'a) cstep" where
  "peer_encoded node f = peer_step node
     (\<lambda>c. case f (mc_encoder c) of (r, e) \<Rightarrow>
        (c\<lparr>mc_encoder := e\<rparr>, case r of Inl x \<Rightarrow> None | Inr v \<Rightarrow> Some v))"

definition mesh_count_sent :: "bytes \<Rightarrow> MeshConnection \<Rightarrow> MeshConnection" where
  "mesh_count_sent bs c = c\<lparr>mc_stats := (mc_stats c)
     \<lparr>cs_bytes_sent := cs_bytes_sent (mc_stats c) + length bs,
      cs_messages_sent := cs_messages_sent (mc_stats c) + 1\<rparr>\<rparr>"

definition mesh_send_encrypted ::
  "('m, 'h, 't) client_env \<Rightarrow> string \<Rightarrow> bytes \<Rightarrow> time \<Rightarrow> ('m, 'h, 't, unit) cstep" where
  "mesh_send_encrypted ev node payload now =
     s_bind (peer_step node (\<lambda>c. (c, Some (mc_tunnel c))))
       (\<lambda>a. s_bind (with_tunnel a (\<lambda>t. ce_write ev t payload))
         (\<lambda>encrypted. s_bind (s_opt (ser_MessagePayload (ce_codec ev) \<lparr>mp_type = ''mesh_secure'', mp_data = encrypted\<rparr>))
           (\<lambda>inner. s_bind (s_get (\<lambda>s. cc_name (cl_config s)))
             (\<lambda>name. s_bind (peer_encoded node
                        (\<lambda>e. encode (ce_codec ev) e MESSAGE inner None 0 (Some name) (Some node) True now))
               (\<lambda>packet. s_then (send_mesh_raw ev node packet)
                  (peer_step node (\<lambda>c. (mesh_count_sent packet c, Some ()))))))))"

definition mesh_send_message where
  "mesh_send_message ev node t v now =
     s_bind (peer_encoded node (\<lambda>e. encode_message (ce_codec ev) e t v None now))
       (\<lambda>bs. mesh_send_encrypted ev node bs now)"

definition mesh_send_rpc_request where
  "mesh_send_rpc_request ev node meth ps now =
     s_bind (peer_encoded node (\<lambda>e. encode_rpc_request (ce_codec ev) e meth ps None now))
       (\<lambda>(bs, corr). s_then (peer_step node
            (\<lambda>c. (c\<lparr>mc_pending_rpcs := AList.update corr Waiting (mc_pending_rpcs c)\<rparr>, Some ())))
         (s_then (mesh_send_encrypted ev node bs now) (s_ret corr)))"

definition mesh_send_rpc_response where
  "mesh_send_rpc_response ev node result corr now =
     s_bind (peer_encoded node (\<lambda>e. encode_rpc_response (ce_codec ev) e result corr True now))
       (\<lambda>bs. mesh_send_encrypted ev node bs now)"

definition mesh_send_rpc_error where
  "mesh_send_rpc_error ev node msg corr code now =
     s_bind (peer_encoded node (\<lambda>e. encode_rpc_error (ce_codec ev) e msg corr code now))
       (\<lambda>bs. mesh_send_encrypted ev node bs now)"

text \<open>\<open>MeshFallbackClient.send_binary_stream\<close>: a message of its own, sent in a task.\<close>

definition mesh_send_binary_stream where
  "mesh_send_binary_stream ev node stream_name dat now =
     mesh_send_message ev node ''mesh_stream_data''
       (PDict [(''stream_name'', PStr stream_name), (''data'', PBytes dat)]) now"

definition mesh_wait_start :: "int \<Rightarrow> MeshConnection \<Rightarrow> future option" where
  "mesh_wait_start corr c = map_of (mc_pending_rpcs c) corr"
definition mesh_wait_end :: "int \<Rightarrow> MeshConnection \<Rightarrow> MeshConnection" where
  "mesh_wait_end corr c = c\<lparr>mc_pending_rpcs := AList.delete corr (mc_pending_rpcs c)\<rparr>"

text \<open>\<open>stop\<close>: the handler to run, taken out before it runs.\<close>

definition mesh_stop :: "MeshConnection \<Rightarrow> MeshConnection \<times> string option" where
  "mesh_stop c = (c\<lparr>mc_on_disconnect := None\<rparr>, mc_on_disconnect c)"

section \<open>Messages\<close>

text \<open>The first waiting P2P server whose tuple names the peer.\<close>

definition pending_p2p :: "string \<Rightarrow> ('m, 'h, 't) Client \<Rightarrow> (string \<times> p2p_item list) option" where
  "pending_p2p src s =
     find (\<lambda>(k, info). 3 \<le> length info \<and> info ! 2 = PeerSource (PStr src)) (cl_p2p_servers s)"

text \<open>
  The end of a handshake takes over a P2P request of the same peer: its server is stopped, its
  future cancelled, and a mesh client becomes the peer.
\<close>

definition p2p_fallback :: "string \<Rightarrow> nat \<Rightarrow> time \<Rightarrow> ('m, 'h, 't, unit) cstep" where
  "p2p_fallback src a now s =
     (case pending_p2p src s of
        None \<Rightarrow> (s, [], Some ())
      | Some (req, info) \<Rightarrow>
          if req = [] then (s, [], Some ())
          else
            (s\<lparr>cl_p2p_servers := AList.delete req (cl_p2p_servers s),
               cl_peer_clients := AList.update src (new_mesh_fallback_client src a now) (cl_peer_clients s)\<rparr>,
             (case info ! 0 of LocalServer n p \<Rightarrow> [CStopServer n] | _ \<Rightarrow> [])
             @ (if info ! 1 = ConnFuture False then [CCancelFuture req] else [])
             @ (if cl_on_p2p_established s then [CEstablished src] else []), Some ()))"

definition c_mesh_handshake ::
  "('m, 'h, 't) client_env \<Rightarrow> DecodedMessage \<Rightarrow> time \<Rightarrow> ('m, 'h, 't, unit) cstep" where
  "c_mesh_handshake ev m now =
     (let src = dm_route_src m
      in s_bind (s_bind (s_get (tunnel_at src))
                  (\<lambda>a. case a of Some a \<Rightarrow> s_ret a | None \<Rightarrow> put_new_tunnel src (ce_new_tunnel ev True)))
        (\<lambda>a. s_bind (s_opt (tunnel_bytes (get_data m)))
          (\<lambda>b. s_then (with_tunnel a (\<lambda>t. ce_feed ev t b))
            (s_bind (with_tunnel a (\<lambda>t. ce_handshake ev t))
              (\<lambda>out. s_then
                 (if out \<noteq> [] then
                    s_bind (c_mesh_packet ev ''mesh_handshake'' out src now) (send_mesh_raw ev src)
                  else s_ret ())
                 (s_bind (s_get (\<lambda>s. ce_handshake_done ev (cl_tunnels s ! a)))
                   (\<lambda>complete. if complete then p2p_fallback src a now else s_ret ())))))))"

definition c_route_message ::
  "('m, 'h, 't) client_env \<Rightarrow> pyval \<Rightarrow> pyval \<Rightarrow> ('m, 'h, 't, pyval) cstep" where
  "c_route_message ev t v s =
     (case (case t of
              PStr name \<Rightarrow> route (\<lambda>h. ce_msg ev h v) (cl_router s) name True
            | _ \<Rightarrow> route (\<lambda>h. ce_msg ev h v) ((cl_router s)\<lparr>mr_handlers := []\<rparr>) [] True) of
        (evs, Returned r) \<Rightarrow> (s, [CRouted evs], Some r)
      | (evs, _) \<Rightarrow> (s, [CRouted evs], None))"

text \<open>Decrypted bytes go to the mesh client of their sender, or to the client's own handlers.\<close>

definition c_mesh_decrypted ::
  "('m, 'h, 't) client_env \<Rightarrow> string \<Rightarrow> bytes \<Rightarrow> ('m, 'h, 't, unit) cstep" where
  "c_mesh_decrypted ev src decrypted =
     s_bind (s_get (\<lambda>s. map_of (cl_peer_clients s) src))
       (\<lambda>p. case p of
          Some (MeshPeer c) \<Rightarrow> handle_decrypted_payload ev src c decrypted
        | _ \<Rightarrow>
            (case decode_single (ce_codec ev) decrypted of
               Inl x \<Rightarrow> s_fail
             | Inr inner \<Rightarrow>
                 s_then (c_route_message ev (get_message_type_str inner) (get_data inner)) (s_ret ())))"

definition c_mesh_secure ::
  "('m, 'h, 't) client_env \<Rightarrow> DecodedMessage \<Rightarrow> ('m, 'h, 't, unit) cstep" where
  "c_mesh_secure ev m =
     s_bind (s_get (tunnel_at (dm_route_src m)))
       (\<lambda>a. case a of
          None \<Rightarrow> s_ret ()
        | Some a \<Rightarrow>
            s_bind (s_opt (tunnel_bytes (get_data m)))
              (\<lambda>b. s_bind (with_tunnel a (\<lambda>t. ce_feed ev t b)) (c_mesh_decrypted ev (dm_route_src m))))"

definition c_send_dispatched ::
  "('m, 'h, 't) client_env \<Rightarrow> int \<Rightarrow> (string, pyval) dict \<Rightarrow> time \<Rightarrow> ('m, 'h, 't, unit) cstep" where
  "c_send_dispatched ev corr response now =
     (if truthy (dict_get_default response ''success'' (PBool False)) then
        c_conn_send (send_rpc_response (ce_codec ev) (ce_deliver ev)
          (if dict_has response ''result'' then dict_get response ''result''
           else dict_get response ''data'') corr now)
      else
        (case (proto_text (dict_get_default response ''error'' (PStr ''Unknown RPC error'')),
               error_code_value (dict_get response ''code'')) of
           (Some msg, Some code) \<Rightarrow>
             c_conn_send (send_rpc_error (ce_codec ev) (ce_deliver ev) msg corr (Some code) now)
         | _ \<Rightarrow> s_fail))"

definition c_rpc_request ::
  "('m, 'h, 't) client_env \<Rightarrow> DecodedMessage \<Rightarrow> time \<Rightarrow> ('m, 'h, 't, unit) cstep" where
  "c_rpc_request ev m now =
     (case get_rpc_method m of
        PStr meth \<Rightarrow>
          s_then (s_act (CDispatched meth))
            (s_bind (s_bind (s_get (\<lambda>s. dispatch (ce_rpc ev) (cl_registry s) meth (get_rpc_params m) True)) s_opt)
              (\<lambda>response. c_send_dispatched ev (dm_correlation_id m) response now))
      | _ \<Rightarrow> s_fail)"

text \<open>\<open>dict(v)\<close> on a value of a decoded message.\<close>

definition as_dict :: "pyval \<Rightarrow> (string, pyval) dict option" where
  "as_dict v = (case v of PDict d \<Rightarrow> Some d | PList [] \<Rightarrow> Some [] | PStr [] \<Rightarrow> Some [] | PBytes [] \<Rightarrow> Some [] | _ \<Rightarrow> None)"

definition set_auth :: "bool \<Rightarrow> ('m, 'h, 't) Client \<Rightarrow> ('m, 'h, 't) Client" where
  "set_auth b s =
     (if cl_auth_future s = Some AuthPending then s\<lparr>cl_auth_future := Some (AuthResult b)\<rparr> else s)"

definition c_auth_success :: "DecodedMessage \<Rightarrow> ('m, 'h, 't, unit) cstep" where
  "c_auth_success m =
     (case dm_payload m of
        PDict d \<Rightarrow>
          s_then (s_put (\<lambda>s. s\<lparr>cl_session_token := dict_get d ''session_token'',
                               cl_cached_session_token := dict_get d ''session_token''\<rparr>))
            (s_bind (s_opt (as_dict (dict_get_default d ''server_info'' (PDict []))))
              (\<lambda>info. s_put (\<lambda>s. set_auth True (s\<lparr>cl_server_info := info,
                 cl_connection := map_option (set_session (dict_get d ''session_token'')) (cl_connection s)\<rparr>))))
      | _ \<Rightarrow> s_fail)"

definition c_auth_failure :: "('m, 'h, 't, unit) cstep" where
  "c_auth_failure = s_put (\<lambda>s. set_auth False (s\<lparr>cl_cached_session_token := PNone\<rparr>))"

definition c_intercept :: "DecodedMessage \<Rightarrow> ('m, 'h, 't, bool) cstep" where
  "c_intercept m s =
     (case cl_connection s of
        None \<Rightarrow> (s, [], Some False)
      | Some c \<Rightarrow>
          (case handle_decoded_message m c of (c', b) \<Rightarrow> (s\<lparr>cl_connection := Some c'\<rparr>, [], Some b)))"

text \<open>The futures of the client itself, which nothing in the code adds to.\<close>

definition resolve_own :: "DecodedMessage \<Rightarrow> ('m, 'h, 't) Client \<Rightarrow> ('m, 'h, 't) Client" where
  "resolve_own m s =
     (if map_of (cl_pending_rpcs s) (dm_correlation_id m) = Some Waiting
      then s\<lparr>cl_pending_rpcs := AList.update (dm_correlation_id m) (Resolved (dm_payload m)) (cl_pending_rpcs s)\<rparr>
      else s)"

definition process_direct ::
  "('m, 'h, 't) client_env \<Rightarrow> DecodedMessage \<Rightarrow> time \<Rightarrow> ('m, 'h, 't, unit) cstep" where
  "process_direct ev m now =
     (if dm_message_type m = AUTH_SUCCESS then c_auth_success m
      else if dm_message_type m = AUTH_FAILURE then c_auth_failure
      else if dm_message_type m = RPC_REQUEST then c_rpc_request ev m now
      else
        s_bind (c_intercept m)
          (\<lambda>intercepted.
             if intercepted then s_ret ()
             else if dm_message_type m \<in> {RPC_RESPONSE, RPC_ERROR} then s_put (resolve_own m)
             else if dm_message_type m = MESSAGE then
               s_then (c_route_message ev (get_message_type_str m) (get_data m)) (s_ret ())
             else s_ret ()))"

definition client_process_message ::
  "('m, 'h, 't) client_env \<Rightarrow> DecodedMessage \<Rightarrow> time \<Rightarrow> ('m, 'h, 't, unit) cstep" where
  "client_process_message ev m now =
     s_bind (s_get (\<lambda>s. cc_name (cl_config s)))
       (\<lambda>name. if dm_is_mesh m \<and> dm_route_dst m = name \<and> get_message_type_str m = PStr ''mesh_handshake''
          then c_mesh_handshake ev m now
          else if dm_is_mesh m \<and> dm_route_dst m = name \<and> get_message_type_str m = PStr ''mesh_secure''
          then c_mesh_secure ev m
          else process_direct ev m now)"

text \<open>A stream's handler may raise: that is only logged.\<close>

definition client_binary_stream :: "bytes \<Rightarrow> ('m, 'h, 't, unit) cstep" where
  "client_binary_stream payload =
     (if length payload < 4 then s_ret ()
      else
        (let n = from_be (take 4 payload)
         in if length payload < 4 + n then s_ret ()
            else s_bind (s_opt (utf8_decode (take n (drop 4 payload))))
              (\<lambda>stream_name. s_bind (s_get cl_binary_handler)
                (\<lambda>h. if h then s_act (CBinary stream_name (drop (4 + n) payload)) else s_ret ()))))"

text \<open>
  \<open>on_connection_message\<close> of a mesh client, a step of that client: stream data for its stream handler
  (whose exceptions end the task), everything else as any message.
\<close>

definition fallback_on_message ::
  "('m, 'h, 't) client_env \<Rightarrow> DecodedMessage \<Rightarrow> time \<Rightarrow> ('m, 'h, 't, unit) cstep" where
  "fallback_on_message ev m now =
     (if get_message_type_str m = PStr ''mesh_stream_data'' then
        (case get_data m of
           PDict d \<Rightarrow>
             s_bind (s_get cl_binary_handler)
               (\<lambda>h. if h then s_act (CStream (dict_get d ''stream_name'') (dict_get d ''data'')) else s_ret ())
         | _ \<Rightarrow> s_fail)
      else client_process_message ev m now)"

section \<open>The events of the transport\<close>

datatype link_event = LinkMessage bytes | LinkBinary bytes | LinkDown

definition client_event ::
  "('m, 'h, 't) client_env \<Rightarrow> link_event \<Rightarrow> time \<Rightarrow> ('m, 'h, 't, unit) cstep" where
  "client_event ev q now =
     (case q of
        LinkMessage payload \<Rightarrow>
          (case decode_single (ce_codec ev) payload of
             Inl x \<Rightarrow> s_ret ()
           | Inr m \<Rightarrow>
               s_bind (s_get (\<lambda>s. cc_name (cl_config s)))
                 (\<lambda>name. if dm_is_mesh m \<and> dm_route_dst m \<noteq> name
                    then route_mesh_message ev (dm_route_dst m) payload
                    else client_process_message ev m now))
      | LinkBinary payload \<Rightarrow> client_binary_stream payload
      | LinkDown \<Rightarrow> handle_disconnect)"

text \<open>Events one after the other, each in a task of its own.\<close>

fun client_events ::
  "('m, 'h, 't) client_env \<Rightarrow> (link_event \<times> time) list \<Rightarrow> ('m, 'h, 't) Client
     \<Rightarrow> ('m, 'h, 't) Client \<times> 'm client_action list" where
  "client_events ev [] s = (s, [])"
| "client_events ev ((q, now) # qs) s =
     (case client_event ev q now s of
        (s1, a1, r) \<Rightarrow> (case client_events ev qs s1 of (s2, a2) \<Rightarrow> (s2, a1 @ a2)))"

section \<open>Reconnecting\<close>

text \<open>
  One attempt of the loop: what happens while it sleeps, what the transport answers, what happens
  while the client waits for the server's answer, and the end of \<open>_do_connect\<close>.  \<open>None\<close> for the scene: the loop's task is cancelled
  while it sleeps.
\<close>

record scene =
  sc_before :: "(link_event \<times> time) list"
  sc_link :: "bool option"
  sc_uid :: string
  sc_now :: time
  sc_events :: "(link_event \<times> time) list"

datatype attempt_result = Up | Down | LoopCancelled

definition connect_attempt ::
  "('m, 'h, 't) client_env \<Rightarrow> scene option \<Rightarrow> ('m, 'h, 't) Client
     \<Rightarrow> ('m, 'h, 't) Client \<times> 'm client_action list \<times> attempt_result" where
  "connect_attempt ev scene s =
     (case scene of
        None \<Rightarrow> (s, [], LoopCancelled)
      | Some sc \<Rightarrow>
          (case client_events ev (sc_before sc) s of
             (s0, a0) \<Rightarrow>
               (case do_connect_start ev (sc_link sc) (sc_uid sc) (sc_now sc) s0 of
                  (s1, a1, r) \<Rightarrow>
                    if r \<noteq> Some True then (s1, a0 @ a1, Down)
                    else
                      (case client_events ev (sc_events sc) s1 of
                         (s2, a2) \<Rightarrow>
                           (case do_connect_finish s2 of
                              (s3, a3, ok) \<Rightarrow>
                                (s3, a0 @ a1 @ a2 @ a3, if ok = Some True then Up else Down))))))"

text \<open>
  The loop.  It may run for ever (\<open>max_attempts\<close> 0 means no limit), which is the value None; \<open>att\<close> is
  the \<open>k\<close>-th attempt of the run.
\<close>

definition may_retry :: "('m, 'h, 't) Client \<Rightarrow> bool" where
  "may_retry s = (cl_should_reconnect s
     \<and> \<not> (0 < cc_reconnect_attempts (cl_config s)
           \<and> cc_reconnect_attempts (cl_config s) \<le> int (cl_reconnect_tries s)))"

definition next_delay :: "ClientConfig \<Rightarrow> time \<Rightarrow> time" where
  "next_delay cf d = min (d * cc_reconnect_delay_multiplier cf) (cc_reconnect_delay_max cf)"

definition count_attempt :: "('m, 'h, 't) Client \<Rightarrow> ('m, 'h, 't) Client" where
  "count_attempt s = s\<lparr>cl_reconnect_tries := cl_reconnect_tries s + 1\<rparr>"

partial_function (option) reconnect_from ::
  "(nat \<Rightarrow> ('m, 'h, 't) Client \<Rightarrow> ('m, 'h, 't) Client \<times> 'm client_action list \<times> attempt_result)
     \<Rightarrow> time \<Rightarrow> nat \<Rightarrow> ('m, 'h, 't) Client \<Rightarrow> (('m, 'h, 't) Client \<times> 'm client_action list) option" where
  "reconnect_from att delay k s =
     (if \<not> may_retry s then Some (s, [])
      else
        (case att k (count_attempt s) of
           (s1, acts, Up) \<Rightarrow> Some (s1, CSleep delay # acts @ [CHooks ReconnectHook])
         | (s1, acts, LoopCancelled) \<Rightarrow> Some (s1, CSleep delay # acts)
         | (s1, acts, Down) \<Rightarrow>
             Option.bind (reconnect_from att (next_delay (cl_config s1) delay) (Suc k) s1)
               (\<lambda>(s2, rest). Some (s2, CSleep delay # acts @ rest))))"

text \<open>The task ends with the loop.\<close>

definition reconnect_loop where
  "reconnect_loop att s =
     map_option (\<lambda>(s1, acts). (s1\<lparr>cl_reconnect_task := Some TaskDone\<rparr>, acts))
       (reconnect_from att (cc_reconnect_delay (cl_config s)) 0 s)"

section \<open>Mesh tunnels\<close>

text \<open>\<open>establish_mesh_tunnel\<close> up to its wait, and the wait: \<open>up i\<close> is the flag at the \<open>i\<close>-th poll.\<close>

definition mesh_tunnel_start ::
  "('m, 'h, 't) client_env \<Rightarrow> string \<Rightarrow> time \<Rightarrow> ('m, 'h, 't, unit) cstep" where
  "mesh_tunnel_start ev target now =
     s_bind (put_new_tunnel target (ce_new_tunnel ev False))
       (\<lambda>a. s_bind (with_tunnel a (\<lambda>t. ce_handshake ev t))
         (\<lambda>out. if out \<noteq> [] then
              s_bind (c_mesh_packet ev ''mesh_handshake'' out target now) (send_mesh_raw ev target)
            else s_ret ()))"

definition mesh_tunnel_wait :: "(nat \<Rightarrow> bool) \<Rightarrow> nat option" where
  "mesh_tunnel_wait up = find up [0..<50]"

definition tunnel_ready :: "('m, 'h, 't) client_env \<Rightarrow> string \<Rightarrow> ('m, 'h, 't) Client \<Rightarrow> bool" where
  "tunnel_ready ev node s =
     (case tunnel_at node s of None \<Rightarrow> False | Some a \<Rightarrow> ce_handshake_done ev (cl_tunnels s ! a))"

text \<open>\<open>send_mesh_secure_message\<close> once the tunnel is there; without one it is a RuntimeError.\<close>

definition mesh_secure_send ::
  "('m, 'h, 't) client_env \<Rightarrow> string \<Rightarrow> string \<Rightarrow> pyval \<Rightarrow> time \<Rightarrow> ('m, 'h, 't, unit) cstep" where
  "mesh_secure_send ev target t v now =
     s_bind (s_get (\<lambda>s. (tunnel_ready ev target s, tunnel_at target s)))
       (\<lambda>(ready, a). case a of
          Some a \<Rightarrow>
            if \<not> ready then s_fail
            else s_bind (c_encoded (\<lambda>e. encode_message (ce_codec ev) e t v None now))
              (\<lambda>inner. s_bind (with_tunnel a (\<lambda>t. ce_write ev t inner))
                (\<lambda>encrypted. s_bind (c_mesh_packet ev ''mesh_secure'' encrypted target now) (send_mesh_raw ev target)))
        | None \<Rightarrow> s_fail)"

section \<open>Peer-to-peer handlers\<close>

text \<open>\<open>establish_p2p\<close>: the request and its future, and the end of every way out of it.\<close>

definition p2p_begin ::
  "('m, 'h, 't) client_env \<Rightarrow> string \<Rightarrow> string \<Rightarrow> time \<Rightarrow> ('m, 'h, 't, unit) cstep" where
  "p2p_begin ev target req now =
     s_bind (s_get client_is_connected)
       (\<lambda>up. if \<not> up then s_fail
          else s_then (s_put (\<lambda>s. s\<lparr>cl_p2p_futures := AList.update req Waiting (cl_p2p_futures s)\<rparr>))
            (client_send ev ''p2p_request''
               (PDict [(''target_id'', PStr target), (''request_id'', PStr req)]) now))"

definition p2p_end :: "string \<Rightarrow> ('m, 'h, 't, unit) cstep" where
  "p2p_end req = s_put (\<lambda>s. s\<lparr>cl_p2p_futures := AList.delete req (cl_p2p_futures s)\<rparr>)"

definition p2p_request_response :: "(string, pyval) dict \<Rightarrow> ('m, 'h, 't, unit) cstep" where
  "p2p_request_response d =
     s_put (\<lambda>s. case dict_get d ''request_id'' of
        PStr req \<Rightarrow>
          if map_of (cl_p2p_futures s) req = Some Waiting
          then s\<lparr>cl_p2p_futures := AList.update req (Resolved (PDict d)) (cl_p2p_futures s)\<rparr> else s
      | _ \<Rightarrow> s)"

definition host_is_local :: "('m, 'h, 't) client_env \<Rightarrow> string \<Rightarrow> bool" where
  "host_is_local ev h = (is_loopback h \<or> ce_private_ip ev h)"

text \<open>The address told to the other side: the mapped one, or the local one.\<close>

definition public_address ::
  "('m, 'h, 't) client_env \<Rightarrow> ClientConfig \<Rightarrow> string option \<Rightarrow> string \<Rightarrow> int \<Rightarrow> string" where
  "public_address ev cf mapped local_ip port =
     (let found = (if \<not> host_is_local ev (cc_server_host cf) \<and> cc_stun_server cf \<noteq> []
                   then (case mapped of None \<Rightarrow> [] | Some a \<Rightarrow> a) else [])
      in if found \<noteq> [] then found
         else if is_loopback (cc_server_host cf) then address ''127.0.0.1'' port
         else address local_ip port)"

definition p2p_reject ::
  "('m, 'h, 't) client_env \<Rightarrow> pyval \<Rightarrow> string \<Rightarrow> time \<Rightarrow> ('m, 'h, 't, unit) cstep" where
  "p2p_reject ev req reason now =
     client_send ev ''p2p_accept''
       (PDict [(''request_id'', req), (''accepted'', PBool False), (''reason'', PStr reason)]) now"

text \<open>\<open>try m except: h\<close> for steps without a value.\<close>

definition or_else :: "('m, 'h, 't, unit) cstep \<Rightarrow> ('m, 'h, 't, unit) cstep \<Rightarrow> ('m, 'h, 't, unit) cstep" where
  "or_else m h s =
     (case m s of
        (s1, a1, Some u) \<Rightarrow> (s1, a1, Some u)
      | (s1, a1, None) \<Rightarrow> (case h s1 of (s2, a2, r) \<Rightarrow> (s2, a1 @ a2, r)))"

text \<open>
  \<open>handle_p2p_incoming\<close>: \<open>accepted\<close> is the decision of the user's handler (True without one, False
  when it raises), \<open>port\<close> a free port, \<open>mapped\<close> what STUN says, \<open>problem\<close> the text of an exception.
\<close>

definition p2p_incoming ::
  "('m, 'h, 't) client_env \<Rightarrow> bool \<Rightarrow> int \<Rightarrow> string option \<Rightarrow> string \<Rightarrow> string \<Rightarrow> (string, pyval) dict \<Rightarrow> time
     \<Rightarrow> ('m, 'h, 't, unit) cstep" where
  "p2p_incoming ev accepted port mapped local_ip problem d now =
     (let req = dict_get d ''request_id''
      in if \<not> accepted then p2p_reject ev req ''Connection request rejected by peer'' now
         else or_else
           (s_bind (s_get cl_config)
             (\<lambda>cf. case req of
                PStr r \<Rightarrow>
                  s_then (s_put (\<lambda>s. s\<lparr>cl_p2p_servers := AList.update r
                            [LocalServer (cc_name cf @ ''_p2p_'' @ take 8 r) port, ConnFuture False,
                             PeerSource (dict_get d ''source_id'')] (cl_p2p_servers s)\<rparr>))
                    (client_send ev ''p2p_accept''
                       (PDict [(''request_id'', req), (''accepted'', PBool True),
                               (''public_addr'', PStr (public_address ev cf mapped local_ip port)),
                               (''lan_addr'', PStr (address local_ip port))]) now)
              | _ \<Rightarrow> s_fail))
           (p2p_reject ev req problem now))"

text \<open>The peer's connection arrives at the local server: its future is resolved once.\<close>

definition p2p_connected :: "string \<Rightarrow> ('m, 'h, 't, unit) cstep" where
  "p2p_connected req = s_put (\<lambda>s. case map_of (cl_p2p_servers s) req of
      Some [srv, ConnFuture False, src] \<Rightarrow>
        s\<lparr>cl_p2p_servers := AList.update req [srv, ConnFuture True, src] (cl_p2p_servers s)\<rparr>
    | _ \<Rightarrow> s)"

text \<open>\<open>handle_p2p_punch_cmd\<close>: punches towards the addresses of the source, then starts the server.\<close>

definition host_part :: "string \<Rightarrow> string" where
  "host_part a = takeWhile (\<lambda>c. c \<noteq> CHR '':'') a"

definition p2p_punch_cmd :: "('m, 'h, 't) client_env \<Rightarrow> (string, pyval) dict \<Rightarrow> ('m, 'h, 't, unit) cstep" where
  "p2p_punch_cmd ev d =
     s_bind (s_get (\<lambda>s. (cl_config s, case dict_get d ''request_id'' of
                           PStr r \<Rightarrow> map_of (cl_p2p_servers s) r | _ \<Rightarrow> None)))
       (\<lambda>(cf, info). case info of
          Some (LocalServer n port # rest) \<Rightarrow>
            (case dict_get d ''source_addr'' of
               PStr addr \<Rightarrow>
                 (let stun = (if host_is_local ev (cc_server_host cf) \<or> host_is_local ev (host_part addr)
                              then [] else cc_stun_server cf)
                  in s_then (s_act (CPunch stun port addr))
                    (s_then (case dict_get d ''lan_addr'' of
                               PStr lan \<Rightarrow> if lan \<noteq> [] then s_act (CPunch stun port lan) else s_ret ()
                             | _ \<Rightarrow> s_ret ())
                       (s_act (CStartServer n))))
             | _ \<Rightarrow> s_fail)
        | _ \<Rightarrow> s_ret ())"

end
