(* ===== verification/ClientProofs.thy ===== *)
theory ClientProofs
  imports Client ServerProofs
begin

text \<open>
  What holds of the client of \<open>src/conduit/client.py\<close>: when its reconnection loop ends and how long it
  waits, what a failed connection leaves behind, and how packets travel between it and the server.
\<close>

section \<open>Steps that neither sleep nor touch the reconnection counter\<close>

definition retry_key :: "('m, 'h, 't) Client \<Rightarrow> ClientConfig \<times> nat" where
  "retry_key s = (cl_config s, cl_reconnect_tries s)"

definition no_sleep :: "'m client_action \<Rightarrow> bool" where
  "no_sleep x = (case x of CSleep d \<Rightarrow> False | _ \<Rightarrow> True)"

definition calm :: "('m, 'h, 't, 'a) cstep \<Rightarrow> bool" where
  "calm m = (frame_on retry_key m \<and> does_only no_sleep m)"

lemma calm_bind: "calm m \<Longrightarrow> (\<And>v. calm (f v)) \<Longrightarrow> calm (s_bind m f)"
  by (simp add: calm_def frame_bind does_bind)

lemma calm_then: "calm m \<Longrightarrow> calm n \<Longrightarrow> calm (s_then m n)"
  by (simp add: calm_def frame_then does_then)

lemma calm_basic: "calm (s_ret v)" "calm s_fail" "calm (s_get g)" "calm (s_opt r)"
  by (simp_all add: calm_def frame_basic does_basic)

lemma calm_put: "(\<And>s. retry_key (f s) = retry_key s) \<Longrightarrow> calm (s_put f)"
  by (simp add: calm_def frame_put does_basic)

lemma calm_act: "no_sleep x \<Longrightarrow> calm (s_act x)"
  by (simp add: calm_def frame_basic does_act)

lemma calm_catch: "calm m \<Longrightarrow> calm (catch_with d m)"
  by (simp add: calm_def frame_catch_with does_catch_with)

lemma calm_sends:
  "calm (c_rust_send ev bs)" "calm (c_encoded e)" "calm (c_conn_send g)" "calm (peer_step node h)"
  "calm (with_tunnel a k)" "calm (put_new_tunnel node tun)" "calm (put_peer node p)"
  "calm (c_intercept m)" "calm (c_route_message ev t v)" "calm (p2p_fallback node a now)"
  by (auto simp: calm_def frame_on_def does_only_def c_rust_send_def c_encoded_def c_conn_send_def
      peer_step_def with_tunnel_def put_new_tunnel_def put_peer_def s_put_def c_intercept_def
      c_route_message_def p2p_fallback_def retry_key_def no_sleep_def
      split: sum.splits option.splits prod.splits peer.splits pyval.splits outcome.splits
        p2p_item.splits if_splits)

lemmas calm_rules = calm_bind calm_then calm_basic calm_catch calm_sends

lemma calm_mesh_send: "calm (send_mesh_raw ev target packet)" "calm (c_mesh_packet ev t payload dst now)"
  "calm (route_mesh_message ev dst raw)"
  by (auto simp: send_mesh_raw_def c_mesh_packet_def route_mesh_message_def no_sleep_def
      intro!: calm_rules calm_act split: option.split prod.split)

lemma calm_handshake: "calm (c_mesh_handshake ev m now)"
  unfolding c_mesh_handshake_def Let_def
  by (auto intro!: calm_rules calm_mesh_send split: option.split)

lemma calm_secure: "calm (c_mesh_secure ev m)"
  unfolding c_mesh_secure_def c_mesh_decrypted_def handle_decrypted_payload_def
  by (auto intro!: calm_rules calm_act simp: no_sleep_def split: option.split peer.split sum.split prod.split)

lemma calm_dispatched: "calm (c_send_dispatched ev corr response now)"
  unfolding c_send_dispatched_def by (auto intro!: calm_rules split: pyval.split option.split)

lemma calm_auth: "calm (c_auth_success m)" "calm c_auth_failure"
  by (auto simp: c_auth_success_def c_auth_failure_def set_auth_def retry_key_def
      intro!: calm_rules calm_put split: pyval.split)

lemma calm_process: "calm (client_process_message ev m now)"
proof -
  have "calm (c_rpc_request ev m now)"
    unfolding c_rpc_request_def
    by (auto intro!: calm_rules calm_act calm_dispatched simp: no_sleep_def split: pyval.split)
  then have "calm (process_direct ev m now)"
    unfolding process_direct_def
    by (auto intro!: calm_rules calm_auth calm_put simp: resolve_own_def retry_key_def)
  then show ?thesis
    unfolding client_process_message_def by (auto intro!: calm_rules calm_handshake calm_secure)
qed

lemma calm_disconnect: "calm handle_disconnect" "calm client_disconnect"
  by (auto simp: calm_def frame_on_def does_only_def handle_disconnect_def client_disconnect_def
      retry_key_def no_sleep_def stop_p2p_server_def cancel_future_def Let_def
      split: list.splits p2p_item.splits future.splits if_splits)

lemma calm_event: "calm (client_event ev q now)"
proof -
  have "calm (client_binary_stream payload)" for payload
    unfolding client_binary_stream_def Let_def by (auto intro!: calm_rules calm_act simp: no_sleep_def)
  then show ?thesis
    unfolding client_event_def
    by (auto intro!: calm_rules calm_mesh_send calm_process calm_disconnect split: link_event.split sum.split)
qed

lemma calm_connect_start: "calm (do_connect_start ev link uid now)"
  unfolding do_connect_start_def
  by (auto intro!: calm_rules calm_act calm_put simp: no_sleep_def retry_key_def split: option.split bool.split prod.split)

lemma calm_run:
  assumes "calm m" and "m s = (s', acts, r)"
  shows "retry_key s' = retry_key s \<and> (\<forall>x \<in> set acts. no_sleep x)"
  using assms unfolding calm_def frame_on_def does_only_def by (metis fst_conv snd_conv)

lemma calm_events:
  "client_events ev qs s = (s', acts) \<Longrightarrow> retry_key s' = retry_key s \<and> (\<forall>x \<in> set acts. no_sleep x)"
proof (induction qs arbitrary: s s' acts)
  case (Cons q qs)
  obtain e now where q: "q = (e, now)" by (cases q)
  obtain s1 a1 r where 1: "client_event ev e now s = (s1, a1, r)" by (cases "client_event ev e now s") auto
  obtain s2 a2 where 2: "client_events ev qs s1 = (s2, a2)" by (cases "client_events ev qs s1") auto
  from Cons.IH [OF 2] calm_run [OF calm_event 1] Cons.prems show ?case by (auto simp: q 1 2)
qed auto

section \<open>The reconnection loop\<close>

definition sleeps :: "'m client_action list \<Rightarrow> time list" where
  "sleeps acts = concat (map (\<lambda>x. case x of CSleep d \<Rightarrow> [d] | _ \<Rightarrow> []) acts)"

lemma sleeps_simps [simp]:
  "sleeps [] = []" "sleeps (CSleep d # acts) = d # sleeps acts" "sleeps (acts @ acts2) = sleeps acts @ sleeps acts2"
  "sleeps [CHooks h] = []"
  by (simp_all add: sleeps_def)

lemma sleeps_none: "\<forall>x \<in> set acts. no_sleep x \<Longrightarrow> sleeps acts = []"
  by (induction acts) (auto simp: sleeps_def no_sleep_def split: client_action.splits)

lemma connect_finish_calm:
  assumes "do_connect_finish s = (s', acts, r)"
  shows "cl_config s' = cl_config s \<and> (\<forall>x \<in> set acts. no_sleep x)
    \<and> (r \<noteq> Some True \<longrightarrow> retry_key s' = retry_key s)"
proof -
  obtain d a where d: "client_disconnect s = (d, a, Some ())" by (cases "client_disconnect s") (simp add: client_disconnect_def)
  with calm_run [OF calm_disconnect(2)] have "retry_key d = retry_key s" "\<forall>x \<in> set a. no_sleep x" by blast+
  with assms d show ?thesis
    by (auto simp: do_connect_finish_def catch_with_def s_defs retry_key_def no_sleep_def
        split: option.splits if_splits)
qed

text \<open>What the loop relies on: an attempt does not sleep, and only a successful one resets the counter.\<close>

definition attempts_ok where
  "attempts_ok att = (\<forall>k s s' acts r. att k s = (s', acts, r) \<longrightarrow>
     (\<forall>x \<in> set acts. no_sleep x) \<and> cl_config s' = cl_config s
     \<and> (r \<noteq> Up \<longrightarrow> cl_reconnect_tries s' = cl_reconnect_tries s))"

lemma connect_attempt_ok: "attempts_ok (\<lambda>k. connect_attempt ev (world k))"
  unfolding attempts_ok_def
proof (intro allI impI)
  fix k s s' acts r
  assume att: "connect_attempt ev (world k) s = (s', acts, r)"
  show "(\<forall>x \<in> set acts. no_sleep x) \<and> cl_config s' = cl_config s
     \<and> (r \<noteq> Up \<longrightarrow> cl_reconnect_tries s' = cl_reconnect_tries s)"
  proof (cases "world k")
    case None
    with att show ?thesis by (simp add: connect_attempt_def)
  next
    case (Some sc)
    obtain s0 a0 where 0: "client_events ev (sc_before sc) s = (s0, a0)" by fastforce
    obtain s1 a1 r1 where 1: "do_connect_start ev (sc_link sc) (sc_uid sc) (sc_now sc) s0 = (s1, a1, r1)"
      by (cases "do_connect_start ev (sc_link sc) (sc_uid sc) (sc_now sc) s0") auto
    obtain s2 a2 where 2: "client_events ev (sc_events sc) s1 = (s2, a2)" by fastforce
    obtain s3 a3 r3 where 3: "do_connect_finish s2 = (s3, a3, r3)" by (cases "do_connect_finish s2") auto
    from calm_events [OF 0] calm_run [OF calm_connect_start 1] calm_events [OF 2] connect_finish_calm [OF 3] att
    show ?thesis
      by (auto simp: connect_attempt_def Some 0 1 2 3 retry_key_def split: if_splits)
  qed
qed

lemma count_attempt_simps [simp]:
  "cl_reconnect_tries (count_attempt s) = cl_reconnect_tries s + 1" "cl_config (count_attempt s) = cl_config s"
  "cl_should_reconnect (count_attempt s) = cl_should_reconnect s"
  by (simp_all add: count_attempt_def)

lemma reconnect_from_ends:
  assumes ok: "attempts_ok att" and "0 < cc_reconnect_attempts (cl_config s)"
    and "n = nat (cc_reconnect_attempts (cl_config s)) - cl_reconnect_tries s"
  shows "\<exists>s' acts. reconnect_from att d k s = Some (s', acts) \<and> length (sleeps acts) \<le> n"
  using assms(2,3)
proof (induction n arbitrary: s d k)
  case 0
  then have "\<not> may_retry s" by (auto simp: may_retry_def)
  then show ?case by (subst reconnect_from.simps) simp
next
  case (Suc n)
  show ?case
  proof (cases "may_retry s")
    case False
    then show ?thesis by (subst reconnect_from.simps) simp
  next
    case True
    obtain s1 acts r where a: "att k (count_attempt s) = (s1, acts, r)" by (cases "att k (count_attempt s)") auto
    from ok a have quiet: "sleeps acts = []" "cl_config s1 = cl_config s"
      and tries: "r \<noteq> Up \<Longrightarrow> cl_reconnect_tries s1 = cl_reconnect_tries s + 1"
      unfolding attempts_ok_def by (fastforce intro: sleeps_none)+
    show ?thesis
    proof (cases "r = Down")
      case False
      with True a quiet show ?thesis
        by (subst reconnect_from.simps) (cases r; simp)
    next
      case Down: True
      with Suc.prems quiet tries have "n = nat (cc_reconnect_attempts (cl_config s1)) - cl_reconnect_tries s1"
        "0 < cc_reconnect_attempts (cl_config s1)" by auto
      from Suc.IH [OF this(2,1), of "next_delay (cl_config s1) d" "Suc k"] obtain s2 rest where
        "reconnect_from att (next_delay (cl_config s1) d) (Suc k) s1 = Some (s2, rest)" "length (sleeps rest) \<le> n"
        by blast
      with True a quiet Down show ?thesis by (subst reconnect_from.simps) simp
    qed
  qed
qed

lemma delays_unfold:
  "map (\<lambda>i. (f ^^ i) d) [0..<Suc n] = d # map (\<lambda>i. (f ^^ i) (f d)) [0..<n]"
  by (simp add: upt_conv_Cons map_Suc_upt [symmetric] comp_def funpow_swap1 del: upt_Suc map_Suc_upt)

lemma reconnect_from_delays:
  assumes "reconnect_from att d k s = Some y" and "attempts_ok att"
  shows "sleeps (snd y) = map (\<lambda>i. (next_delay (cl_config s) ^^ i) d) [0..<length (sleeps (snd y))]"
proof -
  have "attempts_ok att \<longrightarrow>
      sleeps (snd y) = map (\<lambda>i. (next_delay (cl_config s) ^^ i) d) [0..<length (sleeps (snd y))]"
  proof (rule reconnect_from.raw_induct [OF _ assms(1)])
    fix rec att d k s y
    assume IH: "\<And>att d k s y. rec att d k s = Some y \<Longrightarrow> attempts_ok att \<longrightarrow>
        sleeps (snd y) = map (\<lambda>i. (next_delay (cl_config s) ^^ i) d) [0..<length (sleeps (snd y))]"
      and step: "(if \<not> may_retry s then Some (s, [])
        else case att k (count_attempt s) of
             (s1, acts, Up) \<Rightarrow> Some (s1, CSleep d # acts @ [CHooks ReconnectHook])
           | (s1, acts, Down) \<Rightarrow>
               Option.bind (rec att (next_delay (cl_config s1) d) (Suc k) s1)
                 (\<lambda>(s2, rest). Some (s2, CSleep d # acts @ rest))
           | (s1, acts, LoopCancelled) \<Rightarrow> Some (s1, CSleep d # acts)) = Some y"
    show "attempts_ok att \<longrightarrow>
        sleeps (snd y) = map (\<lambda>i. (next_delay (cl_config s) ^^ i) d) [0..<length (sleeps (snd y))]"
    proof
      assume ok: "attempts_ok att"
      obtain s1 acts r where a: "att k (count_attempt s) = (s1, acts, r)" by (cases "att k (count_attempt s)") auto
      from ok a have quiet: "sleeps acts = []" "cl_config s1 = cl_config s"
        unfolding attempts_ok_def by (fastforce intro: sleeps_none)+
      show "sleeps (snd y) = map (\<lambda>i. (next_delay (cl_config s) ^^ i) d) [0..<length (sleeps (snd y))]"
      proof (cases "may_retry s \<and> r = Down")
        case False
        with step a quiet have "sleeps (snd y) = [] \<or> sleeps (snd y) = [d]"
          by (auto split: attempt_result.splits if_splits)
        then show ?thesis by auto
      next
        case True
        with step a quiet obtain s2 rest where
          go: "rec att (next_delay (cl_config s) d) (Suc k) s1 = Some (s2, rest)"
          and y: "y = (s2, CSleep d # acts @ rest)"
          by (auto simp: bind_eq_Some_conv)
        from IH [OF go] ok quiet have "sleeps rest =
            map (\<lambda>i. (next_delay (cl_config s) ^^ i) (next_delay (cl_config s) d)) [0..<length (sleeps rest)]"
          by simp
        then show ?thesis
          using delays_unfold [of "next_delay (cl_config s)" d "length (sleeps rest)"] y quiet
          by (simp del: upt_Suc)
      qed
    qed
  qed
  with assms(2) show ?thesis by blast
qed

lemma reconnect_from_stuck:
  assumes go: "\<And>k s. C s \<Longrightarrow> may_retry s \<and> (\<exists>s1 acts. att k (count_attempt s) = (s1, acts, Down) \<and> C s1)"
    and "C s"
  shows "reconnect_from att d k s = None"
proof (rule ccontr)
  assume "reconnect_from att d k s \<noteq> None"
  then obtain y where y: "reconnect_from att d k s = Some y" by auto
  have "att' = att \<longrightarrow> C s \<longrightarrow> False" if "reconnect_from att' d k s = Some y" for att' d k s y
  proof (rule reconnect_from.raw_induct [OF _ that])
    fix rec att' d k s y
    assume IH: "\<And>att' d k s y. rec att' d k s = Some y \<Longrightarrow> att' = att \<longrightarrow> C s \<longrightarrow> False"
      and step: "(if \<not> may_retry s then Some (s, [])
        else case att' k (count_attempt s) of
             (s1, acts, Up) \<Rightarrow> Some (s1, CSleep d # acts @ [CHooks ReconnectHook])
           | (s1, acts, Down) \<Rightarrow>
               Option.bind (rec att' (next_delay (cl_config s1) d) (Suc k) s1)
                 (\<lambda>(s2, rest). Some (s2, CSleep d # acts @ rest))
           | (s1, acts, LoopCancelled) \<Rightarrow> Some (s1, CSleep d # acts)) = Some y"
    show "att' = att \<longrightarrow> C s \<longrightarrow> False"
    proof (intro impI)
      assume att: "att' = att" and "C s"
      from go [OF this(2), of k] obtain s1 acts where "may_retry s" "att k (count_attempt s) = (s1, acts, Down)" "C s1"
        by blast
      with step att obtain z where "rec att (next_delay (cl_config s1) d) (Suc k) s1 = Some z"
        by (auto simp: bind_eq_Some_conv)
      with IH \<open>C s1\<close> show False by blast
    qed
  qed
  with y assms(2) show False by blast
qed

definition backoff :: "ClientConfig \<Rightarrow> nat \<Rightarrow> time" where
  "backoff cf k =
     (if k = 0 then cc_reconnect_delay cf
      else min (cc_reconnect_delay cf * cc_reconnect_delay_multiplier cf ^ k) (cc_reconnect_delay_max cf))"

lemma backoff_iterates:
  assumes "1 \<le> cc_reconnect_delay_multiplier cf" and "0 \<le> cc_reconnect_delay_max cf"
  shows "(next_delay cf ^^ k) (cc_reconnect_delay cf) = backoff cf k"
proof (induction k)
  case (Suc k)
  let ?m = "cc_reconnect_delay_multiplier cf" and ?M = "cc_reconnect_delay_max cf" and ?d = "cc_reconnect_delay cf"
  have M: "?M \<le> ?M * ?m" using assms by (metis mult.right_neutral mult_left_mono)
  have "(next_delay cf ^^ Suc k) ?d = min (backoff cf k * ?m) ?M"
    by (simp only: funpow.simps comp_apply Suc.IH) (simp only: next_delay_def)
  also have "\<dots> = backoff cf (Suc k)"
  proof (cases "k = 0")
    case False
    have "min (?d * ?m ^ k) ?M * ?m = min (?d * ?m ^ k * ?m) (?M * ?m)"
      using assms(1) by (simp add: min_def mult_right_mono)
    then show ?thesis using False M by (simp add: backoff_def mult_ac min_def)
  qed (simp add: backoff_def)
  finally show ?case .
qed (simp add: backoff_def)

text \<open>
  C10. The reconnection loop ends when the number of attempts is limited: whatever the transport and
  the server do, it sleeps at most as often as attempts are left, and leaves its task finished.  With
  no limit and nobody listening it runs for ever.
\<close>

theorem reconnect_terminates:
  assumes "0 < cc_reconnect_attempts (cl_config s)"
  shows "(\<exists>s' acts. reconnect_loop (\<lambda>k. connect_attempt ev (world k)) s = Some (s', acts)
      \<and> int (length (sleeps acts)) \<le> max 0 (cc_reconnect_attempts (cl_config s) - int (cl_reconnect_tries s))
      \<and> cl_reconnect_task s' = Some TaskDone)
    \<and> (\<forall>t. cc_reconnect_attempts (cl_config t) = 0 \<and> cl_should_reconnect t
        \<and> (\<forall>k. \<exists>sc. nobody k = Some sc \<and> sc_link sc = Some False \<and> sc_before sc = [])
        \<longrightarrow> reconnect_loop (\<lambda>k. connect_attempt ev (nobody k)) t = None)"
proof (intro conjI allI impI)
  from reconnect_from_ends [OF connect_attempt_ok assms refl] obtain s' acts where
    "reconnect_from (\<lambda>k. connect_attempt ev (world k)) (cc_reconnect_delay (cl_config s)) 0 s = Some (s', acts)"
    "length (sleeps acts) \<le> nat (cc_reconnect_attempts (cl_config s)) - cl_reconnect_tries s" by blast
  moreover from this(2) have
    "int (length (sleeps acts)) \<le> max 0 (cc_reconnect_attempts (cl_config s) - int (cl_reconnect_tries s))"
    by linarith
  ultimately show "\<exists>s' acts. reconnect_loop (\<lambda>k. connect_attempt ev (world k)) s = Some (s', acts)
      \<and> int (length (sleeps acts)) \<le> max 0 (cc_reconnect_attempts (cl_config s) - int (cl_reconnect_tries s))
      \<and> cl_reconnect_task s' = Some TaskDone"
    by (intro exI [of _ "s'\<lparr>cl_reconnect_task := Some TaskDone\<rparr>"] exI [of _ acts]) (simp add: reconnect_loop_def)
next
  fix t :: "('a, 'b, 'c) Client"
  assume t: "cc_reconnect_attempts (cl_config t) = 0 \<and> cl_should_reconnect t
        \<and> (\<forall>k. \<exists>sc. nobody k = Some sc \<and> sc_link sc = Some False \<and> sc_before sc = [])"
  let ?C = "\<lambda>s :: ('a, 'b, 'c) Client. cc_reconnect_attempts (cl_config s) = 0 \<and> cl_should_reconnect s"
  have "reconnect_from (\<lambda>k. connect_attempt ev (nobody k)) d k t = None" for d k
  proof (rule reconnect_from_stuck [where C = ?C])
    fix k and s :: "('a, 'b, 'c) Client"
    assume C: "?C s"
    from t obtain sc where sc: "nobody k = Some sc" "sc_link sc = Some False" "sc_before sc = []" by blast
    have "may_retry s" using C by (simp add: may_retry_def)
    moreover have "\<exists>acts. connect_attempt ev (nobody k) (count_attempt s) = ((count_attempt s)\<lparr>cl_rust := True\<rparr>, acts, Down)"
      by (simp add: connect_attempt_def sc do_connect_start_def catch_with_def s_defs)
    moreover have "?C ((count_attempt s)\<lparr>cl_rust := True\<rparr>)" using C by simp
    ultimately show "may_retry s \<and> (\<exists>s1 acts. connect_attempt ev (nobody k) (count_attempt s) = (s1, acts, Down) \<and> ?C s1)"
      by blast
  qed (use t in simp)
  then show "reconnect_loop (\<lambda>k. connect_attempt ev (nobody k)) t = None" by (simp add: reconnect_loop_def)
qed

text \<open>A client that nothing answers.\<close>

definition sample_config :: ClientConfig where
  "sample_config = \<lparr>cc_server_host = ''localhost'', cc_server_port = 8080, cc_password = ''pw'', cc_name = ''c'',
     cc_version = ''1'', cc_username = None, cc_local_port = None, cc_stun_server = ''stun:1'',
     cc_connect_timeout = 10, cc_reconnect_enabled = True, cc_reconnect_attempts = 5, cc_reconnect_delay = 2,
     cc_reconnect_delay_max = 20, cc_reconnect_delay_multiplier = 2, cc_enable_compression = False\<rparr>"

definition sample_client :: "(nat, nat, bytes) Client" where
  "sample_client = new_client 0 1 2 sample_config"

definition nobody_listens :: scene where
  "nobody_listens = \<lparr>sc_before = [], sc_link = Some False, sc_uid = ''u'', sc_now = 0, sc_events = []\<rparr>"

definition client_env_of :: "codec \<Rightarrow> (nat, nat, bytes) client_env" where
  "client_env_of cd = \<lparr>ce_codec = cd, ce_sha256 = (\<lambda>s. ''ab''), ce_rpc = echo_env, ce_msg = (\<lambda>h v. Returned PNone),
     ce_deliver = (\<lambda>bs. True), ce_private_ip = (\<lambda>h. False), ce_new_tunnel = (\<lambda>b. []),
     ce_feed = (\<lambda>t b. Some (t @ b, b)), ce_handshake = (\<lambda>t. Some (t, [])), ce_handshake_done = (\<lambda>t. True),
     ce_write = (\<lambda>t b. Some (t, b))\<rparr>"

theorem reconnect_terminates_witness:
  "\<exists>s' acts. reconnect_loop (\<lambda>k. connect_attempt (client_env_of reply_codec) (Some nobody_listens)) sample_client
     = Some (s', acts) \<and> length (sleeps acts) \<le> 5"
proof -
  have "0 < cc_reconnect_attempts (cl_config sample_client)"
    and n: "max 0 (cc_reconnect_attempts (cl_config sample_client) - int (cl_reconnect_tries sample_client)) = 5"
    by (simp_all add: sample_client_def new_client_def sample_config_def)
  from reconnect_terminates [OF this(1), of "client_env_of reply_codec" "\<lambda>k. Some nobody_listens"] show ?thesis
    unfolding n by fastforce
qed

text \<open>
  C27. The waits of the reconnection loop are the truncated geometric sequence: the first is the
  configured delay, the \<open>k\<close>-th after it the delay times the multiplier to the \<open>k\<close>, but at most the
  configured maximum - which does not bound the first.
\<close>

theorem reconnect_backoff:
  assumes "reconnect_loop (\<lambda>k. connect_attempt ev (world k)) s = Some (s', acts)"
    and "1 \<le> cc_reconnect_delay_multiplier (cl_config s)" and "0 \<le> cc_reconnect_delay_max (cl_config s)"
  shows "sleeps acts = map (backoff (cl_config s)) [0..<length (sleeps acts)]"
proof -
  from assms(1) obtain t where
    "reconnect_from (\<lambda>k. connect_attempt ev (world k)) (cc_reconnect_delay (cl_config s)) 0 s = Some (t, acts)"
    by (auto simp: reconnect_loop_def)
  from reconnect_from_delays [OF this connect_attempt_ok] show ?thesis
    by (simp add: backoff_iterates [OF assms(2,3)])
qed

lemma nobody_attempt:
  "connect_attempt ev (Some nobody_listens) s = (s\<lparr>cl_rust := True\<rparr>,
     fst (snd (connect_attempt ev (Some nobody_listens) s)), Down)"
  by (simp add: connect_attempt_def nobody_listens_def do_connect_start_def catch_with_def s_defs)

theorem reconnect_backoff_witness:
  "\<exists>s' acts. reconnect_loop (\<lambda>k. connect_attempt (client_env_of reply_codec) (Some nobody_listens)) sample_client
     = Some (s', acts) \<and> sleeps acts = map (backoff sample_config) [0..<length (sleeps acts)]
     \<and> map (backoff sample_config) [0..<5] = [2, 4, 8, 16, 20]"
proof -
  have cf: "cl_config sample_client = sample_config" by (simp add: sample_client_def new_client_def)
  from reconnect_from_ends [OF connect_attempt_ok [where world = "\<lambda>k. Some nobody_listens"
      and ev = "client_env_of reply_codec"], where s = sample_client]
  obtain s' acts where "reconnect_loop (\<lambda>k. connect_attempt (client_env_of reply_codec) (Some nobody_listens)) sample_client
      = Some (s', acts)"
    by (fastforce simp: reconnect_loop_def cf sample_config_def)
  moreover from reconnect_backoff [OF this] have
    "sleeps acts = map (backoff sample_config) [0..<length (sleeps acts)]" by (simp add: cf sample_config_def)
  moreover have "map (backoff sample_config) [0..<5] = [2, 4, 8, 16, 20]"
    by (simp add: upt_rec backoff_def sample_config_def)
  ultimately show ?thesis by (intro exI [of _ s'] exI [of _ acts] conjI)
qed

section \<open>What a failed connection leaves behind\<close>

text \<open>The reply arrives as one frame; its decoding is what matters.\<close>

lemma auth_failure_event:
  assumes "decode_single (ce_codec ev) frame = Inr m" and "dm_message_type m = AUTH_FAILURE" and "\<not> dm_is_mesh m"
    and "cl_auth_future s = Some AuthPending"
  shows "client_events ev [(LinkMessage frame, now)] s =
    (s\<lparr>cl_cached_session_token := PNone, cl_auth_future := Some (AuthResult False)\<rparr>, [])"
  using assms
  by (simp add: client_event_def client_process_message_def process_direct_def c_auth_failure_def set_auth_def s_defs)

lemma connect_finish_rejected:
  assumes "cl_auth_future s = Some (AuthResult False)"
  shows "\<exists>s' acts. do_connect_finish s = (s', acts, Some False) \<and> s' = fst (client_disconnect s)
    \<and> acts = fst (snd (client_disconnect s))"
  using assms by (simp add: do_connect_finish_def catch_with_def s_defs client_disconnect_def)

section \<open>Streams over the mesh\<close>

text \<open>
  A mesh client cannot stream: the bytes go into a JSON message, which cannot carry them, so nothing
  is sent and the task ends with an exception.
\<close>

lemma mesh_stream_not_sent:
  assumes "map_of (cl_peer_clients s) node = Some (MeshPeer c)"
    and "json_dumps (ce_codec ev) (PDict [(''stream_name'', PStr n), (''data'', PBytes b)]) = None"
  shows "snd (mesh_send_binary_stream ev node n b now s) = ([], None)"
  using assms
  by (simp add: mesh_send_binary_stream_def mesh_send_message_def peer_encoded_def peer_step_def
      encode_message_def serialize_data_def s_bind_def)

end
