(* ===== verification/ClientInv.thy ===== *)
theory ClientInv
  imports ClientProofs
begin

text \<open>
  The invariant of the client of \<open>src/conduit/client.py\<close>: no two nodes share a tunnel, in the table or
  in the mesh peers, and the tuples of its local peer-to-peer servers have their three elements; and
  what a call for one node leaves alone of the others.
\<close>

section \<open>The invariant\<close>

definition p2p_tuple :: "p2p_item list \<Rightarrow> bool" where
  "p2p_tuple info = (\<exists>n p b v. info = [LocalServer n p, ConnFuture b, PeerSource v])"

lemma p2p_tupleI [simp]: "p2p_tuple [LocalServer n p, ConnFuture b, PeerSource v]"
  by (simp add: p2p_tuple_def)

text \<open>
  A tunnel belongs to one node.  A step between finding the tunnel of a node and using it relies on the
  table still naming it: \<open>k\<close> is that node with its tunnel, or None.
\<close>

definition client_ok :: "(string \<times> nat) option \<Rightarrow> ('m, 'h, 't) Client \<Rightarrow> bool" where
  "client_ok k s = ((\<forall>x \<in> set (cl_p2p_servers s). p2p_tuple (snd x))
     \<and> (\<forall>i a. map_of (cl_mesh_tunnels s) i = Some a \<longrightarrow> a < length (cl_tunnels s))
     \<and> (\<forall>i c. map_of (cl_peer_clients s) i = Some (MeshPeer c) \<longrightarrow> mc_tunnel c < length (cl_tunnels s))
     \<and> (\<forall>i j a. map_of (cl_mesh_tunnels s) i = Some a \<and> map_of (cl_mesh_tunnels s) j = Some a \<longrightarrow> i = j)
     \<and> (\<forall>i j c. map_of (cl_peer_clients s) i = Some (MeshPeer c) \<and> map_of (cl_mesh_tunnels s) j = Some (mc_tunnel c)
          \<longrightarrow> i = j)
     \<and> (\<forall>i j c c'. map_of (cl_peer_clients s) i = Some (MeshPeer c) \<and> map_of (cl_peer_clients s) j = Some (MeshPeer c')
          \<and> mc_tunnel c = mc_tunnel c' \<longrightarrow> i = j)
     \<and> (\<forall>i a. k = Some (i, a) \<longrightarrow> map_of (cl_mesh_tunnels s) i = Some a))"

lemma client_okD:
  assumes "client_ok k s"
  shows "x \<in> set (cl_p2p_servers s) \<Longrightarrow> p2p_tuple (snd x)"
    and "map_of (cl_mesh_tunnels s) i = Some a \<Longrightarrow> a < length (cl_tunnels s)"
    and "map_of (cl_peer_clients s) i = Some (MeshPeer c) \<Longrightarrow> mc_tunnel c < length (cl_tunnels s)"
    and "map_of (cl_mesh_tunnels s) i = Some a \<Longrightarrow> map_of (cl_mesh_tunnels s) j = Some a \<Longrightarrow> i = j"
    and "map_of (cl_peer_clients s) i = Some (MeshPeer c) \<Longrightarrow> map_of (cl_mesh_tunnels s) j = Some (mc_tunnel c) \<Longrightarrow> i = j"
    and "map_of (cl_peer_clients s) i = Some (MeshPeer c) \<Longrightarrow> map_of (cl_peer_clients s) j = Some (MeshPeer c')
      \<Longrightarrow> mc_tunnel c = mc_tunnel c' \<Longrightarrow> i = j"
    and "k = Some (i, a) \<Longrightarrow> map_of (cl_mesh_tunnels s) i = Some a"
  using assms unfolding client_ok_def by blast+

lemma client_okI:
  assumes "\<And>x. x \<in> set (cl_p2p_servers s) \<Longrightarrow> p2p_tuple (snd x)"
    and "\<And>i a. map_of (cl_mesh_tunnels s) i = Some a \<Longrightarrow> a < length (cl_tunnels s)"
    and "\<And>i c. map_of (cl_peer_clients s) i = Some (MeshPeer c) \<Longrightarrow> mc_tunnel c < length (cl_tunnels s)"
    and "\<And>i j a. map_of (cl_mesh_tunnels s) i = Some a \<Longrightarrow> map_of (cl_mesh_tunnels s) j = Some a \<Longrightarrow> i = j"
    and "\<And>i j c. map_of (cl_peer_clients s) i = Some (MeshPeer c) \<Longrightarrow> map_of (cl_mesh_tunnels s) j = Some (mc_tunnel c) \<Longrightarrow> i = j"
    and "\<And>i j c c'. map_of (cl_peer_clients s) i = Some (MeshPeer c) \<Longrightarrow> map_of (cl_peer_clients s) j = Some (MeshPeer c')
      \<Longrightarrow> mc_tunnel c = mc_tunnel c' \<Longrightarrow> i = j"
    and "\<And>i a. k = Some (i, a) \<Longrightarrow> map_of (cl_mesh_tunnels s) i = Some a"
  shows "client_ok k s"
  using assms unfolding client_ok_def by blast

lemma client_ok_None: "client_ok k s \<Longrightarrow> client_ok None s"
  by (simp add: client_ok_def)

text \<open>A mesh peer gets the tunnel that its node had or has.\<close>

lemma client_ok_peer:
  assumes ok: "client_ok k s"
    and own: "map_of (cl_mesh_tunnels s) node = Some (mc_tunnel c)
      \<or> (\<exists>c'. map_of (cl_peer_clients s) node = Some (MeshPeer c') \<and> mc_tunnel c' = mc_tunnel c)"
    and servers: "\<forall>x \<in> set srvs. p2p_tuple (snd x)"
  shows "client_ok k (s\<lparr>cl_p2p_servers := srvs, cl_peer_clients := AList.update node (MeshPeer c) (cl_peer_clients s)\<rparr>)"
proof -
  note D = client_okD [OF ok]
  have bound: "mc_tunnel c < length (cl_tunnels s)" using own D(2,3) by metis
  have table: "i = node" if "map_of (cl_mesh_tunnels s) i = Some (mc_tunnel c)" for i using own that D(4,5) by metis
  have peers: "i = node" if "map_of (cl_peer_clients s) i = Some (MeshPeer c2)" "mc_tunnel c2 = mc_tunnel c" for i c2
    using own that D(5,6) by metis
  let ?s = "s\<lparr>cl_p2p_servers := srvs, cl_peer_clients := AList.update node (MeshPeer c) (cl_peer_clients s)\<rparr>"
  have p: "(i = node \<and> c2 = c) \<or> (i \<noteq> node \<and> map_of (cl_peer_clients s) i = Some (MeshPeer c2))"
    if "map_of (cl_peer_clients ?s) i = Some (MeshPeer c2)" for i c2
    using that by (auto simp: update_conv' split: if_splits)
  show ?thesis
  proof (rule client_okI)
    show "mc_tunnel c2 < length (cl_tunnels ?s)" if "map_of (cl_peer_clients ?s) i = Some (MeshPeer c2)" for i c2
      using p [OF that] bound D(3) by auto
    show "i = j" if "map_of (cl_peer_clients ?s) i = Some (MeshPeer c2)" "map_of (cl_mesh_tunnels ?s) j = Some (mc_tunnel c2)" for i j c2
      using p [OF that(1)] that(2) table [of j] D(5) [of i c2 j] by auto
    show "i = j" if "map_of (cl_peer_clients ?s) i = Some (MeshPeer c1)" "map_of (cl_peer_clients ?s) j = Some (MeshPeer c2)"
      "mc_tunnel c1 = mc_tunnel c2" for i j c1 c2
    proof (cases "i = node \<or> j = node")
      case True
      with p [OF that(1)] p [OF that(2)] peers [of i c1] peers [of j c2] that(3) show ?thesis by metis
    next
      case False
      with p [OF that(1)] p [OF that(2)] D(6) [of i c1 j c2] that(3) show ?thesis by blast
    qed
    show "x \<in> set (cl_p2p_servers ?s) \<Longrightarrow> p2p_tuple (snd x)" for x using servers by simp
    show "map_of (cl_mesh_tunnels ?s) i = Some a \<Longrightarrow> a < length (cl_tunnels ?s)" for i a using D(2) by simp
    show "map_of (cl_mesh_tunnels ?s) i = Some a \<Longrightarrow> map_of (cl_mesh_tunnels ?s) j = Some a \<Longrightarrow> i = j" for i j a
      using D(4) by simp
    show "k = Some (i, a) \<Longrightarrow> map_of (cl_mesh_tunnels ?s) i = Some a" for i a using D(7) by simp
  qed
qed

lemma set_dict_update: "x \<in> set (AList.update k v d) \<Longrightarrow> x = (k, v) \<or> x \<in> set d"
  by (induction d) (auto split: if_splits)

lemma set_dict_delete: "x \<in> set (AList.delete k d) \<Longrightarrow> x \<in> set d"
  by (simp add: AList.delete_eq)

lemma client_ok_server:
  "client_ok k s \<Longrightarrow> p2p_tuple info \<Longrightarrow> client_ok k (s\<lparr>cl_p2p_servers := AList.update req info (cl_p2p_servers s)\<rparr>)"
proof -
  assume ok: "client_ok k s" and info: "p2p_tuple info"
  have "p2p_tuple (snd x)" if "x \<in> set (AList.update req info (cl_p2p_servers s))" for x
    using set_dict_update [OF that] client_okD(1) [OF ok, of x] info by auto
  with ok show ?thesis by (simp add: client_ok_def)
qed

lemma keeps_put: "(\<And>s. Q s \<Longrightarrow> Q (f s)) \<Longrightarrow> keeps Q (s_put f)"
  by (simp add: keeps_def s_put_def)

lemma keeps_simple:
  "keeps Q (s_ret v)" "keeps Q s_fail" "keeps Q (s_get g)" "keeps Q (s_opt r)" "keeps Q (s_act x)"
  by (simp_all add: keeps_def s_defs)

lemma keeps_catch_with: "keeps Q m \<Longrightarrow> keeps Q (catch_with d m)"
  by (auto simp: keeps_def catch_with_def split_def split: option.split)

lemma keepsD: "keeps Q m \<Longrightarrow> Q s \<Longrightarrow> Q (fst (m s))"
  by (simp add: keeps_def)

text \<open>Most steps touch none of the four fields.\<close>

definition store_key where
  "store_key s = (cl_tunnels s, cl_p2p_servers s, cl_mesh_tunnels s, cl_peer_clients s)"

lemma client_ok_key: "store_key s' = store_key s \<Longrightarrow> client_ok n s' = client_ok n s"
  by (simp add: store_key_def client_ok_def)

lemma keeps_store: "frame_on store_key m \<Longrightarrow> keeps (client_ok n) m"
  unfolding keeps_def frame_on_def using client_ok_key by blast

lemma keeps_client_sends:
  "keeps (client_ok n) (c_rust_send ev bs)" "keeps (client_ok n) (c_encoded e)" "keeps (client_ok n) (c_conn_send g)"
  "keeps (client_ok n) (c_intercept m)" "keeps (client_ok n) (c_route_message ev t v)"
  by (auto intro!: keeps_store simp: frame_on_def store_key_def c_rust_send_def c_encoded_def c_conn_send_def
      c_intercept_def c_route_message_def
      split: sum.splits option.splits prod.splits pyval.splits outcome.splits)

lemmas keeps_rules = keeps_bind keeps_then keeps_simple keeps_catch_with keeps_client_sends

lemma keeps_with_tunnel: "keeps (client_ok k) (with_tunnel a f)"
  by (auto simp: keeps_def with_tunnel_def client_ok_def split: option.split)

lemma new_tunnel_ok:
  assumes ok: "client_ok k s"
  shows "client_ok (Some (node, length (cl_tunnels s))) (fst (put_new_tunnel node t s))"
proof -
  note D = client_okD [OF ok]
  let ?n = "length (cl_tunnels s)" and ?s = "fst (put_new_tunnel node t s)"
  have table: "map_of (cl_mesh_tunnels s) i \<noteq> Some ?n" for i using D(2) by blast
  have peers: "mc_tunnel c \<noteq> ?n" if "map_of (cl_peer_clients s) i = Some (MeshPeer c)" for i c
    using D(3) [OF that] by simp
  have e: "map_of (cl_mesh_tunnels ?s) i = (if i = node then Some ?n else map_of (cl_mesh_tunnels s) i)"
    "cl_peer_clients ?s = cl_peer_clients s" "cl_p2p_servers ?s = cl_p2p_servers s" "length (cl_tunnels ?s) = Suc ?n" for i
    by (simp_all add: put_new_tunnel_def update_conv')
  show ?thesis
  proof (rule client_okI)
    show "a < length (cl_tunnels ?s)" if "map_of (cl_mesh_tunnels ?s) i = Some a" for i a
      using that D(2) [of i a] by (simp add: e split: if_splits)
    show "mc_tunnel c < length (cl_tunnels ?s)" if "map_of (cl_peer_clients ?s) i = Some (MeshPeer c)" for i c
      using that D(3) [of i c] by (simp add: e)
    show "i = j" if "map_of (cl_mesh_tunnels ?s) i = Some a" "map_of (cl_mesh_tunnels ?s) j = Some a" for i j a
      using that table [of i] table [of j] D(4) [of i a j] by (simp add: e split: if_splits)
    show "i = j" if "map_of (cl_peer_clients ?s) i = Some (MeshPeer c)" "map_of (cl_mesh_tunnels ?s) j = Some (mc_tunnel c)" for i j c
      using that peers [of i c] D(5) [of i c j] by (simp add: e split: if_splits)
    show "x \<in> set (cl_p2p_servers ?s) \<Longrightarrow> p2p_tuple (snd x)" for x using D(1) by (simp add: e)
    show "map_of (cl_peer_clients ?s) i = Some (MeshPeer c) \<Longrightarrow> map_of (cl_peer_clients ?s) j = Some (MeshPeer c')
      \<Longrightarrow> mc_tunnel c = mc_tunnel c' \<Longrightarrow> i = j" for i j c c' unfolding e by (rule D(6))
    show "Some (node, ?n) = Some (i, a) \<Longrightarrow> map_of (cl_mesh_tunnels ?s) i = Some a" for i a using e(1) [of node] by auto
  qed
qed

lemma keeps_new_tunnel: "keeps (client_ok None) (put_new_tunnel node t)"
  unfolding keeps_def by (intro allI impI) (rule client_ok_None [OF new_tunnel_ok])

lemma keeps_peer_step:
  assumes "\<And>c. mc_tunnel (fst (f c)) = mc_tunnel c"
  shows "keeps (client_ok k) (peer_step node f)"
  unfolding keeps_def
proof (intro allI impI)
  fix s
  assume ok: "client_ok k s"
  show "client_ok k (fst (peer_step node f s))"
  proof (cases "\<exists>c. map_of (cl_peer_clients s) node = Some (MeshPeer c)")
    case True
    then obtain c where c: "map_of (cl_peer_clients s) node = Some (MeshPeer c)" by blast
    obtain c' r where f: "f c = (c', r)" by (cases "f c")
    with assms [of c] have "mc_tunnel c = mc_tunnel c'" by simp
    with client_ok_peer [OF ok, of node c' "cl_p2p_servers s"] c client_okD(1) [OF ok] show ?thesis
      by (auto simp: peer_step_def f)
  qed (use ok in \<open>auto simp: peer_step_def split: option.split peer.split\<close>)
qed

lemma keeps_mesh_send:
  "keeps (client_ok n) (send_mesh_raw ev target packet)" "keeps (client_ok n) (c_mesh_packet ev t payload dst now)"
  "keeps (client_ok n) (route_mesh_message ev dst raw)"
  by (auto simp: send_mesh_raw_def c_mesh_packet_def route_mesh_message_def
      intro!: keeps_rules split: option.split prod.split)

lemma keeps_fallback: "keeps (client_ok (Some (src, a))) (p2p_fallback src a now)"
  unfolding keeps_def
proof (intro allI impI)
  fix s
  assume ok: "client_ok (Some (src, a)) s"
  let ?t = "\<lambda>req. s\<lparr>cl_p2p_servers := AList.delete req (cl_p2p_servers s),
      cl_peer_clients := AList.update src (new_mesh_fallback_client src a now) (cl_peer_clients s)\<rparr>"
  have "client_ok (Some (src, a)) (?t req)" for req
    unfolding new_mesh_fallback_client_def
    by (rule client_ok_peer [OF ok])
      (use client_okD(1,7) [OF ok] in \<open>auto simp: new_mesh_connection_def dest: set_dict_delete\<close>)
  moreover have "fst (p2p_fallback src a now s) = s \<or> (\<exists>req. fst (p2p_fallback src a now s) = ?t req)"
    by (auto simp: p2p_fallback_def split: option.split prod.split)
  ultimately show "client_ok (Some (src, a)) (fst (p2p_fallback src a now s))" using ok by metis
qed

text \<open>A step that finds a value, and the rest that may rely on it.\<close>

lemma keeps_bind_value:
  assumes "\<And>s. Q s \<Longrightarrow> (\<exists>s' acts. m s = (s', acts, None) \<and> Q s') \<or> (\<exists>s' acts v. m s = (s', acts, Some v) \<and> R v s')"
    and "\<And>v. keeps (R v) (f v)" and "\<And>v s. R v s \<Longrightarrow> Q s"
  shows "keeps Q (s_bind m f)"
  unfolding keeps_def
proof (intro allI impI)
  fix s
  assume "Q s"
  from assms(1) [OF this] show "Q (fst (s_bind m f s))"
  proof (elim disjE exE conjE)
    fix s' acts
    assume "m s = (s', acts, None)" "Q s'"
    then show ?thesis by (simp add: s_bind_def)
  next
    fix s' acts v
    assume m: "m s = (s', acts, Some v)" "R v s'"
    with assms(2) [of v] have "R v (fst (f v s'))" by (simp add: keeps_def)
    with m assms(3) show ?thesis by (simp add: s_bind_def split_def)
  qed
qed

lemma keeps_handshake: "keeps (client_ok None) (c_mesh_handshake ev m now)"
  unfolding c_mesh_handshake_def Let_def
proof (rule keeps_bind_value [where R = "\<lambda>a. client_ok (Some (dm_route_src m, a))"])
  let ?m = "s_bind (s_get (tunnel_at (dm_route_src m)))
      (\<lambda>a. case a of None \<Rightarrow> put_new_tunnel (dm_route_src m) (ce_new_tunnel ev True) | Some x \<Rightarrow> s_ret x)"
  show "(\<exists>s' acts. ?m s = (s', acts, None) \<and> client_ok None s')
      \<or> (\<exists>s' acts v. ?m s = (s', acts, Some v) \<and> client_ok (Some (dm_route_src m, v)) s')" if "client_ok None s" for s
  proof (cases "tunnel_at (dm_route_src m) s")
    case None
    with new_tunnel_ok [OF that, of "dm_route_src m" "ce_new_tunnel ev True"] show ?thesis
      by (simp add: s_defs put_new_tunnel_def)
  next
    case (Some a)
    then show ?thesis using that by (auto simp: s_defs client_ok_def tunnel_at_def)
  qed
  show "keeps (client_ok (Some (dm_route_src m, v))) (s_bind (s_opt (tunnel_bytes (get_data m)))
      (\<lambda>b. s_then (with_tunnel v (\<lambda>t. ce_feed ev t b))
         (s_bind (with_tunnel v (ce_handshake ev))
           (\<lambda>out. s_then
              (if out \<noteq> []
               then s_bind (c_mesh_packet ev ''mesh_handshake'' out (dm_route_src m) now) (send_mesh_raw ev (dm_route_src m))
               else s_ret ())
              (s_bind (s_get (\<lambda>s. ce_handshake_done ev (cl_tunnels s ! v)))
                (\<lambda>complete. if complete then p2p_fallback (dm_route_src m) v now else s_ret ()))))))" for v
    by (auto intro!: keeps_rules keeps_with_tunnel keeps_mesh_send keeps_fallback)
qed (auto intro: client_ok_None)

lemma keeps_decrypted:
  fixes ev :: "('m, 'h, 't) client_env"
  shows "keeps (client_ok n) (c_mesh_decrypted ev src x)"
  unfolding keeps_def
proof (intro allI impI)
  fix s :: "('m, 'h, 't) Client"
  assume ok: "client_ok n s"
  have put: "client_ok n (s\<lparr>cl_peer_clients := AList.update src (MeshPeer (fst (mesh_handle_decoded d c))) (cl_peer_clients s)\<rparr>)"
    if "map_of (cl_peer_clients s) src = Some (MeshPeer c)" for c d
  proof -
    have "mc_tunnel c = mc_tunnel (fst (mesh_handle_decoded d c))" by (simp add: mesh_handle_decoded_def Let_def)
    with client_ok_peer [OF ok, of src "fst (mesh_handle_decoded d c)" "cl_p2p_servers s"] that client_okD(1) [OF ok]
    show ?thesis by auto
  qed
  have payload: "client_ok n (fst (handle_decrypted_payload ev src c x s))"
    if "map_of (cl_peer_clients s) src = Some (MeshPeer c)" for c
  proof (cases "decode_single (ce_codec ev) x")
    case (Inl e)
    with ok show ?thesis by (simp add: handle_decrypted_payload_def s_fail_def)
  next
    case (Inr d)
    obtain c' b where h: "mesh_handle_decoded d c = (c', b)" by fastforce
    with put [OF that, of d] Inr show ?thesis
      by (simp add: handle_decrypted_payload_def put_peer_def s_defs)
  qed
  have other: "keeps (client_ok n) (case decode_single (ce_codec ev) x of
             Inl x \<Rightarrow> s_fail
           | Inr inner \<Rightarrow>
               s_then (c_route_message ev (get_message_type_str inner) (get_data inner)) (s_ret ()))"
    by (auto intro!: keeps_rules split: sum.split)
  show "client_ok n (fst (c_mesh_decrypted ev src x s))"
    unfolding c_mesh_decrypted_def bind_silent [of "s_get (\<lambda>s. map_of (cl_peer_clients s) src)", OF s_get_def]
    using payload keepsD [OF other ok] by (simp split: option.split peer.split)
qed

lemma keeps_secure: "keeps (client_ok None) (c_mesh_secure ev m)"
  unfolding c_mesh_secure_def
  by (auto intro!: keeps_bind keeps_simple keeps_with_tunnel keeps_decrypted split: option.split)

lemma keeps_auth: "keeps (client_ok None) (c_auth_success m)" "keeps (client_ok None) c_auth_failure"
  by (auto simp: c_auth_success_def c_auth_failure_def set_auth_def store_key_def
      intro!: keeps_rules keeps_store [OF frame_put] split: pyval.split)

lemma keeps_process: "keeps (client_ok None) (client_process_message ev m now)"
proof -
  have "keeps (client_ok None) (c_send_dispatched ev corr response now)" for corr response
    unfolding c_send_dispatched_def by (auto intro!: keeps_rules split: pyval.split option.split)
  then have "keeps (client_ok None) (c_rpc_request ev m now)"
    unfolding c_rpc_request_def by (auto intro!: keeps_rules split: pyval.split)
  then have "keeps (client_ok None) (process_direct ev m now)"
    unfolding process_direct_def
    by (auto intro!: keeps_rules keeps_auth keeps_store [OF frame_put] simp: resolve_own_def store_key_def)
  then show ?thesis
    unfolding client_process_message_def by (auto intro!: keeps_rules keeps_handshake keeps_secure)
qed

lemma keeps_disconnect: "keeps (client_ok None) handle_disconnect" "keeps (client_ok None) client_disconnect"
  by (auto simp: keeps_def handle_disconnect_def client_disconnect_def client_ok_def Let_def)

lemma keeps_event: "keeps (client_ok None) (client_event ev q now)"
proof -
  have "keeps (client_ok None) (client_binary_stream payload)" for payload
    unfolding client_binary_stream_def Let_def by (auto intro!: keeps_rules)
  then show ?thesis
    unfolding client_event_def
    by (auto intro!: keeps_rules keeps_mesh_send keeps_process keeps_disconnect split: link_event.split sum.split)
qed

lemma keeps_connect:
  "keeps (client_ok None) (do_connect_start ev link uid now)" "keeps (client_ok None) do_connect_finish"
  by (auto simp: do_connect_start_def do_connect_finish_def store_key_def
      intro!: keeps_rules keeps_store [OF frame_put] keeps_disconnect
      split: option.splits bool.splits prod.splits)

lemma events_ok: "client_ok None s \<Longrightarrow> client_ok None (fst (client_events ev qs s))"
proof (induction qs arbitrary: s)
  case (Cons q qs)
  obtain e now where q: "q = (e, now)" by (cases q)
  from keepsD [OF keeps_event Cons.prems] Cons.IH show ?case by (simp add: q split_def)
qed simp

lemma attempt_ok: "client_ok None s \<Longrightarrow> client_ok None (fst (connect_attempt ev scene s))"
  by (auto simp: connect_attempt_def split_def split: option.split
      intro!: keepsD [OF keeps_connect(1)] keepsD [OF keeps_connect(2)] events_ok)

lemma keeps_or_else: "keeps Q m \<Longrightarrow> keeps Q h \<Longrightarrow> keeps Q (or_else m h)"
  by (auto simp: keeps_def or_else_def split_def split: option.split)

lemma keeps_connected: "keeps (client_ok None) (p2p_connected req :: ('m, 'h, 't, unit) cstep)"
  unfolding p2p_connected_def
proof (rule keeps_put)
  fix s :: "('m, 'h, 't) Client"
  assume ok: "client_ok None s"
  show "client_ok None (case map_of (cl_p2p_servers s) req of
      Some [srv, ConnFuture False, src] \<Rightarrow>
        s\<lparr>cl_p2p_servers := AList.update req [srv, ConnFuture True, src] (cl_p2p_servers s)\<rparr>
    | _ \<Rightarrow> s)"
  proof (cases "map_of (cl_p2p_servers s) req")
    case (Some info)
    with ok have "p2p_tuple (snd (req, info))" unfolding client_ok_def by (blast dest: map_of_SomeD)
    then obtain nm p b v where "info = [LocalServer nm p, ConnFuture b, PeerSource v]" by (auto simp: p2p_tuple_def)
    then show ?thesis using ok Some by (cases b) (simp_all add: client_ok_server)
  qed (simp add: ok)
qed

lemma keeps_p2p:
  "keeps (client_ok None) (p2p_incoming ev accepted port mapped local_ip problem d now)"
  "keeps (client_ok None) (p2p_connected req)" "keeps (client_ok None) (p2p_request_response d)"
  "keeps (client_ok None) (p2p_begin ev target req now)" "keeps (client_ok None) (p2p_end req)"
  "keeps (client_ok None) (p2p_punch_cmd ev d)"
proof -
  show "keeps (client_ok None) (p2p_incoming ev accepted port mapped local_ip problem d now)"
    unfolding p2p_incoming_def p2p_reject_def client_send_def Let_def
    by (auto intro!: keeps_or_else keeps_rules keeps_put client_ok_server split: pyval.split)
  show "keeps (client_ok None) (p2p_connected req)" by (rule keeps_connected)
  show "keeps (client_ok None) (p2p_request_response d)" "keeps (client_ok None) (p2p_end req)"
    unfolding p2p_request_response_def p2p_end_def
    by (auto intro!: keeps_put simp: client_ok_def split: pyval.split)
  show "keeps (client_ok None) (p2p_begin ev target req now)"
    unfolding p2p_begin_def client_send_def by (auto intro!: keeps_rules keeps_put simp: client_ok_def)
  show "keeps (client_ok None) (p2p_punch_cmd ev d)"
    unfolding p2p_punch_cmd_def Let_def
    by (auto intro!: keeps_rules split: prod.split option.split list.split p2p_item.split pyval.split)
qed

lemma keeps_mesh_calls:
  "keeps (client_ok None) (mesh_tunnel_start ev target now)" "keeps (client_ok None) (mesh_secure_send ev target t v now)"
  "keeps (client_ok None) (mesh_send_encrypted ev target payload now)"
proof -
  show "keeps (client_ok None) (mesh_tunnel_start ev target now)" "keeps (client_ok None) (mesh_secure_send ev target t v now)"
    unfolding mesh_tunnel_start_def mesh_secure_send_def
    by (auto intro!: keeps_rules keeps_with_tunnel keeps_new_tunnel keeps_mesh_send split: prod.split option.split)
  show "keeps (client_ok None) (mesh_send_encrypted ev target payload now)"
    unfolding mesh_send_encrypted_def peer_encoded_def
    by (auto intro!: keeps_rules keeps_with_tunnel keeps_mesh_send keeps_peer_step simp: mesh_count_sent_def split_def)
qed

section \<open>A run of the client\<close>

datatype client_call =
    TransportEvent link_event time
  | ConnectStart "bool option" string time
  | ConnectFinish
  | Attempt "scene option"
  | DisconnectCall
  | P2PIncoming bool int "string option" string string "(string, pyval) dict" time
  | P2PConnected string
  | P2PBegin string string time
  | P2PResponse "(string, pyval) dict"
  | P2PPunch "(string, pyval) dict"
  | P2PEnd string
  | TunnelStart string time
  | SecureSend string string pyval time
  | MeshSend string bytes time

fun do_client_call ::
  "('m, 'h, 't) client_env \<Rightarrow> ('m, 'h, 't) Client \<Rightarrow> client_call \<Rightarrow> ('m, 'h, 't) Client" where
  "do_client_call ev s (TransportEvent q now) = fst (client_event ev q now s)"
| "do_client_call ev s (ConnectStart link uid now) = fst (do_connect_start ev link uid now s)"
| "do_client_call ev s ConnectFinish = fst (do_connect_finish s)"
| "do_client_call ev s (Attempt scene) = fst (connect_attempt ev scene s)"
| "do_client_call ev s DisconnectCall = fst (client_disconnect s)"
| "do_client_call ev s (P2PIncoming a p mapped ip problem d now) = fst (p2p_incoming ev a p mapped ip problem d now s)"
| "do_client_call ev s (P2PConnected req) = fst (p2p_connected req s)"
| "do_client_call ev s (P2PBegin target req now) = fst (p2p_begin ev target req now s)"
| "do_client_call ev s (P2PResponse d) = fst (p2p_request_response d s)"
| "do_client_call ev s (P2PPunch d) = fst (p2p_punch_cmd ev d s)"
| "do_client_call ev s (P2PEnd req) = fst (p2p_end req s)"
| "do_client_call ev s (TunnelStart target now) = fst (mesh_tunnel_start ev target now s)"
| "do_client_call ev s (SecureSend target t v now) = fst (mesh_secure_send ev target t v now s)"
| "do_client_call ev s (MeshSend node payload now) = fst (mesh_send_encrypted ev node payload now s)"

interpretation client: op_machine "do_client_call ev" "client_ok None"
  for ev :: "('m, 'h, 't) client_env"
proof
  fix s :: "('m, 'h, 't) Client" and e
  assume ok: "client_ok None s"
  show "client_ok None (do_client_call ev s e)"
    by (cases e)
      (simp_all add: keepsD [OF keeps_event ok] keepsD [OF keeps_connect(1) ok] keepsD [OF keeps_connect(2) ok]
        attempt_ok [OF ok] keepsD [OF keeps_disconnect(2) ok] keepsD [OF keeps_p2p(1) ok] keepsD [OF keeps_p2p(2) ok]
        keepsD [OF keeps_p2p(3) ok] keepsD [OF keeps_p2p(4) ok] keepsD [OF keeps_p2p(5) ok] keepsD [OF keeps_p2p(6) ok]
        keepsD [OF keeps_mesh_calls(1) ok] keepsD [OF keeps_mesh_calls(2) ok] keepsD [OF keeps_mesh_calls(3) ok])
qed

lemma new_client_ok: "client_ok None (new_client h1 h2 h3 cf)"
  by (simp add: client_ok_def new_client_def)

section \<open>What a call leaves alone\<close>

definition tunnel_key where
  "tunnel_key s = (cl_mesh_tunnels s, cl_tunnels s)"

text \<open>
  Since \<open>s0\<close>, the tunnels of all nodes but one are the same objects in the same state; with \<open>b\<close>, that
  one's has not been replaced either.
\<close>

definition others_kept :: "bool \<Rightarrow> string \<Rightarrow> ('m, 'h, 't) Client \<Rightarrow> ('m, 'h, 't) Client \<Rightarrow> bool" where
  "others_kept b node s0 s = (length (cl_tunnels s0) \<le> length (cl_tunnels s)
     \<and> (\<forall>j. j \<noteq> node \<longrightarrow> tunnel_at j s = tunnel_at j s0
          \<and> (\<forall>a. tunnel_at j s0 = Some a \<longrightarrow> cl_tunnels s ! a = cl_tunnels s0 ! a \<and> tunnel_at node s \<noteq> Some a))
     \<and> (b \<longrightarrow> (\<forall>a. tunnel_at node s0 = Some a \<longrightarrow> tunnel_at node s = Some a)))"

lemma others_kept_key: "tunnel_key s' = tunnel_key s \<Longrightarrow> others_kept b node s0 s' = others_kept b node s0 s"
  by (simp add: others_kept_def tunnel_key_def tunnel_at_def)

lemma keeps_unrelated: "frame_on tunnel_key m \<Longrightarrow> keeps (others_kept b node s0) m"
  unfolding keeps_def frame_on_def using others_kept_key by blast

lemma others_kept_refl: "client_ok k s0 \<Longrightarrow> others_kept b node s0 s0"
  using client_okD(4) by (fastforce simp: others_kept_def tunnel_at_def)

lemma unrelated_sends:
  "frame_on tunnel_key (c_rust_send ev bs)" "frame_on tunnel_key (c_encoded e)" "frame_on tunnel_key (c_conn_send g)"
  "frame_on tunnel_key (peer_step node h)" "frame_on tunnel_key (put_peer node p)" "frame_on tunnel_key (c_intercept m)"
  "frame_on tunnel_key (c_route_message ev t v)" "frame_on tunnel_key (p2p_fallback node a now)"
  by (auto simp: frame_on_def tunnel_key_def c_rust_send_def c_encoded_def c_conn_send_def
      peer_step_def put_peer_def s_put_def c_intercept_def c_route_message_def p2p_fallback_def
      split: sum.splits option.splits prod.splits peer.splits pyval.splits outcome.splits)

lemmas unrelated_rules = frame_bind frame_then frame_basic frame_catch_with unrelated_sends

lemma unrelated_mesh: "frame_on tunnel_key (send_mesh_raw ev target packet)"
  "frame_on tunnel_key (c_mesh_packet ev t payload dst now)" "frame_on tunnel_key (route_mesh_message ev dst raw)"
  "frame_on tunnel_key (peer_encoded node f)"
  by (auto simp: send_mesh_raw_def c_mesh_packet_def route_mesh_message_def peer_encoded_def
      intro!: unrelated_rules split: option.split prod.split)

lemma unrelated_decrypted: "frame_on tunnel_key (c_mesh_decrypted ev src x)"
  unfolding c_mesh_decrypted_def handle_decrypted_payload_def
  by (auto intro!: unrelated_rules split: option.split peer.split sum.split prod.split)

lemma unrelated_direct: "frame_on tunnel_key (process_direct ev m now)"
proof -
  have "frame_on tunnel_key (c_send_dispatched ev corr response now)" for corr response
    unfolding c_send_dispatched_def by (auto intro!: unrelated_rules split: pyval.split option.split)
  then have "frame_on tunnel_key (c_rpc_request ev m now)"
    unfolding c_rpc_request_def by (auto intro!: unrelated_rules split: pyval.split)
  moreover have "frame_on tunnel_key (c_auth_success m)" "frame_on tunnel_key c_auth_failure"
    by (auto simp: c_auth_success_def c_auth_failure_def set_auth_def tunnel_key_def
        intro!: unrelated_rules frame_put split: pyval.split)
  ultimately show ?thesis
    unfolding process_direct_def
    by (auto intro!: unrelated_rules frame_put simp: resolve_own_def tunnel_key_def)
qed

lemma unrelated_calls:
  "frame_on tunnel_key (client_binary_stream payload)" "frame_on tunnel_key handle_disconnect"
  "frame_on tunnel_key client_disconnect"
  "frame_on tunnel_key (do_connect_start ev link uid now)" "frame_on tunnel_key do_connect_finish"
proof -
  show d: "frame_on tunnel_key handle_disconnect" "frame_on tunnel_key client_disconnect"
    by (auto simp: frame_on_def tunnel_key_def handle_disconnect_def client_disconnect_def Let_def)
  show "frame_on tunnel_key (client_binary_stream payload)"
    unfolding client_binary_stream_def Let_def by (auto intro!: unrelated_rules)
  show "frame_on tunnel_key (do_connect_start ev link uid now)" "frame_on tunnel_key do_connect_finish"
    unfolding do_connect_start_def do_connect_finish_def
    by (auto intro!: unrelated_rules frame_put d simp: tunnel_key_def split: option.splits bool.splits prod.splits)
qed

lemma frame_or_else: "frame_on key m \<Longrightarrow> frame_on key h \<Longrightarrow> frame_on key (or_else m h)"
  by (auto simp: frame_on_def or_else_def split_def split: option.split)

lemma unrelated_p2p:
  "frame_on tunnel_key (p2p_incoming ev accepted port mapped local_ip problem d now)"
  "frame_on tunnel_key (p2p_connected req)" "frame_on tunnel_key (p2p_request_response d)"
  "frame_on tunnel_key (p2p_begin ev target req now)" "frame_on tunnel_key (p2p_end req)"
  "frame_on tunnel_key (p2p_punch_cmd ev d)"
proof -
  show "frame_on tunnel_key (p2p_incoming ev accepted port mapped local_ip problem d now)"
    unfolding p2p_incoming_def p2p_reject_def client_send_def Let_def
    by (auto intro!: frame_or_else unrelated_rules frame_put simp: tunnel_key_def split: pyval.split)
  show "frame_on tunnel_key (p2p_connected req)" "frame_on tunnel_key (p2p_request_response d)"
    "frame_on tunnel_key (p2p_end req)"
    unfolding p2p_connected_def p2p_request_response_def p2p_end_def
    by (auto intro!: frame_put simp: tunnel_key_def split: pyval.split option.split list.split p2p_item.split bool.split)
  show "frame_on tunnel_key (p2p_begin ev target req now)"
    unfolding p2p_begin_def client_send_def by (auto intro!: unrelated_rules frame_put simp: tunnel_key_def)
  show "frame_on tunnel_key (p2p_punch_cmd ev d)"
    unfolding p2p_punch_cmd_def Let_def
    by (auto intro!: unrelated_rules split: prod.split option.split list.split p2p_item.split pyval.split)
qed

text \<open>A tunnel that is no other node's, and the calls that use one.\<close>

definition own_tunnel :: "bool \<Rightarrow> string \<Rightarrow> ('m, 'h, 't) Client \<Rightarrow> nat \<Rightarrow> ('m, 'h, 't) Client \<Rightarrow> bool" where
  "own_tunnel b node s0 a s = (others_kept b node s0 s \<and> (\<forall>j. j \<noteq> node \<longrightarrow> tunnel_at j s0 \<noteq> Some a))"

lemma keeps_own_tunnel: "keeps (own_tunnel b node s0 a) (with_tunnel a f)"
  unfolding keeps_def own_tunnel_def others_kept_def
  by (auto simp: with_tunnel_def tunnel_at_def nth_list_update split: option.split)

lemma keeps_own: "frame_on tunnel_key m \<Longrightarrow> keeps (own_tunnel b node s0 a) m"
  using keeps_unrelated [of m b node s0] by (auto simp: keeps_def own_tunnel_def)

lemma own_new_tunnel:
  assumes ok: "client_ok None s0" and s: "others_kept b node s0 s" and new: "b \<longrightarrow> tunnel_at node s = None"
  shows "own_tunnel b node s0 (length (cl_tunnels s)) (fst (put_new_tunnel node t s))"
proof -
  have "a < length (cl_tunnels s)" if "tunnel_at j s0 = Some a" for j a
    using client_okD(2) [OF ok] s that by (fastforce simp: others_kept_def tunnel_at_def)
  with s new show ?thesis
    by (fastforce simp: own_tunnel_def others_kept_def put_new_tunnel_def tunnel_at_def update_conv' nth_append)
qed

lemma own_at: "others_kept b node s0 s \<Longrightarrow> tunnel_at node s = Some a \<Longrightarrow> own_tunnel b node s0 a s"
  by (auto simp: own_tunnel_def others_kept_def)

lemmas keeps_own_rules = keeps_bind keeps_then keeps_simple keeps_own_tunnel keeps_own [OF unrelated_mesh(1)]
  keeps_own [OF unrelated_mesh(2)] keeps_own [OF unrelated_mesh(4)] keeps_own [OF unrelated_sends(1)]
  keeps_own [OF unrelated_sends(2)] keeps_own [OF unrelated_sends(4)] keeps_own [OF unrelated_sends(8)]
  keeps_own [OF unrelated_decrypted]

lemma kept_bind:
  assumes "\<And>v s1 acts. m s = (s1, acts, Some v) \<Longrightarrow> own_tunnel b node s0 v s1"
    and "\<And>s1 acts. m s = (s1, acts, None) \<Longrightarrow> others_kept b node s0 s1"
    and "\<And>v. keeps (own_tunnel b node s0 v) (f v)"
  shows "others_kept b node s0 (fst (s_bind m f s))"
proof -
  obtain s1 acts r where m: "m s = (s1, acts, r)" by (cases "m s")
  show ?thesis
  proof (cases r)
    case (Some v)
    from keepsD [OF assms(3) assms(1) [OF m[unfolded Some]]] show ?thesis
      by (simp add: s_bind_def m Some own_tunnel_def split_def)
  qed (use m assms(2) in \<open>simp add: s_bind_def\<close>)
qed

lemma handshake_kept:
  assumes ok: "client_ok None s"
  shows "others_kept True (dm_route_src m) s (fst (c_mesh_handshake ev m now s))"
  unfolding c_mesh_handshake_def Let_def
proof (rule kept_bind)
  let ?m = "s_bind (s_get (tunnel_at (dm_route_src m)))
      (\<lambda>a. case a of None \<Rightarrow> put_new_tunnel (dm_route_src m) (ce_new_tunnel ev True) | Some x \<Rightarrow> s_ret x)"
  note refl = others_kept_refl [OF ok, of True "dm_route_src m"]
  show "own_tunnel True (dm_route_src m) s v s1" if "?m s = (s1, acts, Some v)" for v s1 acts
  proof (cases "tunnel_at (dm_route_src m) s")
    case None
    with own_new_tunnel [OF ok refl, of "ce_new_tunnel ev True"] that show ?thesis
      by (auto simp: s_defs put_new_tunnel_def)
  next
    case (Some a)
    with own_at [OF refl] that show ?thesis by (simp add: s_defs)
  qed
  show "others_kept True (dm_route_src m) s s1" if "?m s = (s1, acts, None)" for s1 acts
    using that by (cases "tunnel_at (dm_route_src m) s") (simp_all add: s_defs put_new_tunnel_def)
  show "keeps (own_tunnel True (dm_route_src m) s v) (s_bind (s_opt (tunnel_bytes (get_data m)))
      (\<lambda>b. s_then (with_tunnel v (\<lambda>t. ce_feed ev t b))
         (s_bind (with_tunnel v (ce_handshake ev))
           (\<lambda>out. s_then
              (if out \<noteq> []
               then s_bind (c_mesh_packet ev ''mesh_handshake'' out (dm_route_src m) now) (send_mesh_raw ev (dm_route_src m))
               else s_ret ())
              (s_bind (s_get (\<lambda>s. ce_handshake_done ev (cl_tunnels s ! v)))
                (\<lambda>complete. if complete then p2p_fallback (dm_route_src m) v now else s_ret ()))))))" for v
    by (auto intro!: keeps_own_rules)
qed

lemma bind_get: "s_bind (s_get g) f s = f (g s) s"
  by (simp add: s_bind_def s_get_def split: prod.split)

lemma secure_kept:
  assumes ok: "client_ok None s"
  shows "others_kept True (dm_route_src m) s (fst (c_mesh_secure ev m s))"
proof (cases "tunnel_at (dm_route_src m) s")
  case None
  with others_kept_refl [OF ok] show ?thesis by (simp add: c_mesh_secure_def s_defs)
next
  case (Some a)
  let ?rest = "s_bind (s_opt (tunnel_bytes (get_data m)))
      (\<lambda>b. s_bind (with_tunnel a (\<lambda>t. ce_feed ev t b)) (c_mesh_decrypted ev (dm_route_src m)))"
  have "keeps (own_tunnel True (dm_route_src m) s a) ?rest" by (auto intro!: keeps_own_rules)
  from keepsD [OF this own_at [OF others_kept_refl [OF ok] Some]]
  have "others_kept True (dm_route_src m) s (fst (?rest s))" by (simp add: own_tunnel_def)
  moreover have "c_mesh_secure ev m s = ?rest s"
    unfolding c_mesh_secure_def bind_get by (simp add: Some)
  ultimately show ?thesis by simp
qed

lemma process_kept:
  assumes ok: "client_ok None s"
  shows "others_kept True (dm_route_src m) s (fst (client_process_message ev m now s))"
proof -
  have "others_kept True (dm_route_src m) s (fst (process_direct ev m now s))"
    by (rule keepsD [OF keeps_unrelated [OF unrelated_direct] others_kept_refl [OF ok]])
  with handshake_kept [OF ok, of m ev now] secure_kept [OF ok, of m ev] show ?thesis
    unfolding client_process_message_def bind_get by simp
qed

lemma message_kept:
  assumes ok: "client_ok None s" and m: "decode_single (ce_codec ev) bs = Inr m"
  shows "others_kept True (dm_route_src m) s (fst (client_event ev (LinkMessage bs) now s))"
proof -
  have "others_kept True (dm_route_src m) s (fst (route_mesh_message ev (dm_route_dst m) bs s))"
    by (rule keepsD [OF keeps_unrelated [OF unrelated_mesh(3)] others_kept_refl [OF ok]])
  with process_kept [OF ok, of m ev now] show ?thesis
    unfolding client_event_def by (simp add: m bind_get)
qed

lemma start_kept:
  assumes ok: "client_ok None s"
  shows "others_kept False target s (fst (mesh_tunnel_start ev target now s))"
  unfolding mesh_tunnel_start_def
proof (rule kept_bind)
  show "own_tunnel False target s v s1" if "put_new_tunnel target (ce_new_tunnel ev False) s = (s1, acts, Some v)" for v s1 acts
    using own_new_tunnel [OF ok others_kept_refl [OF ok], of False target "ce_new_tunnel ev False"] that
    by (auto simp: put_new_tunnel_def)
  show "keeps (own_tunnel False target s v) (s_bind (with_tunnel v (ce_handshake ev))
         (\<lambda>out. if out \<noteq> [] then s_bind (c_mesh_packet ev ''mesh_handshake'' out target now) (send_mesh_raw ev target)
            else s_ret ()))" for v
    by (auto intro!: keeps_own_rules)
qed (simp add: put_new_tunnel_def)

lemma secure_send_kept:
  assumes ok: "client_ok None s"
  shows "others_kept True target s (fst (mesh_secure_send ev target t v now s))"
proof (cases "tunnel_at target s")
  case None
  with others_kept_refl [OF ok] show ?thesis by (simp add: mesh_secure_send_def s_defs)
next
  case (Some a)
  let ?rest = "if \<not> tunnel_ready ev target s then s_fail
      else s_bind (c_encoded (\<lambda>e. encode_message (ce_codec ev) e t v None now))
        (\<lambda>inner. s_bind (with_tunnel a (\<lambda>t. ce_write ev t inner))
          (\<lambda>encrypted. s_bind (c_mesh_packet ev ''mesh_secure'' encrypted target now) (send_mesh_raw ev target)))"
  have "keeps (own_tunnel True target s a) ?rest" by (auto intro!: keeps_own_rules)
  from keepsD [OF this own_at [OF others_kept_refl [OF ok] Some]]
  have "others_kept True target s (fst (?rest s))" by (simp add: own_tunnel_def)
  moreover have "mesh_secure_send ev target t v now s = ?rest s"
    unfolding mesh_secure_send_def bind_get by (simp add: Some)
  ultimately show ?thesis by simp
qed

lemma mesh_send_kept:
  assumes ok: "client_ok None s"
  shows "others_kept True node s (fst (mesh_send_encrypted ev node payload now s))"
  unfolding mesh_send_encrypted_def
proof (rule kept_bind)
  let ?m = "peer_step node (\<lambda>c. (c, Some (mc_tunnel c)))"
  have kept: "others_kept True node s (fst (?m s))"
    by (rule keepsD [OF keeps_unrelated [OF unrelated_sends(4)] others_kept_refl [OF ok]])
  then show "others_kept True node s s1" if "?m s = (s1, acts, None)" for s1 acts using that by simp
  show "own_tunnel True node s v s1" if m: "?m s = (s1, acts, Some v)" for v s1 acts
  proof -
    from m obtain c where "map_of (cl_peer_clients s) node = Some (MeshPeer c)" "v = mc_tunnel c"
      by (auto simp: peer_step_def split: option.splits peer.splits)
    with client_okD(5) [OF ok] kept m show ?thesis by (fastforce simp: own_tunnel_def tunnel_at_def)
  qed
  show "keeps (own_tunnel True node s a) (s_bind (with_tunnel a (\<lambda>t. ce_write ev t payload))
         (\<lambda>encrypted. s_bind (s_opt (ser_MessagePayload (ce_codec ev) \<lparr>mp_type = ''mesh_secure'', mp_data = encrypted\<rparr>))
           (\<lambda>inner. s_bind (s_get (\<lambda>s. cc_name (cl_config s)))
             (\<lambda>name. s_bind (peer_encoded node
                        (\<lambda>e. encode (ce_codec ev) e MESSAGE inner None 0 (Some name) (Some node) True now))
               (\<lambda>packet. s_then (send_mesh_raw ev node packet)
                  (peer_step node (\<lambda>c. (mesh_count_sent packet c, Some ())))))))) " for a
    by (auto intro!: keeps_own_rules)
qed

text \<open>The node that a call is about: the sender of a message, or the target of a tunnel call.\<close>

fun call_node :: "('m, 'h, 't) client_env \<Rightarrow> client_call \<Rightarrow> string option" where
  "call_node ev (TransportEvent (LinkMessage bs) now) =
     (case decode_single (ce_codec ev) bs of Inl x \<Rightarrow> None | Inr m \<Rightarrow> Some (dm_route_src m))"
| "call_node ev (TunnelStart target now) = Some target"
| "call_node ev (SecureSend target t v now) = Some target"
| "call_node ev (MeshSend node payload now) = Some node"
| "call_node ev q = None"

lemmas unrelated = unrelated_calls [unfolded frame_on_def, rule_format] unrelated_p2p [unfolded frame_on_def, rule_format]

lemma call_kept:
  assumes ok: "client_ok None s" and q: "\<forall>sc. q \<noteq> Attempt sc"
  shows "case call_node ev q of
      Some node \<Rightarrow> others_kept (\<forall>target now. q \<noteq> TunnelStart target now) node s (do_client_call ev s q)
    | None \<Rightarrow> tunnel_key (do_client_call ev s q) = tunnel_key s"
proof (cases q)
  case (TransportEvent e now)
  show ?thesis
  proof (cases e)
    case (LinkMessage bs)
    then show ?thesis
      using TransportEvent message_kept [OF ok, of ev bs] by (auto simp: client_event_def s_ret_def split: sum.split)
  qed (simp_all add: TransportEvent client_event_def unrelated)
qed (use q in \<open>simp_all add: unrelated start_kept [OF ok] secure_send_kept [OF ok] mesh_send_kept [OF ok]\<close>)

section \<open>Properties\<close>

text \<open>
  C24. A tunnel belongs to one node: after any calls and events, no two nodes of a client share a
  tunnel, in its table or between the table and its mesh peers.  The next call or event - one single
  attempt of the reconnection loop apart, which is many events - leaves the tunnel of every node that
  it is not about in place and in its state, and only \<open>establish_mesh_tunnel\<close> replaces one: neither
  a packet of the node itself, of whatever kind, nor a message to it does.
\<close>

theorem tunnels_stay_apart:
  assumes run: "s = foldl (do_client_call ev) (new_client h1 h2 h3 cf) calls"
    and call: "\<forall>sc. q \<noteq> Attempt sc" "s' = do_client_call ev s q"
  shows "(tunnel_at i s = Some a \<and> tunnel_at j s = Some a \<longrightarrow> i = j)
    \<and> (map_of (cl_peer_clients s) i = Some (MeshPeer c) \<and> tunnel_at j s = Some (mc_tunnel c) \<longrightarrow> i = j)
    \<and> (map_of (cl_peer_clients s) i = Some (MeshPeer c) \<and> map_of (cl_peer_clients s) j = Some (MeshPeer c')
        \<and> mc_tunnel c = mc_tunnel c' \<longrightarrow> i = j)
    \<and> (call_node ev q \<noteq> Some j \<longrightarrow> tunnel_at j s' = tunnel_at j s
        \<and> (tunnel_at j s = Some a \<longrightarrow> cl_tunnels s' ! a = cl_tunnels s ! a))
    \<and> ((\<forall>now. q \<noteq> TunnelStart j now) \<and> tunnel_at j s = Some a \<longrightarrow> tunnel_at j s' = Some a)"
proof -
  have ok: "client_ok None s" unfolding run by (rule client.run_inv [OF new_client_ok])
  note kept = call_kept [OF ok call(1), of ev, folded call(2)]
  have "(call_node ev q \<noteq> Some j \<longrightarrow> tunnel_at j s' = tunnel_at j s
        \<and> (tunnel_at j s = Some a \<longrightarrow> cl_tunnels s' ! a = cl_tunnels s ! a))
    \<and> ((\<forall>now. q \<noteq> TunnelStart j now) \<and> tunnel_at j s = Some a \<longrightarrow> tunnel_at j s' = Some a)"
  proof (cases "call_node ev q")
    case None
    with kept show ?thesis by (simp add: tunnel_key_def tunnel_at_def)
  next
    case (Some node)
    have start: "q = TunnelStart target now \<Longrightarrow> target = node" for target now using Some by simp
    from Some kept have "others_kept (\<forall>target now. q \<noteq> TunnelStart target now) node s s'" by simp
    with Some start show ?thesis unfolding others_kept_def by (cases "j = node") (simp, metis, simp)
  qed
  with client_okD(4-6) [OF ok] show ?thesis unfolding tunnel_at_def by blast
qed

text \<open>Two tunnels, and a third node whose call leaves them alone.\<close>

theorem tunnels_stay_apart_witness:
  "\<exists>s. s = foldl (do_client_call (client_env_of reply_codec)) (new_client 0 1 2 sample_config)
        [TunnelStart ''b'' 0, TunnelStart ''c'' 0]
    \<and> tunnel_at ''b'' s = Some 0 \<and> tunnel_at ''c'' s = Some 1
    \<and> tunnel_at ''b'' (do_client_call (client_env_of reply_codec) s (TunnelStart ''c'' 1)) = Some 0
    \<and> cl_tunnels (do_client_call (client_env_of reply_codec) s (TunnelStart ''c'' 1)) ! 0 = cl_tunnels s ! 0"
proof -
  let ?s = "foldl (do_client_call (client_env_of reply_codec)) (new_client 0 1 2 sample_config)
        [TunnelStart ''b'' 0, TunnelStart ''c'' 0]"
  have t: "tunnel_at ''b'' ?s = Some 0" "tunnel_at ''c'' ?s = Some 1"
    by (simp_all add: mesh_tunnel_start_def s_bind_def put_new_tunnel_def with_tunnel_def client_env_of_def s_ret_def
        new_client_def tunnel_at_def)
  have "\<forall>sc. TunnelStart ''c'' 1 \<noteq> Attempt sc" by simp
  from tunnels_stay_apart [where ev = "client_env_of reply_codec" and ?h1.0 = 0 and ?h2.0 = 1 and ?h3.0 = 2
      and cf = sample_config and calls = "[TunnelStart ''b'' 0, TunnelStart ''c'' 0]" and j = "''b''" and a = 0,
      OF refl this refl] t
  show ?thesis by (auto simp del: do_client_call.simps)
qed

text \<open>
  Disconnecting does not stop the local servers that wait for a peer: after any calls and events,
  \<open>disconnect\<close> forgets all of them and stops none, because it unpacks their tuples of three into two.
\<close>

lemma disconnect_leaves_p2p_servers:
  fixes ev :: "('m, 'h, 't) client_env"
  shows "let s = foldl (do_client_call ev) (new_client h1 h2 h3 cf) calls
   in (\<forall>n. CStopServer n \<notin> set (fst (snd (client_disconnect s))))
    \<and> cl_p2p_servers (fst (client_disconnect s)) = []"
proof -
  let ?s = "foldl (do_client_call ev) (new_client h1 h2 h3 cf) calls"
  have "client_ok None ?s" by (rule client.run_inv [OF new_client_ok])
  then have "stop_p2p_server (snd x) = ([] :: 'm client_action list)" if "x \<in> set (cl_p2p_servers ?s)" for x
    using that by (auto simp: client_ok_def p2p_tuple_def stop_p2p_server_def)
  moreover have "CStopServer n \<notin> set (cancel_future f :: 'm client_action list)" for n f
    by (auto simp: cancel_future_def split: future.splits)
  ultimately show ?thesis by (auto simp: client_disconnect_def Let_def)
qed

end
