(* ===== verification/Login.thy ===== *)
theory Login
  imports ClientProofs Protocol
begin

text \<open>
  The authentication exchange with both ends in place: the frame that \<open>_do_connect\<close> of
  \<open>src/conduit/client.py\<close> sends, what \<open>_process_message\<close> of \<open>src/conduit/server.py\<close> does with it, and
  what the client makes of the reply.
\<close>

section \<open>The messages of the exchange\<close>

definition auth_laws :: "codec \<Rightarrow> bool" where
  "auth_laws cd = ((\<forall>p bs. ser_AuthRequest cd p = Some bs \<longrightarrow> parse_AuthRequest cd bs = Some p)
     \<and> (\<forall>p bs. ser_AuthResponse cd p = Some bs \<longrightarrow> parse_AuthResponse cd bs = Some p))"

text \<open>What a receiver reads in a frame.\<close>

definition arrives :: "codec \<Rightarrow> bytes \<Rightarrow> MessageType \<Rightarrow> pyval \<Rightarrow> bool" where
  "arrives cd frame t v = (\<exists>m. decode_single cd frame = Inr m \<and> dm_payload m = v \<and> dm_message_type m = t
     \<and> \<not> dm_is_mesh m)"

lemma auth_request_arrives:
  assumes "encode_auth_request cd e hash info now = (Inr frame, e')"
    and "wire_laws cd" "framed_law cd" "auth_laws cd" and "length frame \<le> 100 * 1024 * 1024"
  shows "arrives cd frame AUTH_REQUEST
    (PDict [(''password_hash'', PStr hash), (''client_info'', str_dict (str_values cd info))])"
proof -
  from assms(1) obtain p where p: "ser_AuthRequest cd \<lparr>aq_password_hash = hash, aq_client_info = str_values cd info,
      aq_protocol_version = ''1.0''\<rparr> = Some p" and enc: "encode_plain cd e AUTH_REQUEST p None now = (Inr frame, e')"
    by (auto simp: encode_auth_request_def encode_serialized_def split: option.splits)
  from p assms(4) have "decode_payload cd AUTH_REQUEST p =
      Some (PDict [(''password_hash'', PStr hash), (''client_info'', str_dict (str_values cd info))])"
    by (simp add: decode_payload_def auth_laws_def)
  from frame_received [OF enc _ assms(2,3) this assms(5)] show ?thesis by (auto simp: arrives_def)
qed

lemma auth_response_arrives:
  assumes "encode_serialized cd e t (ser_AuthResponse cd r) None now = (Inr frame, e')"
    and "t = AUTH_SUCCESS \<or> t = AUTH_FAILURE"
    and "wire_laws cd" "framed_law cd" "auth_laws cd" and "length frame \<le> 100 * 1024 * 1024"
  shows "arrives cd frame t
    (PDict [(''success'', PBool (ar_success r)), (''session_token'', PStr (ar_session_token r)),
            (''server_info'', str_dict (ar_server_info r)), (''reason'', PStr (ar_reason r))])"
proof -
  from assms(1) obtain p where p: "ser_AuthResponse cd r = Some p"
    and enc: "encode_plain cd e t p None now = (Inr frame, e')"
    by (auto simp: encode_serialized_def split: option.splits)
  from p assms(2,5) have "decode_payload cd t p =
      Some (PDict [(''success'', PBool (ar_success r)), (''session_token'', PStr (ar_session_token r)),
            (''server_info'', str_dict (ar_server_info r)), (''reason'', PStr (ar_reason r))])"
    by (auto simp: decode_payload_def auth_laws_def)
  from frame_received [OF enc _ assms(3,4) this assms(6)] assms(2) show ?thesis by (auto simp: arrives_def)
qed

section \<open>The client's half\<close>

lemma connect_start_sent:
  assumes "do_connect_start ev link uid now s = (s1, acts @ [CSent frame], Some True)"
  shows "(\<exists>e'. encode_auth_request (ce_codec ev) (cl_encoder s) (auth_password_hash ev s) (auth_client_info s) now
        = (Inr frame, e'))
    \<and> cl_auth_future s1 = Some AuthPending \<and> cl_connection s1 = Some (new_connection [] uid now)
    \<and> cl_config s1 = cl_config s \<and> cl_connect_task s1 = cl_connect_task s"
proof -
  let ?s = "s\<lparr>cl_rust := True, cl_connection := Some (new_connection [] uid now), cl_auth_future := Some AuthPending\<rparr>"
  have keys: "auth_password_hash ev ?s = auth_password_hash ev s" "auth_client_info ?s = auth_client_info s"
    by (simp_all add: auth_password_hash_def auth_client_info_def)
  show ?thesis
    using assms
    by (auto simp: do_connect_start_def catch_with_def s_defs c_encoded_def c_rust_send_def keys
        split: option.splits prod.splits sum.splits bool.splits if_splits)
qed

section \<open>The server's half\<close>

lemma server_auth_event:
  assumes "arrives (ev_codec ev) frame AUTH_REQUEST (PDict [(''password_hash'', PStr hash), (''client_info'', PDict info)])"
    and "pool_get k (sv_pool sv) = Some c"
  shows "handle_event ev (MessageEvent k frame) now uid sv =
    s_bind (s_bind (s_get (auth_decision (ev_crypto ev) (PStr hash) info uid)) s_opt)
       (\<lambda>r. case r of
          Inl reason \<Rightarrow> auth_fail ev k reason now
        | Inr (token, user, profile, resumed) \<Rightarrow>
            auth_accept ev c k info token user profile resumed now) sv"
  using assms
  by (auto simp: arrives_def handle_event_def process_message_def s_bind_def [of "s_get (\<lambda>s. pool_get k (sv_pool s))"]
      s_get_def [of "\<lambda>s. pool_get k (sv_pool s)"] process_auth_request_def dict_has_def dict_get_def dict_get_default_def)

lemma auth_accept_sends:
  assumes "encode_auth_success (ev_codec ev) (sv_encoder sv) token
      [(''name'', PStr (sv_name sv)), (''version'', PStr (sv_version sv))] now = (Inr reply, e2)"
    and "ev_deliver ev k reply" and "pool_get k (sv_pool sv) = Some c" and "cn_id c = k"
  shows "\<exists>sv'. auth_accept ev c k info token user profile False now sv =
      (sv', Sent k reply # (if pl_on_connect (sv_pool sv) then [ConnectHooks k] else []), Some ())
    \<and> map_of (sv_valid_sessions sv') token = Some (user, profile) \<and> k \<in> authed sv'"
proof -
  let ?c = "set_session \<lparr>ss_session = new_session token k info now, ss_profile = profile\<rparr> c"
  let ?s1 = "sv\<lparr>sv_valid_sessions := AList.update token (user, profile) (sv_valid_sessions sv)\<rparr>"
  let ?s2 = "(put_conn ?c ?s1)\<lparr>sv_encoder := e2\<rparr>"
  let ?s3 = "?s2\<lparr>sv_heartbeat := hm_register now k (sv_heartbeat ?s2)\<rparr>"
  have id: "cn_id ?c = k" using assms(4) by (simp add: set_session_def)
  have "auth_accept ev c k info token user profile False now sv =
      (?s3, Sent k reply # (if pl_on_connect (sv_pool sv) then [ConnectHooks k] else []), Some ())"
    using assms(1,2) id
    by (simp add: auth_accept_def s_defs encoded_def rust_send_def run_connect_hooks_def Let_def)
  moreover have "map_of (sv_valid_sessions ?s3) token = Some (user, profile)"
    by (simp add: update_conv')
  moreover have "pool_get k (sv_pool ?s3) = Some ?c"
    using put_conn_found [of ?c ?s1] assms(3) id by simp
  then have "k \<in> authed ?s3" by (auto simp: authed_def is_authenticated_def set_session_def)
  ultimately show ?thesis by blast
qed

text \<open>The one way to the password check: no token that the table knows, and no user accounts.\<close>

lemma decision_by_password:
  assumes "sv_credentials sv = None" and "hex_law cr" and "ascii hash"
    and "\<forall>t v. dict_get info ''session_token'' = PStr t \<and> t \<noteq> [] \<longrightarrow> map_of (sv_valid_sessions sv) t = None"
  shows "auth_decision cr (PStr hash) info uid sv =
    Some (if hash = sha256_hex cr (utf8_encode (ah_password (sv_auth sv)))
          then Inr (uid, dict_get info ''username'', Some admin_profile, False) else Inl ''Invalid password'')"
  using assms
  by (auto simp: auth_decision_def Let_def verify_simple_def compare_digest_def hex_law_def
      split: pyval.split option.split)

section \<open>An outside world in which one login can be made\<close>

definition table_codec ::
  "(Packet \<times> bytes) list \<Rightarrow> (AuthRequestPayload \<times> bytes) list \<Rightarrow> (AuthResponsePayload \<times> bytes) list \<Rightarrow> codec" where
  "table_codec ps rs as = reply_codec
     \<lparr>ser_Packet := map_of ps, parse_Packet := map_of (map prod.swap ps),
      ser_MessagePayload := \<lambda>_. None, ser_RPCRequest := \<lambda>_. None, ser_RPCResponse := \<lambda>_. None,
      ser_AuthRequest := map_of rs, parse_AuthRequest := map_of (map prod.swap rs),
      ser_AuthResponse := map_of as, parse_AuthResponse := map_of (map prod.swap as)\<rparr>"

lemma map_of_swap:
  assumes "distinct (map snd xs)" and "map_of xs a = Some b"
  shows "map_of (map prod.swap xs) b = Some a"
proof -
  have "(b, a) \<in> set (map prod.swap xs)" using map_of_SomeD [OF assms(2)] by force
  moreover have "distinct (map fst (map prod.swap xs))" using assms(1) by (simp add: comp_def)
  ultimately show ?thesis by simp
qed

lemma table_codec_laws:
  assumes "distinct (map snd ps)" "distinct (map snd rs)" "distinct (map snd as)" and "\<forall>b \<in> snd ` set ps. length b < 4"
  shows "wire_laws (table_codec ps rs as)" "framed_law (table_codec ps rs as)" "auth_laws (table_codec ps rs as)"
proof -
  show "wire_laws (table_codec ps rs as)" "auth_laws (table_codec ps rs as)"
    using assms(1-3)
    by (auto simp: wire_laws_def packet_law_def message_law_def rpc_request_law_def rpc_response_law_def
        compression_law_def auth_laws_def table_codec_def reply_codec_def simp del: map_map intro: map_of_swap)
  have "frame_of b \<notin> snd ` set ps" for b using assms(4) length_frame_of [of b] by (metis not_add_less1)
  then show "framed_law (table_codec ps rs as)"
    by (auto simp: framed_law_def table_codec_def map_of_eq_None_iff image_image)
qed

definition login_request :: "bool \<Rightarrow> AuthRequestPayload" where
  "login_request fresh = \<lparr>aq_password_hash = (if fresh then ''ab'' else []),
     aq_client_info = [(''name'', ''c''), (''version'', ''1'')] @ (if fresh then [] else [(''session_token'', ''old'')]),
     aq_protocol_version = ''1.0''\<rparr>"

definition login_reply :: "bool \<Rightarrow> AuthResponsePayload" where
  "login_reply ok =
     (if ok then auth_response\<lparr>ar_success := True, ar_session_token := ''tok'',
        ar_server_info := [(''name'', ''srv''), (''version'', ''1'')], ar_heartbeat_interval := 30\<rparr>
      else auth_response\<lparr>ar_success := False, ar_reason := ''Invalid password''\<rparr>)"

definition login_codec :: codec where
  "login_codec = table_codec
     [(build_packet AUTH_REQUEST [5] None 0 None None False 0, [9]),
      (build_packet AUTH_REQUEST [4] None 0 None None False 0, [8]),
      (build_packet AUTH_SUCCESS [6] None 0 None None False 7, [10]),
      (build_packet AUTH_FAILURE [7] None 0 None None False 7, [11])]
     [(login_request True, [5]), (login_request False, [4])]
     [(login_reply True, [6]), (login_reply False, [7])]"

lemma login_codec_laws: "wire_laws login_codec" "framed_law login_codec" "auth_laws login_codec"
  unfolding login_codec_def by (rule table_codec_laws; simp)+

definition login_server :: "(nat, nat, unit) Server" where
  "login_server = sample_server\<lparr>sv_pool := (pool_set_callbacks True True (new_pool 4))
     \<lparr>pl_connections := [(''a'', new_connection ''a'' [] 0)]\<rparr>\<rparr>"

lemma login_server_simps:
  "pool_get ''a'' (sv_pool login_server) = Some (new_connection ''a'' [] 0)"
  "cn_id (new_connection ''a'' [] 0) = ''a''" "sv_credentials login_server = None"
  "sv_valid_sessions login_server = []" "sv_name login_server = ''srv''" "sv_version login_server = ''1''"
  "sv_encoder login_server = new_encoder False" "pl_on_connect (sv_pool login_server)"
  by (simp_all add: login_server_def sample_server_def server_start_def new_server_def pool_get_def new_connection_def
      pool_set_callbacks_def new_pool_def)

lemma login_replies:
  "encode_auth_success login_codec (new_encoder False) ''tok'' [(''name'', PStr ''srv''), (''version'', PStr ''1'')] 7
     = (Inr (frame_of [10]), new_encoder False)"
  "encode_auth_failure login_codec (new_encoder False) ''Invalid password'' 7 = (Inr (frame_of [11]), new_encoder False)"
  by (simp_all add: encode_auth_success_def encode_auth_failure_def encode_simps new_encoder_def login_codec_def
      table_codec_def login_reply_def auth_response_def str_values_def py_str_def build_packet_def
      frame_of_def to_bytes_be_def be_digits_numeral now_ms_def)

definition login_client :: "bool \<Rightarrow> (nat, nat, bytes) Client" where
  "login_client fresh = sample_client\<lparr>cl_cached_session_token := (if fresh then PNone else PStr ''old'')\<rparr>"

lemma login_start_by:
  "\<exists>s1 acts. do_connect_start (client_env_of login_codec) (Some True) ''u'' 0
       ((login_client fresh)\<lparr>cl_connect_task := task, cl_should_reconnect := True\<rparr>)
     = (s1, acts @ [CSent (frame_of [if fresh then 9 else 8])], Some True)"
proof -
  have "encode_auth_request login_codec (new_encoder False) (if fresh then ''ab'' else [])
      ([(''name'', PStr ''c''), (''version'', PStr ''1'')] @ (if fresh then [] else [(''session_token'', PStr ''old'')])) 0
    = (Inr (frame_of [if fresh then 9 else 8]), new_encoder False)"
    by (cases fresh)
      (simp_all add: encode_auth_request_def encode_simps new_encoder_def login_codec_def
        table_codec_def login_request_def str_values_def py_str_def build_packet_def
        frame_of_def to_bytes_be_def be_digits_numeral now_ms_def)
  then show ?thesis
    by (cases fresh)
      (simp_all add: do_connect_start_def catch_with_def s_defs c_encoded_def c_rust_send_def client_env_of_def
        login_client_def sample_client_def new_client_def sample_config_def is_loopback_def lower_def
        auth_password_hash_def auth_client_info_def)
qed

lemma login_start:
  "\<exists>s1 acts. do_connect_start (client_env_of login_codec) (Some True) ''u'' 0 (login_client fresh)
     = (s1, acts @ [CSent (frame_of [if fresh then 9 else 8])], Some True)"
proof -
  have "(login_client fresh)\<lparr>cl_connect_task := None, cl_should_reconnect := True\<rparr> = login_client fresh"
    by (simp add: login_client_def sample_client_def new_client_def)
  with login_start_by [of None fresh] show ?thesis by simp
qed

section \<open>Properties\<close>

definition sent_info :: "codec \<Rightarrow> ('m, 'h, 't) Client \<Rightarrow> (string, pyval) dict" where
  "sent_info cd s = map (\<lambda>(k, v). (k, PStr (py_str cd v))) (auth_client_info s)"

lemma sent_info_dict: "str_dict (str_values cd (auth_client_info s)) = PDict (sent_info cd s)"
  by (simp add: str_dict_def str_values_def sent_info_def split_def comp_def)

lemma sent_token:
  "dict_get (sent_info cd s) ''session_token'' =
     (if truthy (cl_cached_session_token s) then PStr (py_str cd (cl_cached_session_token s)) else PNone)"
  by (auto simp: sent_info_def auth_client_info_def dict_get_def split: option.split)

lemma py_str_simps [simp]: "py_str cd (PStr t) = t"
  by (simp add: py_str_def)

lemma auth_success_event:
  assumes "arrives (ce_codec ev) frame AUTH_SUCCESS (PDict d)" and "dict_get_default d ''server_info'' (PDict []) = PDict info"
    and "cl_auth_future s = Some AuthPending" and "cl_connection s = Some c"
  shows "client_events ev [(LinkMessage frame, now)] s =
    (s\<lparr>cl_session_token := dict_get d ''session_token'', cl_cached_session_token := dict_get d ''session_token'',
       cl_server_info := info, cl_connection := Some (set_session (dict_get d ''session_token'') c),
       cl_auth_future := Some (AuthResult True)\<rparr>, [])"
  using assms
  by (auto simp: arrives_def client_event_def client_process_message_def process_direct_def c_auth_success_def
      set_auth_def as_dict_def s_defs)

text \<open>
  C2. The right password logs in: the frame that \<open>connect\<close> sends, arriving at a server with the same
  password, authenticates the connection it came over and enters a session; the reply, arriving at
  the client, ends \<open>connect\<close> with True, the same token on both sides, and the connect hooks run.
\<close>

theorem login_end_to_end:
  assumes start: "do_connect_start cev link uid t0 s = (s1, acts @ [CSent frame], Some True)"
    and fresh: "\<not> truthy (cl_cached_session_token s)"
    and codecs: "ce_codec cev = cd" "ev_codec ev = cd" "wire_laws cd" "framed_law cd" "auth_laws cd"
    and sizes: "length frame \<le> 100 * 1024 * 1024" "length reply \<le> 100 * 1024 * 1024"
    and peer: "pool_get k (sv_pool sv) = Some c" "cn_id c = k" "ev_deliver ev k reply"
    and hash: "hex_law (ev_crypto ev)" "sv_credentials sv = None"
      "ce_sha256 cev (cc_password (cl_config s)) = sha256_hex (ev_crypto ev) (utf8_encode (ah_password (sv_auth sv)))"
    and answered: "encode_auth_success cd (sv_encoder sv) token
        [(''name'', PStr (sv_name sv)), (''version'', PStr (sv_version sv))] t1 = (Inr reply, e2)"
  shows "\<exists>sv' s2 s3 d. handle_event ev (MessageEvent k frame) t1 token sv =
      (sv', Sent k reply # (if pl_on_connect (sv_pool sv) then [ConnectHooks k] else []), Some ())
    \<and> k \<in> authed sv' \<and> dict_has (sv_valid_sessions sv') token
    \<and> client_events cev [(LinkMessage reply, t2)] s1 = (s2, [])
    \<and> do_connect_finish s2 = (s3, [CHooks ConnectHook], Some True)
    \<and> cl_session_token s3 = PStr token \<and> cl_cached_session_token s3 = PStr token
    \<and> cl_connection s3 = Some d \<and> is_authenticated d"
proof -
  let ?hash = "ce_sha256 cev (cc_password (cl_config s))"
  from connect_start_sent [OF start] fresh codecs(1) obtain e1 where
    enc: "encode_auth_request cd (cl_encoder s) ?hash (auth_client_info s) t0 = (Inr frame, e1)"
    and s1: "cl_auth_future s1 = Some AuthPending" "cl_connection s1 = Some (new_connection [] uid t0)"
    by (auto simp: auth_password_hash_def)
  from auth_request_arrives [OF enc codecs(3-5) sizes(1)] codecs(2) have
    arr: "arrives (ev_codec ev) frame AUTH_REQUEST
      (PDict [(''password_hash'', PStr ?hash), (''client_info'', PDict (sent_info cd s))])"
    by (simp add: sent_info_dict)
  have "ascii ?hash" using hash(1,3) by (simp add: hex_law_def)
  from decision_by_password [OF hash(2,1) this, of "sent_info cd s" token] hash(3) fresh have
    "auth_decision (ev_crypto ev) (PStr ?hash) (sent_info cd s) token sv =
      Some (Inr (token, dict_get (sent_info cd s) ''username'', Some admin_profile, False))"
    by (simp add: sent_token)
  then have "handle_event ev (MessageEvent k frame) t1 token sv =
      auth_accept ev c k (sent_info cd s) token (dict_get (sent_info cd s) ''username'') (Some admin_profile) False t1 sv"
    using server_auth_event [OF arr peer(1), of t1 token] by (simp add: s_bind_def s_get_def s_opt_def split: prod.split)
  with auth_accept_sends [OF _ peer(3,1,2)] answered codecs(2) obtain sv' where
    sv': "handle_event ev (MessageEvent k frame) t1 token sv =
      (sv', Sent k reply # (if pl_on_connect (sv_pool sv) then [ConnectHooks k] else []), Some ())"
      "k \<in> authed sv'" "dict_has (sv_valid_sessions sv') token"
    by (fastforce simp: dict_has_def)
  let ?info = "map (\<lambda>(k, v). (k, PStr v)) (str_values cd
      [(''name'', PStr (sv_name sv)), (''version'', PStr (sv_version sv))])"
  let ?d = "[(''success'', PBool True), (''session_token'', PStr token), (''server_info'', PDict ?info), (''reason'', PStr [])]"
  have "arrives (ce_codec cev) reply AUTH_SUCCESS (PDict ?d)"
    using auth_response_arrives [OF answered [unfolded encode_auth_success_def] _ codecs(3-5) sizes(2)] codecs(1)
    by (simp add: auth_response_def str_dict_def)
  from auth_success_event [OF this _ s1, of ?info t2] have
    "client_events cev [(LinkMessage reply, t2)] s1 =
      (s1\<lparr>cl_session_token := PStr token, cl_cached_session_token := PStr token, cl_server_info := ?info,
          cl_connection := Some (set_session (PStr token) (new_connection [] uid t0)),
          cl_auth_future := Some (AuthResult True)\<rparr>, [])"
    by (simp add: dict_get_default_def dict_get_def)
  with sv' show ?thesis
    by (simp add: do_connect_finish_def catch_with_def s_defs is_authenticated_def mark_authenticated_def)
qed

theorem login_end_to_end_witness:
  "\<exists>s1 acts frame sv' s2 s3 d. do_connect_start (client_env_of login_codec) (Some True) ''u'' 0 (login_client True)
      = (s1, acts @ [CSent frame], Some True)
    \<and> handle_event (sample_env login_codec) (MessageEvent ''a'' frame) 7 ''tok'' login_server
      = (sv', [Sent ''a'' (frame_of [10]), ConnectHooks ''a''], Some ())
    \<and> client_events (client_env_of login_codec) [(LinkMessage (frame_of [10]), 8)] s1 = (s2, [])
    \<and> do_connect_finish s2 = (s3, [CHooks ConnectHook], Some True)
    \<and> cl_session_token s3 = PStr ''tok'' \<and> cl_connection s3 = Some d \<and> is_authenticated d"
proof -
  obtain s1 acts where start: "do_connect_start (client_env_of login_codec) (Some True) ''u'' 0 (login_client True)
      = (s1, acts @ [CSent (frame_of [9])], Some True)" using login_start [of True] by auto
  have "\<exists>sv' s2 s3 d. handle_event (sample_env login_codec) (MessageEvent ''a'' (frame_of [9])) 7 ''tok'' login_server =
      (sv', Sent ''a'' (frame_of [10]) # (if pl_on_connect (sv_pool login_server) then [ConnectHooks ''a''] else []), Some ())
    \<and> ''a'' \<in> authed sv' \<and> dict_has (sv_valid_sessions sv') ''tok''
    \<and> client_events (client_env_of login_codec) [(LinkMessage (frame_of [10]), 8)] s1 = (s2, [])
    \<and> do_connect_finish s2 = (s3, [CHooks ConnectHook], Some True)
    \<and> cl_session_token s3 = PStr ''tok'' \<and> cl_cached_session_token s3 = PStr ''tok''
    \<and> cl_connection s3 = Some d \<and> is_authenticated d"
    by (rule login_end_to_end [OF start _ _ _ login_codec_laws _ _ login_server_simps(1,2)])
      (simp_all add: login_client_def client_env_of_def sample_env_def login_server_simps login_replies
        hex_law_def sample_crypto_def ascii_def of_char_def)
  with start show ?thesis by (simp only: login_server_simps if_True) blast
qed

text \<open>
  C36. A session token that the server no longer knows - it has restarted - ends reconnecting: the
  client sends the token with an empty password hash, the server refuses, and the client disconnects
  for good, although the password it has would have been accepted.
\<close>

theorem stale_token_ends_reconnecting:
  assumes start: "do_connect_start cev link uid t0 s = (s1, acts @ [CSent frame], Some True)"
    and stale: "cl_cached_session_token s = PStr t" "t \<noteq> []" "map_of (sv_valid_sessions sv) t = None"
    and codecs: "ce_codec cev = cd" "ev_codec ev = cd" "wire_laws cd" "framed_law cd" "auth_laws cd"
    and sizes: "length frame \<le> 100 * 1024 * 1024" "length reply \<le> 100 * 1024 * 1024"
    and peer: "pool_get k (sv_pool sv) = Some c" "ev_deliver ev k reply"
    and hash: "hex_law (ev_crypto ev)" "sv_credentials sv = None" "sha256_hex (ev_crypto ev) b \<noteq> []"
      "b = utf8_encode (ah_password (sv_auth sv))"
    and right: "ce_sha256 cev (cc_password (cl_config s)) = sha256_hex (ev_crypto ev) b"
    and answered: "encode_auth_failure cd (sv_encoder sv) ''Invalid password'' t1 = (Inr reply, e2)"
  shows "fst (snd (handle_event ev (MessageEvent k frame) t1 token sv)) = [Sent k reply]
    \<and> (\<exists>s2 s3 a3. client_events cev [(LinkMessage reply, t2)] s1 = (s2, [])
        \<and> do_connect_finish s2 = (s3, a3, Some False) \<and> \<not> may_retry s3 \<and> \<not> client_is_connected s3)
    \<and> auth_decision (ev_crypto ev) (PStr (ce_sha256 cev (cc_password (cl_config s)))) [] token sv =
        Some (Inr (token, PNone, Some admin_profile, False))"
proof (intro conjI)
  from connect_start_sent [OF start] stale(1,2) codecs(1) obtain e1 where
    enc: "encode_auth_request cd (cl_encoder s) [] (auth_client_info s) t0 = (Inr frame, e1)"
    and s1: "cl_auth_future s1 = Some AuthPending" by (auto simp: auth_password_hash_def)
  from auth_request_arrives [OF enc codecs(3-5) sizes(1)] codecs(2) have
    arr: "arrives (ev_codec ev) frame AUTH_REQUEST
      (PDict [(''password_hash'', PStr []), (''client_info'', PDict (sent_info cd s))])"
    by (simp add: sent_info_dict)
  have "ascii []" by (simp add: ascii_def)
  from decision_by_password [OF hash(2,1) this, of "sent_info cd s" token] hash(3,4) stale have
    "auth_decision (ev_crypto ev) (PStr []) (sent_info cd s) token sv = Some (Inl ''Invalid password'')"
    by (simp add: sent_token)
  then have "handle_event ev (MessageEvent k frame) t1 token sv = auth_fail ev k ''Invalid password'' t1 sv"
    using server_auth_event [OF arr peer(1), of t1 token] by (simp add: s_bind_def s_get_def s_opt_def split: prod.split)
  then show "fst (snd (handle_event ev (MessageEvent k frame) t1 token sv)) = [Sent k reply]"
    using answered peer(2) codecs(2)
    by (simp add: auth_fail_def s_defs encoded_def rust_send_def remove_from_pool_def split: option.split prod.split)
  from auth_response_arrives [OF answered [unfolded encode_auth_failure_def] _ codecs(3-5) sizes(2)] codecs(1)
  obtain m where m: "decode_single (ce_codec cev) reply = Inr m" "dm_message_type m = AUTH_FAILURE" "\<not> dm_is_mesh m"
    by (auto simp: arrives_def)
  from auth_failure_event [OF m s1, of t2] connect_finish_rejected [of "fst (client_events cev [(LinkMessage reply, t2)] s1)"]
  show "\<exists>s2 s3 a3. client_events cev [(LinkMessage reply, t2)] s1 = (s2, [])
        \<and> do_connect_finish s2 = (s3, a3, Some False) \<and> \<not> may_retry s3 \<and> \<not> client_is_connected s3"
    by (auto simp: client_disconnect_def may_retry_def client_is_connected_def)
  show "auth_decision (ev_crypto ev) (PStr (ce_sha256 cev (cc_password (cl_config s)))) [] token sv =
        Some (Inr (token, PNone, Some admin_profile, False))"
    using decision_by_password [OF hash(2,1), of "ce_sha256 cev (cc_password (cl_config s))" "[]" token] hash(1,4) right
    by (simp add: dict_get_def hex_law_def)
qed

theorem stale_token_ends_reconnecting_witness:
  "\<exists>s1 acts frame s2 s3 a3. do_connect_start (client_env_of login_codec) (Some True) ''u'' 0 (login_client False)
      = (s1, acts @ [CSent frame], Some True)
    \<and> fst (snd (handle_event (sample_env login_codec) (MessageEvent ''a'' frame) 7 ''tok'' login_server))
      = [Sent ''a'' (frame_of [11])]
    \<and> client_events (client_env_of login_codec) [(LinkMessage (frame_of [11]), 8)] s1 = (s2, [])
    \<and> do_connect_finish s2 = (s3, a3, Some False) \<and> \<not> may_retry s3"
proof -
  obtain s1 acts where start: "do_connect_start (client_env_of login_codec) (Some True) ''u'' 0 (login_client False)
      = (s1, acts @ [CSent (frame_of [8])], Some True)" using login_start [of False] by auto
  have "fst (snd (handle_event (sample_env login_codec) (MessageEvent ''a'' (frame_of [8])) 7 ''tok'' login_server))
      = [Sent ''a'' (frame_of [11])]
    \<and> (\<exists>s2 s3 a3. client_events (client_env_of login_codec) [(LinkMessage (frame_of [11]), 8)] s1 = (s2, [])
        \<and> do_connect_finish s2 = (s3, a3, Some False) \<and> \<not> may_retry s3 \<and> \<not> client_is_connected s3)
    \<and> auth_decision (ev_crypto (sample_env login_codec))
        (PStr (ce_sha256 (client_env_of login_codec) (cc_password (cl_config (login_client False))))) [] ''tok'' login_server =
        Some (Inr (''tok'', PNone, Some admin_profile, False))"
    by (rule stale_token_ends_reconnecting [OF start, where cd = login_codec and t = "''old''"
          and b = "utf8_encode (ah_password (sv_auth login_server))" and ?e2.0 = "new_encoder False"])
      (simp_all add: login_codec_laws login_client_def client_env_of_def sample_env_def login_server_simps login_replies
        hex_law_def sample_crypto_def ascii_def of_char_def)
  with start show ?thesis by blast
qed

lemma login_begin:
  "\<exists>s1 a1. connect_begin (client_env_of login_codec) (Some True) ''u'' 0 (login_client True) = (s1, a1, Some True)"
  using login_start_by [of "Some TaskRunning" True] by (auto simp: connect_begin_def s_defs)

text \<open>
  A connection whose password is refused cancels the task that asked for it: \<open>connect\<close> returns
  False, but on the way \<open>disconnect\<close> has called \<open>cancel\<close> on the task that is running \<open>connect\<close>, so
  the caller is cancelled at its next wait.
\<close>

lemma refused_connect_cancels_caller:
  assumes "connect_begin ev link uid t0 s = (s1, a1, Some True)"
    and "decode_single (ce_codec ev) frame = Inr m" and "dm_message_type m = AUTH_FAILURE" and "\<not> dm_is_mesh m"
    and "client_events ev [(LinkMessage frame, t1)] s1 = (s2, a2)"
  shows "\<exists>s3 a3. connect_end s2 = (s3, a3, Some False) \<and> CCancel ConnectTask \<in> set a3
    \<and> \<not> client_is_connected s3"
proof -
  have s1: "cl_auth_future s1 = Some AuthPending \<and> cl_connect_task s1 = Some TaskRunning"
    using assms(1)
    by (auto simp: connect_begin_def do_connect_start_def catch_with_def s_defs c_encoded_def c_rust_send_def
        split: option.splits prod.splits sum.splits bool.splits if_splits)
  then have s2: "s2 = s1\<lparr>cl_cached_session_token := PNone, cl_auth_future := Some (AuthResult False)\<rparr>"
    using auth_failure_event [OF assms(2-4), of s1 t1] assms(5) by simp
  then have "cl_auth_future s2 = Some (AuthResult False)" by simp
  from connect_finish_rejected [OF this] s1 s2 show ?thesis
    by (auto simp: connect_end_def s_defs client_disconnect_def client_is_connected_def)
qed

text \<open>
  A connection attempt that times out leaves a client that looks connected: \<open>connect\<close> returns
  False, the transport is not closed, and \<open>is_connected\<close> is True although nobody is authenticated.
\<close>

lemma timed_out_connect_looks_connected:
  assumes "connect_begin ev link uid t0 s = (s1, a1, Some True)"
  shows "\<exists>s2. connect_end s1 = (s2, [], Some False) \<and> client_is_connected s2 \<and> cl_rust s2
    \<and> (\<exists>c. cl_connection s2 = Some c \<and> \<not> is_authenticated c)"
proof -
  have "cl_auth_future s1 = Some AuthPending \<and> cl_rust s1
      \<and> (\<exists>c. cl_connection s1 = Some c \<and> \<not> is_authenticated c)"
    using assms
    by (auto simp: connect_begin_def do_connect_start_def catch_with_def s_defs c_encoded_def c_rust_send_def
        new_connection_def is_authenticated_def
        split: option.splits prod.splits sum.splits bool.splits if_splits)
  then show ?thesis
    by (auto simp: connect_end_def do_connect_finish_def catch_with_def s_defs client_is_connected_def)
qed

end
