(* ===== verification/MeshRelay.thy ===== *)
theory MeshRelay
  imports ClientProofs
begin

text \<open>
  Mesh packets between the server and a client that is not their destination: \<open>_process_message\<close> of
  \<open>src/conduit/server.py\<close> relays by its routing table, \<open>_route_mesh_message\<close> of \<open>src/conduit/client.py\<close>
  hands what it cannot place back to the server.
\<close>

text \<open>A connection that gave this name when it logged in.\<close>

definition goes_by :: "string \<Rightarrow> srv_session Connection \<Rightarrow> bool" where
  "goes_by name c = (case cn_session c of
      None \<Rightarrow> False
    | Some ss \<Rightarrow> se_client_info (ss_session ss) \<noteq> []
        \<and> dict_get (se_client_info (ss_session ss)) ''name'' = PStr name)"

text \<open>A destination the server reaches only through the connection \<open>k\<close>.\<close>

definition behind :: "string \<Rightarrow> string \<Rightarrow> ('m, 'h, 't) Server \<Rightarrow> bool" where
  "behind k dst s = (dst \<noteq> sv_name s \<and> pool_get dst (sv_pool s) = None
     \<and> (\<forall>c \<in> set (pool_get_all (sv_pool s)). \<not> goes_by dst c)
     \<and> map_of (sv_mesh_routing s) dst = Some k \<and> k \<noteq> []
     \<and> (\<exists>c. pool_get k (sv_pool s) = Some c \<and> cn_id c = k))"

lemma relay_behind:
  assumes "behind k dst s" and "pool_get k (sv_pool s) = Some c"
  shows "relay_target dst s = Some c"
proof -
  have "find (goes_by dst) (pool_get_all (sv_pool s)) = None"
    using assms(1) by (simp add: behind_def find_None_iff)
  then show ?thesis using assms by (simp add: relay_target_def behind_def goes_by_def [abs_def])
qed

lemma server_relays:
  assumes "behind k (dm_route_dst m) s" and "decode_single (ev_codec ev) raw = Inr m"
    and "dm_is_mesh m" and "dm_message_type m \<noteq> AUTH_REQUEST" and "ev_deliver ev k raw"
  shows "\<exists>s'. handle_event ev (MessageEvent k raw) now uid s = (s', [Sent k raw], Some ()) \<and> behind k (dm_route_dst m) s'"
proof -
  obtain c where c: "pool_get k (sv_pool s) = Some c" "cn_id c = k" using assms(1) by (auto simp: behind_def)
  let ?s = "if dm_route_src m \<noteq> [] \<and> dm_route_src m \<noteq> k
            then s\<lparr>sv_mesh_routing := AList.update (dm_route_src m) k (sv_mesh_routing s)\<rparr> else s"
  have b: "behind k (dm_route_dst m) ?s" using assms(1) by (simp add: behind_def update_conv')
  have "pool_get k (sv_pool ?s) = Some c" "sv_name ?s = sv_name s" using c by simp_all
  with relay_behind [OF b] have r: "relay_target (dm_route_dst m) ?s = Some c" by simp
  have dst: "dm_route_dst m \<noteq> sv_name s" using assms(1) by (simp add: behind_def)
  have "process_mesh ev k c m raw now s = (?s, [Sent k raw], Some True)"
    using r dst c assms(5) by (simp add: process_mesh_def s_defs rust_send_def)
  then have "handle_event ev (MessageEvent k raw) now uid s = (?s, [Sent k raw], Some ())"
    using assms(2-4) c(1)
    by (simp add: handle_event_def process_message_def s_bind_def [of "s_get f" for f] s_get_def s_bind_def s_ret_def)
  with b show ?thesis by blast
qed

lemma client_relays:
  assumes "decode_single (ce_codec cev) raw = Inr m" and "dm_is_mesh m" and "dm_route_dst m \<noteq> cc_name (cl_config c)"
    and "map_of (cl_peer_clients c) (dm_route_dst m) = None" and "cl_rust c" and "ce_deliver cev raw"
  shows "client_event cev (LinkMessage raw) now c = (c, [CSent raw], Some ())"
  using assms by (simp add: client_event_def route_mesh_message_def c_rust_send_def s_defs)

text \<open>The packet goes to the server, from there to the client, and so on, \<open>n\<close> times.\<close>

fun bounce ::
  "('m, 'h, 't) server_env \<Rightarrow> ('n, 'i, 'u) client_env \<Rightarrow> string \<Rightarrow> bytes \<Rightarrow> (nat \<Rightarrow> time) \<Rightarrow> nat
     \<Rightarrow> ('m, 'h, 't) Server \<Rightarrow> ('n, 'i, 'u) Client \<Rightarrow> ('m action list \<times> 'n client_action list) list" where
  "bounce ev cev k raw clock 0 s c = []"
| "bounce ev cev k raw clock (Suc n) s c =
     (case handle_event ev (MessageEvent k raw) (clock n) [] s of
        (s', a, r) \<Rightarrow>
          (case client_event cev (LinkMessage raw) (clock n) c of
             (c', b, r') \<Rightarrow> (a, b) # bounce ev cev k raw clock n s' c'))"

text \<open>
  A mesh packet that neither end can place is passed back and forth for ever: when the server's
  only route to a destination leads to a client that does not know it, each sends the same bytes to
  the other, with nothing that counts the hops.
\<close>

lemma mesh_packet_bounces:
  assumes "behind k (dm_route_dst m) s" and "decode_single (ev_codec ev) raw = Inr m"
    and "dm_is_mesh m" and "dm_message_type m \<noteq> AUTH_REQUEST" and "ev_deliver ev k raw"
    and "ce_codec cev = ev_codec ev" and "dm_route_dst m \<noteq> cc_name (cl_config c)"
    and "map_of (cl_peer_clients c) (dm_route_dst m) = None" and "cl_rust c" and "ce_deliver cev raw"
  shows "bounce ev cev k raw clock n s c = replicate n ([Sent k raw], [CSent raw])"
  using assms(1)
proof (induction n arbitrary: s)
  case (Suc n)
  from server_relays [OF Suc.prems assms(2-5)] obtain s' where
    s': "handle_event ev (MessageEvent k raw) (clock n) [] s = (s', [Sent k raw], Some ())" "behind k (dm_route_dst m) s'"
    by blast
  have "decode_single (ce_codec cev) raw = Inr m" using assms(2,6) by simp
  from client_relays [OF this assms(3,7-10)] Suc.IH [OF s'(2)] s'(1) show ?case by simp
qed simp

definition lost_packet :: Packet where
  "lost_packet = build_packet PAUSE [] None 0 (Some ''x'') (Some ''gone'') True 0"

definition lost_codec :: codec where
  "lost_codec = reply_codec\<lparr>parse_Packet := \<lambda>b. Some lost_packet\<rparr>"

end
