(* ===== verification/Tcp.thy ===== *)
theory Tcp
  imports Prelude "HOL-Library.Sublist"
begin

text \<open>
  \<open>src/conduit/transport/tcp_socket.py\<close>, the socket: \<open>TCPSocket\<close> over the stream reader and writer of
  \<open>asyncio\<close>, which are modelled as the standard library has them: a reader is a buffer that the
  transport fills, an end-of-file flag and a stored exception; a writer forwards bytes until its
  transport is lost.  A read that has to wait is a value of its own.  What the operating system does
  to a write is an argument.
\<close>

section \<open>The reader\<close>

datatype os_error = ConnReset | ConnAborted | BrokenPipe | OtherOS string

datatype io_error =
    OS os_error
  | Incomplete bytes int \<comment> \<open>\<open>IncompleteReadError(partial, expected)\<close>\<close>
  | LineTooLong \<comment> \<open>the ValueError of \<open>readline\<close>\<close>
  | NegativeCount

record StreamReader =
  sr_buffer :: bytes
  sr_eof :: bool
  sr_exception :: "os_error option"
  sr_limit :: nat

definition new_reader :: StreamReader where
  "new_reader = \<lparr>sr_buffer = [], sr_eof = False, sr_exception = None, sr_limit = 65536\<rparr>"

datatype read_result = Got bytes | Waits | Fails io_error

text \<open>What the transport reports.\<close>

datatype feed_event = FeedData bytes | FeedEof | FeedError os_error

fun feed_reader :: "feed_event \<Rightarrow> StreamReader \<Rightarrow> StreamReader" where
  "feed_reader (FeedData bs) r = r\<lparr>sr_buffer := sr_buffer r @ bs\<rparr>"
| "feed_reader FeedEof r = r\<lparr>sr_eof := True\<rparr>"
| "feed_reader (FeedError x) r = r\<lparr>sr_exception := Some x\<rparr>"

definition reader_read :: "int \<Rightarrow> StreamReader \<Rightarrow> StreamReader \<times> read_result" where
  "reader_read n r =
     (case sr_exception r of
        Some x \<Rightarrow> (r, Fails (OS x))
      | None \<Rightarrow>
          if n = 0 then (r, Got [])
          else if n < 0 then
            (if sr_eof r then (r\<lparr>sr_buffer := []\<rparr>, Got (sr_buffer r)) else (r, Waits))
          else if sr_buffer r = [] \<and> \<not> sr_eof r then (r, Waits)
          else (r\<lparr>sr_buffer := drop (nat n) (sr_buffer r)\<rparr>, Got (take (nat n) (sr_buffer r))))"

definition reader_readexactly :: "int \<Rightarrow> StreamReader \<Rightarrow> StreamReader \<times> read_result" where
  "reader_readexactly n r =
     (if n < 0 then (r, Fails NegativeCount)
      else case sr_exception r of
        Some x \<Rightarrow> (r, Fails (OS x))
      | None \<Rightarrow>
          if n = 0 then (r, Got [])
          else if n \<le> int (length (sr_buffer r)) then
            (r\<lparr>sr_buffer := drop (nat n) (sr_buffer r)\<rparr>, Got (take (nat n) (sr_buffer r)))
          else if sr_eof r then (r\<lparr>sr_buffer := []\<rparr>, Fails (Incomplete (sr_buffer r) n))
          else (r, Waits))"

text \<open>The separator is the line feed; a line longer than the limit is thrown away.\<close>

definition reader_readline :: "StreamReader \<Rightarrow> StreamReader \<times> read_result" where
  "reader_readline r =
     (case sr_exception r of
        Some x \<Rightarrow> (r, Fails (OS x))
      | None \<Rightarrow>
          (let line = takeWhile (\<lambda>b. b \<noteq> 10) (sr_buffer r);
               rest = drop (Suc (length line)) (sr_buffer r)
           in if 10 \<in> set (sr_buffer r) then
                (if sr_limit r < length line then (r\<lparr>sr_buffer := rest\<rparr>, Fails LineTooLong)
                 else (r\<lparr>sr_buffer := rest\<rparr>, Got (line @ [10])))
              else if sr_limit r < length (sr_buffer r) then (r\<lparr>sr_buffer := []\<rparr>, Fails LineTooLong)
              else if sr_eof r then (r\<lparr>sr_buffer := []\<rparr>, Got (sr_buffer r))
              else (r, Waits)))"

definition reader_at_eof :: "StreamReader \<Rightarrow> bool" where
  "reader_at_eof r = (sr_eof r \<and> sr_buffer r = [])"

section \<open>The writer\<close>

record StreamWriter =
  sw_sent :: bytes
  sw_closing :: bool

text \<open>
  What a write and its drain do: \<open>WriteOk\<close> when both return, \<open>WriteLost x\<close> when the bytes go nowhere
  and \<open>drain\<close> raises \<open>x\<close>, \<open>DrainLost x\<close> when the bytes were taken and \<open>drain\<close> raises.
\<close>

datatype write_fate = WriteOk | WriteLost os_error | DrainLost os_error

text \<open>What \<open>get_extra_info\<close> gives: nothing, an address, or a value that cannot be indexed.\<close>

datatype extra_info = NoInfo | HostPort string int | BadInfo

section \<open>The socket\<close>

record TCPSocket =
  ts_reader :: StreamReader
  ts_writer :: StreamWriter
  ts_buffer_size :: int
  ts_closed :: bool
  ts_remote_address :: "(string \<times> int) option"
  ts_local_address :: "(string \<times> int) option"

text \<open>The two addresses: an exception in the first leaves both unset, in the second only that.\<close>

definition extract_addresses :: "extra_info \<Rightarrow> extra_info \<Rightarrow> (string \<times> int) option \<times> (string \<times> int) option" where
  "extract_addresses peer sock =
     (case peer of
        BadInfo \<Rightarrow> (None, None)
      | _ \<Rightarrow> (case peer of HostPort h p \<Rightarrow> Some (h, p) | _ \<Rightarrow> None,
              case sock of HostPort h p \<Rightarrow> Some (h, p) | _ \<Rightarrow> None))"

definition new_socket :: "StreamReader \<Rightarrow> StreamWriter \<Rightarrow> int \<Rightarrow> extra_info \<Rightarrow> extra_info \<Rightarrow> TCPSocket" where
  "new_socket r w bufsize peer sock =
     (case extract_addresses peer sock of
        (remote, local) \<Rightarrow>
          \<lparr>ts_reader = r, ts_writer = w, ts_buffer_size = bufsize, ts_closed = False,
           ts_remote_address = remote, ts_local_address = local\<rparr>)"

text \<open>\<open>connect\<close>: what is asked of \<open>open_connection\<close>, and the socket when it answers in time.\<close>

datatype address_family = AF_INET | AF_INET6

record open_request =
  or_host :: string
  or_port :: int
  or_family :: address_family
  or_ssl :: bool
  or_server_hostname :: "string option"

definition open_connection_request :: "string \<Rightarrow> int \<Rightarrow> bool \<Rightarrow> bool \<Rightarrow> open_request" where
  "open_connection_request host port use_ipv6 ssl =
     \<lparr>or_host = host, or_port = port, or_family = (if use_ipv6 then AF_INET6 else AF_INET),
      or_ssl = ssl, or_server_hostname = (if ssl then Some host else None)\<rparr>"

definition socket_connect ::
  "(open_request \<Rightarrow> (StreamReader \<times> StreamWriter \<times> extra_info \<times> extra_info) option)
     \<Rightarrow> string \<Rightarrow> int \<Rightarrow> bool \<Rightarrow> int \<Rightarrow> bool \<Rightarrow> TCPSocket option" where
  "socket_connect opened host port use_ipv6 bufsize ssl =
     map_option (\<lambda>(r, w, peer, sock). new_socket r w bufsize peer sock)
       (opened (open_connection_request host port use_ipv6 ssl))"

definition connection_lost :: "os_error \<Rightarrow> bool" where
  "connection_lost x = (x \<in> {ConnReset, ConnAborted, BrokenPipe})"

definition socket_read :: "int \<Rightarrow> TCPSocket \<Rightarrow> TCPSocket \<times> read_result" where
  "socket_read n s =
     (if ts_closed s then (s, Got [])
      else
        (case reader_read (if n \<le> 0 then ts_buffer_size s else n) (ts_reader s) of
           (r, Fails (OS x)) \<Rightarrow>
             if connection_lost x then (s\<lparr>ts_reader := r, ts_closed := True\<rparr>, Got [])
             else (s\<lparr>ts_reader := r\<rparr>, Fails (OS x))
         | (r, res) \<Rightarrow> (s\<lparr>ts_reader := r\<rparr>, res)))"

definition socket_read_exactly :: "int \<Rightarrow> TCPSocket \<Rightarrow> TCPSocket \<times> read_result" where
  "socket_read_exactly n s =
     (if ts_closed s then (s, Fails (Incomplete [] n))
      else (case reader_readexactly n (ts_reader s) of (r, res) \<Rightarrow> (s\<lparr>ts_reader := r\<rparr>, res)))"

definition socket_readline :: "TCPSocket \<Rightarrow> TCPSocket \<times> read_result" where
  "socket_readline s =
     (if ts_closed s then (s, Got [])
      else (case reader_readline (ts_reader s) of (r, res) \<Rightarrow> (s\<lparr>ts_reader := r\<rparr>, res)))"

definition socket_write :: "write_fate \<Rightarrow> bytes \<Rightarrow> TCPSocket \<Rightarrow> TCPSocket \<times> os_error option" where
  "socket_write fate bs s =
     (if ts_closed s then (s, Some ConnReset)
      else
        (let s1 = s\<lparr>ts_writer := (ts_writer s)\<lparr>sw_sent := sw_sent (ts_writer s) @ bs\<rparr>\<rparr>;
             failed = (\<lambda>s' x. (if connection_lost x then s'\<lparr>ts_closed := True\<rparr> else s', Some x))
         in case fate of
              WriteOk \<Rightarrow> (s1, None)
            | WriteLost x \<Rightarrow> failed s x
            | DrainLost x \<Rightarrow> failed s1 x))"

text \<open>\<open>close\<close>: what \<open>wait_closed\<close> raises is passed over.\<close>

definition socket_close :: "TCPSocket \<Rightarrow> TCPSocket" where
  "socket_close s =
     (if ts_closed s then s
      else s\<lparr>ts_closed := True, ts_writer := (ts_writer s)\<lparr>sw_closing := True\<rparr>\<rparr>)"

definition socket_is_closed :: "TCPSocket \<Rightarrow> bool" where
  "socket_is_closed s = (ts_closed s \<or> sw_closing (ts_writer s))"

definition socket_at_eof :: "TCPSocket \<Rightarrow> bool" where
  "socket_at_eof s = reader_at_eof (ts_reader s)"

section \<open>A run of the socket\<close>

datatype socket_op =
    Arrives feed_event
  | Read int
  | ReadExactly int
  | ReadLine
  | WriteBytes write_fate bytes
  | CloseSocket

text \<open>
  The socket with what arrived, what its reads gave - the partial read of an \<open>IncompleteReadError\<close>
  included - and what its writes were told to be written.
\<close>

type_synonym socket_run = "TCPSocket \<times> bytes \<times> bytes \<times> bytes"

definition arrived_bytes :: "feed_event \<Rightarrow> bytes" where
  "arrived_bytes q = (case q of FeedData bs \<Rightarrow> bs | _ \<Rightarrow> [])"

definition given_bytes :: "read_result \<Rightarrow> bytes" where
  "given_bytes r = (case r of Got bs \<Rightarrow> bs | Fails (Incomplete bs n) \<Rightarrow> bs | _ \<Rightarrow> [])"

fun socket_step :: "socket_run \<Rightarrow> socket_op \<Rightarrow> socket_run" where
  "socket_step (s, arr, given, wr) (Arrives q) = (s\<lparr>ts_reader := feed_reader q (ts_reader s)\<rparr>, arr @ arrived_bytes q, given, wr)"
| "socket_step (s, arr, given, wr) (Read n) = (case socket_read n s of (s', r) \<Rightarrow> (s', arr, given @ given_bytes r, wr))"
| "socket_step (s, arr, given, wr) (ReadExactly n) = (case socket_read_exactly n s of (s', r) \<Rightarrow> (s', arr, given @ given_bytes r, wr))"
| "socket_step (s, arr, given, wr) ReadLine = (case socket_readline s of (s', r) \<Rightarrow> (s', arr, given @ given_bytes r, wr))"
| "socket_step (s, arr, given, wr) (WriteBytes fate bs) =
     (case socket_write fate bs s of (s', x) \<Rightarrow> (s', arr, given, if x = None then wr @ bs else wr))"
| "socket_step (s, arr, given, wr) CloseSocket = (socket_close s, arr, given, wr)"

section \<open>Reading and writing in order\<close>

text \<open>What a read gives and what it leaves in the buffer make up what was there.\<close>

lemma given_simps [simp]:
  "given_bytes (Got bs) = bs" "given_bytes Waits = []" "given_bytes (Fails (OS x)) = []"
  "given_bytes (Fails (Incomplete bs n)) = bs" "given_bytes (Fails LineTooLong) = []"
  "given_bytes (Fails NegativeCount) = []"
  by (simp_all add: given_bytes_def)

lemma subseq_drop: "subseq (drop n xs) xs"
  by (metis append_take_drop_id list_emb_append2 subseq_order.order_refl)

lemma line_split:
  "10 \<in> set xs \<Longrightarrow> takeWhile (\<lambda>b. b \<noteq> 10) xs @ 10 # drop (Suc (length (takeWhile (\<lambda>b. b \<noteq> 10) xs))) xs = xs"
  for xs :: bytes
  by (induction xs) auto

lemma reads_split:
  "reader_read n r = (r', x) \<Longrightarrow> given_bytes x @ sr_buffer r' = sr_buffer r"
  "reader_readexactly n r = (r', x) \<Longrightarrow> given_bytes x @ sr_buffer r' = sr_buffer r"
  "reader_readline r = (r', x) \<Longrightarrow> subseq (given_bytes x @ sr_buffer r') (sr_buffer r)"
  by (auto simp: reader_read_def reader_readexactly_def reader_readline_def Let_def line_split subseq_drop
      split: option.splits if_splits)

lemma socket_reads_split:
  "socket_read n s = (s', x) \<Longrightarrow> given_bytes x @ sr_buffer (ts_reader s') = sr_buffer (ts_reader s)"
  "socket_read_exactly n s = (s', x) \<Longrightarrow> given_bytes x @ sr_buffer (ts_reader s') = sr_buffer (ts_reader s)"
  "socket_readline s = (s', x) \<Longrightarrow> subseq (given_bytes x @ sr_buffer (ts_reader s')) (sr_buffer (ts_reader s))"
  by (auto simp: socket_read_def socket_read_exactly_def socket_readline_def
      split: if_splits prod.splits read_result.splits io_error.splits dest: reads_split(1,2) reads_split(3))

text \<open>The writer is changed by writes and \<open>close\<close> only.\<close>

lemma reads_writer:
  "socket_read n s = (s', x) \<Longrightarrow> ts_writer s' = ts_writer s"
  "socket_read_exactly n s = (s', x) \<Longrightarrow> ts_writer s' = ts_writer s"
  "socket_readline s = (s', x) \<Longrightarrow> ts_writer s' = ts_writer s"
  by (auto simp: socket_read_def socket_read_exactly_def socket_readline_def
      split: if_splits prod.splits read_result.splits io_error.splits)

lemma feed_buffer: "sr_buffer (feed_reader q r) = sr_buffer r @ arrived_bytes q"
  by (cases q) (simp_all add: arrived_bytes_def)

definition socket_inv :: "socket_run \<Rightarrow> bool" where
  "socket_inv st = (case st of (s, arr, given, wr) \<Rightarrow>
     subseq (given @ sr_buffer (ts_reader s)) arr \<and> subseq wr (sw_sent (ts_writer s)))"

lemma write_sent:
  "socket_write fate bs s = (s', x) \<Longrightarrow> ts_reader s' = ts_reader s
     \<and> (sw_sent (ts_writer s') = sw_sent (ts_writer s) \<and> x \<noteq> None
        \<or> sw_sent (ts_writer s') = sw_sent (ts_writer s) @ bs)"
  by (auto simp: socket_write_def Let_def split: if_splits write_fate.splits)

lemma close_fields [simp]:
  "ts_reader (socket_close s) = ts_reader s" "sw_sent (ts_writer (socket_close s)) = sw_sent (ts_writer s)"
  by (simp_all add: socket_close_def)

lemma subseq_read: "subseq (given @ buf) arr \<Longrightarrow> subseq (x @ buf') buf \<Longrightarrow> subseq ((given @ x) @ buf') arr"
  by (metis append.assoc list_emb_append_mono subseq_order.order_refl subseq_order.order_trans)

interpretation tcp_socket: op_machine socket_step socket_inv
proof
  fix st op
  assume "socket_inv st"
  then obtain s arr given wr where st: "st = (s, arr, given, wr)"
    and r: "subseq (given @ sr_buffer (ts_reader s)) arr" and w: "subseq wr (sw_sent (ts_writer s))"
    by (cases st) (auto simp: socket_inv_def)
  have split: "subseq ((given @ given_bytes x) @ sr_buffer r') arr"
    if "given_bytes x @ sr_buffer r' = sr_buffer (ts_reader s)" for x r'
    using subseq_read [OF r, of "given_bytes x" "sr_buffer r'"] that by simp
  show "socket_inv (socket_step st op)"
  proof (cases op)
    case (Arrives q)
    have "subseq (given @ sr_buffer (ts_reader s) @ arrived_bytes q) (arr @ arrived_bytes q)"
      using list_emb_append_mono [OF r, of "arrived_bytes q" "arrived_bytes q"] by simp
    with w Arrives show ?thesis by (simp add: st socket_inv_def feed_buffer)
  next
    case (WriteBytes fate bs)
    obtain s' x where s': "socket_write fate bs s = (s', x)" by force
    have "subseq wr (sw_sent (ts_writer s) @ bs)" by (rule list_emb_prefix [OF w])
    with write_sent [OF s'] s' r w list_emb_append_mono [OF w, of bs bs] WriteBytes show ?thesis
      by (auto simp: st socket_inv_def)
  qed (use r w split subseq_read [OF r] in \<open>auto simp: st socket_inv_def reads_writer
        dest: socket_reads_split split: prod.split\<close>)
qed

text \<open>Without reading lines nothing is thrown away.\<close>

lemma exact_run:
  "ReadLine \<notin> set ops \<Longrightarrow> given @ sr_buffer (ts_reader s) = arr \<Longrightarrow>
   foldl socket_step (s, arr, given, wr) ops = (s', arr', given', wr') \<Longrightarrow>
   given' @ sr_buffer (ts_reader s') = arr'"
proof (induction ops arbitrary: s arr given wr)
  case (Cons op ops)
  obtain s1 arr1 given1 wr1 where st: "socket_step (s, arr, given, wr) op = (s1, arr1, given1, wr1)"
    by (cases "socket_step (s, arr, given, wr) op")
  then have "given1 @ sr_buffer (ts_reader s1) = arr1"
    using Cons.prems(1,2)
    by (cases op) (auto simp: feed_buffer dest: socket_reads_split(1,2) write_sent split: prod.splits)
  with Cons.IH Cons.prems st show ?case by simp
qed simp

text \<open>A socket marked closed while its writer is open stays so: \<open>close\<close> does nothing any more.\<close>

definition abandoned :: "bytes \<Rightarrow> socket_run \<Rightarrow> bool" where
  "abandoned g st = (case st of (s, arr, given, wr) \<Rightarrow>
     ts_closed s \<and> \<not> sw_closing (ts_writer s) \<and> given = g)"

interpretation abandoned_socket: op_machine socket_step "abandoned g" for g
proof
  fix st op
  assume "abandoned g st"
  then show "abandoned g (socket_step st op)"
    by (cases st; cases op)
      (auto simp: abandoned_def socket_read_def socket_read_exactly_def socket_readline_def socket_write_def socket_close_def)
qed

text \<open>
  C18. Bytes come out of a socket in the order in which they came in: what its reads have given and
  what is still buffered is what arrived - unless lines are read, which may throw away a line that is
  too long; then it is what arrived with pieces left out.  Every write that returned is in what was
  handed to the transport, in order.
\<close>

theorem socket_bytes_in_order:
  assumes "(s, arr, given, wr) = foldl socket_step (new_socket new_reader w bufsize peer sock, [], [], []) ops"
  shows "subseq (given @ sr_buffer (ts_reader s)) arr \<and> subseq wr (sw_sent (ts_writer s))
    \<and> (ReadLine \<notin> set ops \<longrightarrow> given @ sr_buffer (ts_reader s) = arr)"
proof -
  let ?s = "new_socket new_reader w bufsize peer sock"
  have empty: "sr_buffer (ts_reader ?s) = []" by (simp add: new_socket_def new_reader_def split: prod.split)
  have "socket_inv (s, arr, given, wr)"
    unfolding assms by (rule tcp_socket.run_inv) (simp add: socket_inv_def empty)
  with exact_run [OF _ _ assms [symmetric]] empty show ?thesis by (auto simp: socket_inv_def)
qed

theorem socket_bytes_in_order_witness:
  "\<exists>s. foldl socket_step (new_socket new_reader \<lparr>sw_sent = [], sw_closing = False\<rparr> 4 NoInfo NoInfo, [], [], [])
      [Arrives (FeedData [1, 2, 3, 4, 5]), Read 0, ReadExactly 2, Arrives FeedEof, ReadExactly 2]
      = (s, [1, 2, 3, 4, 5], [1, 2, 3, 4, 5], []) \<and> [1, 2, 3, 4, 5] @ sr_buffer (ts_reader s) = [1, 2, 3, 4, 5]"
proof -
  let ?ops = "[Arrives (FeedData [1, 2, 3, 4, 5]), Read 0, ReadExactly 2, Arrives FeedEof, ReadExactly 2]"
  let ?s0 = "new_socket new_reader \<lparr>sw_sent = [], sw_closing = False\<rparr> 4 NoInfo NoInfo"
  obtain s where s: "foldl socket_step (?s0, [], [], []) ?ops = (s, [1, 2, 3, 4, 5], [1, 2, 3, 4, 5], [])"
    by (simp add: new_socket_def extract_addresses_def new_reader_def socket_read_def reader_read_def
        socket_read_exactly_def reader_readexactly_def arrived_bytes_def)
  moreover have "ReadLine \<notin> set ?ops" by simp
  ultimately show ?thesis using socket_bytes_in_order [OF s [symmetric]] by blast
qed

text \<open>
  A read that meets a lost connection reports the end of the stream although bytes may be
  waiting, marks the socket closed and thereby leaves it open: no later read gives any of the bytes,
  and no later \<open>close\<close> closes the writer.
\<close>

lemma lost_connection_never_closed:
  assumes "\<not> ts_closed s" and "\<not> sw_closing (ts_writer s)"
    and "sr_exception (ts_reader s) = Some x" and "connection_lost x"
  shows "\<exists>s1. socket_read n s = (s1, Got []) \<and> sr_buffer (ts_reader s1) = sr_buffer (ts_reader s)
    \<and> (\<forall>ops s2 arr' given' wr'. foldl socket_step (s1, arr, given, wr) ops = (s2, arr', given', wr')
        \<longrightarrow> given' = given \<and> socket_is_closed s2 \<and> \<not> sw_closing (ts_writer s2))"
proof -
  let ?s1 = "s\<lparr>ts_closed := True\<rparr>"
  have "reader_read m (ts_reader s) = (ts_reader s, Fails (OS x))" for m
    using assms(3) by (simp add: reader_read_def)
  then have read: "socket_read n s = (?s1, Got [])"
    using assms(1,4) by (simp add: socket_read_def)
  have ab: "abandoned given (foldl socket_step (?s1, arr, given, wr) ops)" for ops
    by (rule abandoned_socket.run_inv) (use assms(2) in \<open>simp add: abandoned_def\<close>)
  then have "given' = given \<and> socket_is_closed s2 \<and> \<not> sw_closing (ts_writer s2)"
    if "foldl socket_step (?s1, arr, given, wr) ops = (s2, arr', given', wr')" for ops s2 arr' given' wr'
    using ab [of ops] unfolding that by (simp add: abandoned_def socket_is_closed_def)
  with read show ?thesis by auto
qed

end
