(* ===== verification/TcpServer.thy ===== *)
theory TcpServer
  imports Tcp "HOL-Library.Multiset"
begin

text \<open>
  \<open>src/conduit/transport/tcp_socket.py\<close>, the server: every accepted connection is a task that waits
  for the semaphore, runs the handler and closes its socket.  The tasks interleave, so the server is
  a step relation; a task is a number.  \<open>Server.wait_closed\<close> of \<open>asyncio\<close> returns at once or, in later
  versions of Python, when the transport of every connection is closed: that is the relation's parameter
  \<open>waits\<close>.  One call of \<open>start\<close> or \<open>stop\<close> is under way at a time.
\<close>

section \<open>State\<close>

text \<open>Where \<open>stop\<close> is: at \<open>wait_closed\<close>, or gathering the tasks it has cancelled.\<close>

datatype stop_phase = NoStop | AtWaitClosed | Gathering "nat list"

record TCPServer =
  tv_host :: string
  tv_port :: int
  tv_ipv6 :: bool
  tv_ssl :: bool
  tv_buffer_size :: int
  tv_max_connections :: nat
  tv_handler :: bool
  tv_has_server :: bool
  tv_listening :: bool
  tv_running :: bool
  tv_stop :: stop_phase
  tv_value :: nat \<comment> \<open>of the semaphore\<close>
  tv_waiting :: "nat list" \<comment> \<open>tasks at the semaphore, in the order in which it wakes them\<close>
  tv_handling :: "nat list" \<comment> \<open>tasks in the handler\<close>
  tv_closing :: "nat list" \<comment> \<open>tasks in their \<open>finally\<close>, closing the socket\<close>
  tv_finished :: "nat list"
  tv_connections :: "nat list" \<comment> \<open>the set \<open>_connections\<close>\<close>
  tv_cancelled :: "nat list"
  tv_lost :: "nat list" \<comment> \<open>tasks whose peer has gone\<close>
  tv_next :: nat

text \<open>A negative bound is the ValueError of the semaphore.\<close>

definition new_tcp_server ::
  "string \<Rightarrow> int \<Rightarrow> bool \<Rightarrow> bool \<Rightarrow> int \<Rightarrow> int \<Rightarrow> bool \<Rightarrow> TCPServer option" where
  "new_tcp_server host port handler ipv6 bufsize max_connections ssl =
     (if max_connections < 0 then None
      else Some \<lparr>tv_host = host, tv_port = port, tv_ipv6 = ipv6, tv_ssl = ssl, tv_buffer_size = bufsize,
        tv_max_connections = nat max_connections, tv_handler = handler, tv_has_server = False,
        tv_listening = False, tv_running = False, tv_stop = NoStop, tv_value = nat max_connections,
        tv_waiting = [], tv_handling = [], tv_closing = [], tv_finished = [], tv_connections = [],
        tv_cancelled = [], tv_lost = [], tv_next = 0\<rparr>)"

definition set_handler :: "TCPServer \<Rightarrow> TCPServer" where
  "set_handler s = s\<lparr>tv_handler := True\<rparr>"

definition set_ssl_context :: "bool \<Rightarrow> TCPServer \<Rightarrow> TCPServer" where
  "set_ssl_context ssl s = s\<lparr>tv_ssl := ssl\<rparr>"

text \<open>\<open>start\<close>: None is the ValueError of a server without a handler.\<close>

definition tcp_start :: "TCPServer \<Rightarrow> TCPServer option" where
  "tcp_start s =
     (if tv_running s then Some s
      else if \<not> tv_handler s then None
      else Some (s\<lparr>tv_has_server := True, tv_listening := True, tv_running := True\<rparr>))"

definition connection_count :: "TCPServer \<Rightarrow> nat" where
  "connection_count s = length (tv_connections s)"

section \<open>Steps\<close>

text \<open>\<open>stop\<close> up to \<open>wait_closed\<close>.\<close>

definition stop_begin :: "TCPServer \<Rightarrow> TCPServer" where
  "stop_begin s =
     (if \<not> tv_running s then s
      else s\<lparr>tv_running := False, tv_listening := False, tv_stop := AtWaitClosed\<rparr>)"

text \<open>After \<open>wait_closed\<close>: every task of the set is cancelled, and gathered.\<close>

definition stop_cancel :: "TCPServer \<Rightarrow> TCPServer" where
  "stop_cancel s =
     s\<lparr>tv_cancelled := tv_connections s @ tv_cancelled s, tv_stop := Gathering (tv_connections s)\<rparr>"

definition stop_end :: "TCPServer \<Rightarrow> TCPServer" where
  "stop_end s = s\<lparr>tv_connections := [], tv_stop := NoStop\<rparr>"

text \<open>
  The parts of \<open>_handle_connection\<close>: the new task at the semaphore; with a permit, in the set and in
  the handler; out of the handler, however it ended; closed, out of the set, the permit given back.
\<close>

definition accept_connection :: "TCPServer \<Rightarrow> TCPServer" where
  "accept_connection s = s\<lparr>tv_waiting := tv_waiting s @ [tv_next s], tv_next := Suc (tv_next s)\<rparr>"

definition enter_handler :: "nat \<Rightarrow> TCPServer \<Rightarrow> TCPServer" where
  "enter_handler i s =
     s\<lparr>tv_waiting := remove1 i (tv_waiting s), tv_value := tv_value s - 1,
       tv_handling := tv_handling s @ [i], tv_connections := List.insert i (tv_connections s)\<rparr>"

definition leave_handler :: "nat \<Rightarrow> TCPServer \<Rightarrow> TCPServer" where
  "leave_handler i s = s\<lparr>tv_handling := remove1 i (tv_handling s), tv_closing := tv_closing s @ [i]\<rparr>"

definition task_end :: "nat \<Rightarrow> TCPServer \<Rightarrow> TCPServer" where
  "task_end i s =
     s\<lparr>tv_closing := remove1 i (tv_closing s), tv_connections := remove1 i (tv_connections s),
       tv_finished := tv_finished s @ [i], tv_value := Suc (tv_value s)\<rparr>"

text \<open>The peer resets the connection: the transport is gone, the task runs on.\<close>

definition lose_peer :: "nat \<Rightarrow> TCPServer \<Rightarrow> TCPServer" where
  "lose_peer i s = s\<lparr>tv_lost := i # tv_lost s\<rparr>"

definition open_tasks :: "TCPServer \<Rightarrow> nat list" where
  "open_tasks s = tv_waiting s @ tv_handling s @ tv_closing s"

inductive tcp_step :: "bool \<Rightarrow> TCPServer \<Rightarrow> TCPServer \<Rightarrow> bool" for waits where
  start: "tv_stop s = NoStop \<Longrightarrow> tcp_start s = Some t \<Longrightarrow> tcp_step waits s t"
| accept: "tv_listening s \<Longrightarrow> tcp_step waits s (accept_connection s)"
| enter: "tv_waiting s = i # rest \<Longrightarrow> 0 < tv_value s \<Longrightarrow> tcp_step waits s (enter_handler i s)"
| leave: "i \<in> set (tv_handling s) \<Longrightarrow> tcp_step waits s (leave_handler i s)"
| finish: "i \<in> set (tv_closing s) \<Longrightarrow> tcp_step waits s (task_end i s)"
| lose: "i \<in> set (open_tasks s) \<Longrightarrow> tcp_step waits s (lose_peer i s)"
| stop: "tv_stop s = NoStop \<Longrightarrow> tcp_step waits s (stop_begin s)"
| cancel: "tv_stop s = AtWaitClosed \<Longrightarrow> (waits \<longrightarrow> set (open_tasks s) \<subseteq> set (tv_lost s)) \<Longrightarrow> tcp_step waits s (stop_cancel s)"
| gathered: "tv_stop s = Gathering ts \<Longrightarrow> set ts \<subseteq> set (tv_finished s) \<Longrightarrow> tcp_step waits s (stop_end s)"

inductive tcp_reachable :: "bool \<Rightarrow> TCPServer \<Rightarrow> bool" for waits where
  fresh: "new_tcp_server host port handler ipv6 bufsize max_connections ssl = Some s \<Longrightarrow> tcp_reachable waits s"
| more: "tcp_reachable waits s \<Longrightarrow> tcp_step waits s t \<Longrightarrow> tcp_reachable waits t"

section \<open>What every reachable state satisfies\<close>

definition tcp_ok :: "TCPServer \<Rightarrow> bool" where
  "tcp_ok s =
     (tv_value s + length (tv_handling s) + length (tv_closing s) = tv_max_connections s
      \<and> mset (open_tasks s @ tv_finished s) = mset [0..<tv_next s]
      \<and> distinct (tv_connections s)
      \<and> set (tv_connections s) \<subseteq> set (tv_handling s @ tv_closing s)
      \<and> (tv_running s \<longrightarrow> tv_has_server s \<and> tv_stop s = NoStop))"

lemmas tcp_defs = tcp_start_def stop_begin_def stop_cancel_def stop_end_def accept_connection_def
  enter_handler_def leave_handler_def task_end_def lose_peer_def open_tasks_def

lemma tasks_distinct:
  assumes "tcp_ok s"
  shows "distinct (open_tasks s @ tv_finished s)"
proof -
  have "mset (open_tasks s @ tv_finished s) = mset [0..<tv_next s]" using assms by (simp add: tcp_ok_def)
  then show ?thesis by (metis distinct_upt mset_eq_imp_distinct_iff)
qed

lemma tcp_step_ok: "tcp_step waits s t \<Longrightarrow> tcp_ok s \<Longrightarrow> tcp_ok t"
proof (induction rule: tcp_step.induct)
  case (enter s i rest)
  then show ?case by (auto simp: tcp_ok_def tcp_defs distinct_insert)
next
  case (leave i s)
  have "0 < length (tv_handling s)" using leave(1) by (cases "tv_handling s") auto
  then have "length (remove1 i (tv_handling s)) + 1 = length (tv_handling s)" using leave(1) by (simp add: length_remove1)
  moreover have "distinct (tv_handling s)" using tasks_distinct [OF leave(2)] by (simp add: open_tasks_def)
  ultimately show ?case using leave by (auto simp: tcp_ok_def tcp_defs)
next
  case (finish i s)
  have "0 < length (tv_closing s)" using finish(1) by (cases "tv_closing s") auto
  then have "length (remove1 i (tv_closing s)) + 1 = length (tv_closing s)" using finish(1) by (simp add: length_remove1)
  moreover have "distinct (tv_closing s)" "i \<notin> set (tv_handling s)"
    using tasks_distinct [OF finish(2)] finish(1) by (auto simp: open_tasks_def)
  ultimately show ?case using finish by (auto simp: tcp_ok_def tcp_defs)
qed (auto simp: tcp_ok_def tcp_defs split: if_splits)

lemma new_tcp_server_ok: "new_tcp_server host port handler ipv6 bufsize max_connections ssl = Some s \<Longrightarrow> tcp_ok s"
  by (auto simp: new_tcp_server_def tcp_ok_def open_tasks_def split: if_splits)

lemma tcp_reachable_ok: "tcp_reachable waits s \<Longrightarrow> tcp_ok s"
  by (induction rule: tcp_reachable.induct) (auto intro: new_tcp_server_ok tcp_step_ok)

text \<open>Everything that a run leaves alone while its tasks end.\<close>

definition tcp_frame :: "TCPServer \<Rightarrow> TCPServer \<Rightarrow> bool" where
  "tcp_frame s t =
     (tv_waiting t = tv_waiting s \<and> tv_stop t = tv_stop s \<and> tv_running t = tv_running s
      \<and> tv_cancelled t = tv_cancelled s \<and> tv_max_connections t = tv_max_connections s
      \<and> set (tv_handling s @ tv_closing s @ tv_finished s) = set (tv_handling t @ tv_closing t @ tv_finished t))"

lemma tcp_frame_trans: "tcp_frame s t \<Longrightarrow> tcp_frame t u \<Longrightarrow> tcp_frame s u"
  by (simp add: tcp_frame_def)

lemma tcp_steps_ok: "(tcp_step waits)\<^sup>*\<^sup>* s t \<Longrightarrow> tcp_ok s \<Longrightarrow> tcp_ok t"
  by (induction rule: rtranclp_induct) (auto intro: tcp_step_ok)

lemma leave_frame: "tcp_ok s \<Longrightarrow> i \<in> set (tv_handling s) \<Longrightarrow> tcp_frame s (leave_handler i s)"
  using tasks_distinct [of s] by (auto simp: tcp_frame_def leave_handler_def open_tasks_def)

lemma finish_frame: "tcp_ok s \<Longrightarrow> i \<in> set (tv_closing s) \<Longrightarrow> tcp_frame s (task_end i s)"
  using tasks_distinct [of s] by (auto simp: tcp_frame_def task_end_def open_tasks_def)

lemma tasks_drain:
  "tcp_ok s \<Longrightarrow> \<exists>t. (tcp_step waits)\<^sup>*\<^sup>* s t \<and> tcp_frame s t \<and> tv_handling t = [] \<and> tv_closing t = []"
proof (induction "2 * length (tv_handling s) + length (tv_closing s)" arbitrary: s rule: less_induct)
  case less
  show ?case
  proof (cases "tv_handling s")
    case (Cons i js)
    let ?t = "leave_handler i s"
    have step: "tcp_step waits s ?t" and i: "i \<in> set (tv_handling s)" using Cons by (auto intro: tcp_step.leave)
    have "2 * length (tv_handling ?t) + length (tv_closing ?t) < 2 * length (tv_handling s) + length (tv_closing s)"
      using Cons by (simp add: leave_handler_def)
    from less.hyps [OF this tcp_step_ok [OF step less.prems]] leave_frame [OF less.prems i] step
    show ?thesis by (meson converse_rtranclp_into_rtranclp tcp_frame_trans)
  next
    case Nil
    show ?thesis
    proof (cases "tv_closing s")
      case (Cons i js)
      let ?t = "task_end i s"
      have step: "tcp_step waits s ?t" and i: "i \<in> set (tv_closing s)" using Cons by (auto intro: tcp_step.finish)
      have "2 * length (tv_handling ?t) + length (tv_closing ?t) < 2 * length (tv_handling s) + length (tv_closing s)"
        using Cons by (simp add: task_end_def)
      from less.hyps [OF this tcp_step_ok [OF step less.prems]] finish_frame [OF less.prems i] step
      show ?thesis by (meson converse_rtranclp_into_rtranclp tcp_frame_trans)
    next
      case Nil
      with \<open>tv_handling s = []\<close> show ?thesis by (auto simp: tcp_frame_def)
    qed
  qed
qed

text \<open>
  C17. The server never runs more handlers than its bound, counts no more connections than that, and
  loses no connection that it accepted: each is waiting, in its handler, closing or finished, and in
  one of these only.
\<close>

theorem tcp_server_bounded:
  assumes "tcp_reachable waits s"
  shows "length (tv_handling s) + length (tv_closing s) \<le> tv_max_connections s
    \<and> connection_count s \<le> tv_max_connections s
    \<and> mset (tv_waiting s @ tv_handling s @ tv_closing s @ tv_finished s) = mset [0..<tv_next s]"
proof -
  have ok: "tcp_ok s" by (rule tcp_reachable_ok [OF assms])
  then have "card (set (tv_connections s)) \<le> length (tv_handling s @ tv_closing s)"
    by (metis tcp_ok_def List.finite_set card_mono card_length le_trans)
  then have "connection_count s \<le> length (tv_handling s) + length (tv_closing s)"
    using ok by (simp add: connection_count_def tcp_ok_def distinct_card)
  with ok show ?thesis by (simp add: tcp_ok_def open_tasks_def)
qed

definition sample_tcp :: TCPServer where
  "sample_tcp = the (new_tcp_server ''h'' 1 True False 4 1 False)"

definition busy_tcp :: TCPServer where
  "busy_tcp = accept_connection (enter_handler 0 (accept_connection (the (tcp_start sample_tcp))))"

lemma busy_tcp_simps:
  "tv_handling busy_tcp = [0]" "tv_waiting busy_tcp = [1]" "tv_closing busy_tcp = []" "tv_running busy_tcp"
  "tv_stop busy_tcp = NoStop" "tv_max_connections busy_tcp = 1"
  by (simp_all add: busy_tcp_def sample_tcp_def new_tcp_server_def tcp_defs)

lemma busy_tcp_reachable: "tcp_reachable waits busy_tcp"
proof -
  let ?s0 = "the (tcp_start sample_tcp)"
  have "new_tcp_server ''h'' 1 True False 4 1 False = Some sample_tcp" by (simp add: sample_tcp_def new_tcp_server_def)
  then have "tcp_reachable waits sample_tcp" by (rule tcp_reachable.fresh)
  moreover have "tcp_step waits sample_tcp ?s0"
    by (rule tcp_step.start) (simp_all add: sample_tcp_def new_tcp_server_def tcp_start_def)
  moreover have "tcp_step waits ?s0 (accept_connection ?s0)"
    by (rule tcp_step.accept) (simp add: sample_tcp_def new_tcp_server_def tcp_start_def)
  moreover have "tcp_step waits (accept_connection ?s0) (enter_handler 0 (accept_connection ?s0))"
    by (rule tcp_step.enter [where rest = "[]"])
      (simp_all add: sample_tcp_def new_tcp_server_def tcp_start_def accept_connection_def)
  moreover have "tcp_step waits (enter_handler 0 (accept_connection ?s0)) busy_tcp"
    unfolding busy_tcp_def
    by (rule tcp_step.accept) (simp add: sample_tcp_def new_tcp_server_def tcp_defs)
  ultimately show ?thesis by (meson tcp_reachable.more)
qed

theorem tcp_server_bounded_witness:
  "connection_count busy_tcp \<le> 1 \<and> mset (tv_waiting busy_tcp @ tv_handling busy_tcp @ tv_closing busy_tcp
     @ tv_finished busy_tcp) = mset [0..<tv_next busy_tcp]"
  using tcp_server_bounded [OF busy_tcp_reachable [of True]] by (simp add: busy_tcp_simps)

text \<open>
  Stopping does not stop the connections that wait for a permit: when \<open>wait_closed\<close> does not wait,
  \<open>stop\<close> may return - no connection counted, none of the waiting cancelled - and the first of them
  then gets its permit and runs the handler in the stopped server.
\<close>

lemma stop_leaves_waiting:
  assumes s: "tcp_reachable False s" "tv_running s" "tv_waiting s = i # rest" "0 < tv_max_connections s"
    and "i \<notin> set (tv_cancelled s)"
  shows "\<exists>t u. (tcp_step False)\<^sup>*\<^sup>* s t \<and> \<not> tv_running t \<and> tv_stop t = NoStop \<and> connection_count t = 0
    \<and> tcp_step False t u \<and> i \<in> set (tv_handling u) \<and> i \<notin> set (tv_cancelled u)"
proof -
  have ok: "tcp_ok s" by (rule tcp_reachable_ok [OF s(1)])
  with s(2) have n: "tv_stop s = NoStop" by (simp add: tcp_ok_def)
  let ?s2 = "stop_cancel (stop_begin s)"
  have b: "tcp_step False s (stop_begin s)" by (rule tcp_step.stop [OF n])
  have c: "tcp_step False (stop_begin s) ?s2" using s(2) by (intro tcp_step.cancel) (simp_all add: stop_begin_def)
  have ok2: "tcp_ok ?s2" by (rule tcp_step_ok [OF c tcp_step_ok [OF b ok]])
  from tasks_drain [OF this, of False] obtain t where t: "(tcp_step False)\<^sup>*\<^sup>* ?s2 t" "tcp_frame ?s2 t"
    "tv_handling t = []" "tv_closing t = []" by blast
  have conns: "set (tv_connections s) \<subseteq> set (tv_handling s @ tv_closing s)" using ok by (simp add: tcp_ok_def)
  have f: "tv_waiting t = i # rest" "tv_stop t = Gathering (tv_connections s)" "\<not> tv_running t"
    "tv_cancelled t = tv_connections s @ tv_cancelled s" "set (tv_connections s) \<subseteq> set (tv_finished t)"
    "tv_max_connections t = tv_max_connections s"
    using t(2-4) s(2,3) conns by (auto simp: tcp_frame_def stop_cancel_def stop_begin_def)
  have g: "tcp_step False t (stop_end t)" by (rule tcp_step.gathered [OF f(2,5)])
  have "tcp_ok t" by (rule tcp_steps_ok [OF t(1) ok2])
  then have "0 < tv_value (stop_end t)" using t(3,4) f(6) s(4) by (simp add: tcp_ok_def stop_end_def)
  then have e: "tcp_step False (stop_end t) (enter_handler i (stop_end t))"
    using f(1) by (intro tcp_step.enter [where rest = rest]) (simp_all add: stop_end_def)
  have "i \<notin> set (tv_connections s)"
    using conns tasks_distinct [OF ok] s(3) by (auto simp: open_tasks_def)
  with assms(5) f(4) have "i \<notin> set (tv_cancelled t)" by simp
  moreover have "(tcp_step False)\<^sup>*\<^sup>* s (stop_end t)"
    using b c t(1) g by (meson converse_rtranclp_into_rtranclp rtranclp.rtrancl_into_rtrancl)
  ultimately show ?thesis
    using e f(3) by (intro exI [of _ "stop_end t"] exI [of _ "enter_handler i (stop_end t)"])
      (simp add: stop_end_def connection_count_def enter_handler_def)
qed

text \<open>
  Where \<open>wait_closed\<close> waits, the cancellation in \<open>stop\<close> comes too late: it reaches only tasks
  whose peer has gone already, and as long as one accepted connection is open with its peer there,
  \<open>stop\<close> stays where it is.
\<close>

lemma stop_cancels_only_lost:
  assumes "tcp_reachable True s"
  shows "set (tv_cancelled s) \<subseteq> set (tv_lost s)
    \<and> (tv_stop s = AtWaitClosed \<and> i \<in> set (open_tasks s) \<and> i \<notin> set (tv_lost s) \<and> tcp_step True s t \<longrightarrow>
        tv_stop t = AtWaitClosed)"
proof
  have "tcp_ok s" by (rule tcp_reachable_ok [OF assms])
  show "set (tv_cancelled s) \<subseteq> set (tv_lost s)"
    using assms
  proof (induction rule: tcp_reachable.induct)
    case (more s t)
    have "tcp_ok s" by (rule tcp_reachable_ok [OF more(1)])
    then have "set (tv_connections s) \<subseteq> set (open_tasks s)" by (auto simp: tcp_ok_def open_tasks_def)
    with more(2,3) show ?case
      by (cases rule: tcp_step.cases) (auto simp: tcp_defs split: if_splits)
  qed (auto simp: new_tcp_server_def split: if_splits)
  show "tv_stop s = AtWaitClosed \<and> i \<in> set (open_tasks s) \<and> i \<notin> set (tv_lost s) \<and> tcp_step True s t \<longrightarrow>
        tv_stop t = AtWaitClosed"
    by (auto elim!: tcp_step.cases simp: tcp_defs split: if_splits)
qed

end
