(* ===== verification/Tunnel.thy ===== *)
theory Tunnel
  imports Prelude
begin

text \<open>
  \<open>src/conduit/transport/tls.py\<close> and \<open>src/conduit/mesh/tunnel.py\<close>: the TLS settings of both sides and the
  in-memory TLS tunnel of the mesh.  An \<open>SSLContext\<close> is the record of what has been set on it, with the
  rules of Python's \<open>ssl\<close> for setting it.  The \<open>SSLObject\<close> - the TLS protocol itself - is the parameter
  \<open>ssl_lib\<close>: functions of the object and of what waits in its incoming \<open>MemoryBIO\<close>.
\<close>

section \<open>Contexts\<close>

datatype ssl_protocol = PROTOCOL_TLS_SERVER | PROTOCOL_TLS_CLIENT
datatype verify_mode = CERT_NONE | CERT_REQUIRED
datatype trust = TrustNothing | TrustFile string | TrustDefault

record ssl_context =
  sx_protocol :: ssl_protocol
  sx_verify_mode :: verify_mode
  sx_check_hostname :: bool
  sx_cert_chain :: "(string \<times> string) option"
  sx_trust :: trust
  sx_minimum_version :: nat \<comment> \<open>12 for TLS 1.2\<close>
  sx_ciphers :: string

text \<open>A new context: a client's verifies by default, a server's does not.\<close>

definition new_ssl_context :: "ssl_protocol \<Rightarrow> ssl_context" where
  "new_ssl_context p =
     \<lparr>sx_protocol = p, sx_verify_mode = (if p = PROTOCOL_TLS_CLIENT then CERT_REQUIRED else CERT_NONE),
      sx_check_hostname = (p = PROTOCOL_TLS_CLIENT), sx_cert_chain = None, sx_trust = TrustNothing,
      sx_minimum_version = 10, sx_ciphers = ''DEFAULT''\<rparr>"

text \<open>\<open>CERT_NONE\<close> with host name checks on is a ValueError; checks without verification turn it on.\<close>

definition set_verify_mode :: "verify_mode \<Rightarrow> ssl_context \<Rightarrow> ssl_context option" where
  "set_verify_mode m c =
     (if m = CERT_NONE \<and> sx_check_hostname c then None else Some (c\<lparr>sx_verify_mode := m\<rparr>))"

definition set_check_hostname :: "bool \<Rightarrow> ssl_context \<Rightarrow> ssl_context" where
  "set_check_hostname b c =
     c\<lparr>sx_check_hostname := b,
       sx_verify_mode := (if b \<and> sx_verify_mode c = CERT_NONE then CERT_REQUIRED else sx_verify_mode c)\<rparr>"

text \<open>Reading certificates: \<open>chain_ok\<close> and \<open>ca_ok\<close> say which files can be loaded.\<close>

definition load_cert_chain ::
  "(string \<Rightarrow> string \<Rightarrow> bool) \<Rightarrow> string \<Rightarrow> string \<Rightarrow> ssl_context \<Rightarrow> ssl_context option" where
  "load_cert_chain chain_ok cert key c =
     (if chain_ok cert key then Some (c\<lparr>sx_cert_chain := Some (cert, key)\<rparr>) else None)"

definition load_verify_locations :: "(string \<Rightarrow> bool) \<Rightarrow> string \<Rightarrow> ssl_context \<Rightarrow> ssl_context option" where
  "load_verify_locations ca_ok f c = (if ca_ok f then Some (c\<lparr>sx_trust := TrustFile f\<rparr>) else None)"

record TLSConfig =
  tc_enabled :: bool
  tc_cert_file :: "string option"
  tc_key_file :: "string option"
  tc_ca_file :: "string option"
  tc_verify :: bool
  tc_verify_client :: bool

definition default_TLSConfig :: TLSConfig where
  "default_TLSConfig = \<lparr>tc_enabled = False, tc_cert_file = None, tc_key_file = None, tc_ca_file = None,
     tc_verify = True, tc_verify_client = False\<rparr>"

text \<open>A file name that is given and not empty.\<close>

definition given :: "string option \<Rightarrow> string option" where
  "given f = (case f of None \<Rightarrow> None | Some x \<Rightarrow> if x = [] then None else Some x)"

text \<open>Outer None: an exception; inner None: TLS is off.\<close>

definition create_server_ssl_context ::
  "(string \<Rightarrow> string \<Rightarrow> bool) \<Rightarrow> (string \<Rightarrow> bool) \<Rightarrow> TLSConfig \<Rightarrow> ssl_context option option" where
  "create_server_ssl_context chain_ok ca_ok cfg =
     (if \<not> tc_enabled cfg then Some None
      else case (given (tc_cert_file cfg), given (tc_key_file cfg)) of
        (Some cert, Some key) \<Rightarrow>
          Option.bind (load_cert_chain chain_ok cert key (new_ssl_context PROTOCOL_TLS_SERVER))
            (\<lambda>c. Option.bind
               (if tc_verify_client cfg then
                  Option.bind (set_verify_mode CERT_REQUIRED c)
                    (\<lambda>c. case given (tc_ca_file cfg) of
                       Some ca \<Rightarrow> load_verify_locations ca_ok ca c | None \<Rightarrow> Some c)
                else set_verify_mode CERT_NONE c)
               (\<lambda>c. Some (Some (c\<lparr>sx_minimum_version := 12,
                  sx_ciphers := ''ECDHE+AESGCM:DHE+AESGCM:ECDHE+CHACHA20:DHE+CHACHA20''\<rparr>))))
      | _ \<Rightarrow> None)"

definition create_client_ssl_context ::
  "(string \<Rightarrow> string \<Rightarrow> bool) \<Rightarrow> (string \<Rightarrow> bool) \<Rightarrow> TLSConfig \<Rightarrow> ssl_context option option" where
  "create_client_ssl_context chain_ok ca_ok cfg =
     (if \<not> tc_enabled cfg then Some None
      else
        (let c0 = new_ssl_context PROTOCOL_TLS_CLIENT
         in Option.bind
           (if tc_verify cfg then
              Option.bind (set_verify_mode CERT_REQUIRED c0)
                (\<lambda>c. let c = set_check_hostname True c
                     in case given (tc_ca_file cfg) of
                          Some ca \<Rightarrow> load_verify_locations ca_ok ca c
                        | None \<Rightarrow> Some (c\<lparr>sx_trust := TrustDefault\<rparr>))
            else set_verify_mode CERT_NONE (set_check_hostname False c0))
           (\<lambda>c. Option.bind
              (case (given (tc_cert_file cfg), given (tc_key_file cfg)) of
                 (Some cert, Some key) \<Rightarrow> load_cert_chain chain_ok cert key c
               | _ \<Rightarrow> Some c)
              (\<lambda>c. Some (Some (c\<lparr>sx_minimum_version := 12\<rparr>))))))"

section \<open>The tunnel\<close>

datatype handshake_result = HsDone | HsWantRead | HsFails
datatype ssl_read_result = Chunk bytes | WantRead | ZeroReturn | ReadFails

text \<open>
  The \<open>SSLObject\<close>: each function takes the object and the incoming bytes that are waiting, and returns
  the object, the bytes that are left, and what it adds to the outgoing ones.
\<close>

record 'o ssl_lib =
  sl_wrap :: "ssl_context \<Rightarrow> bool \<Rightarrow> string option \<Rightarrow> 'o"
  sl_handshake :: "'o \<Rightarrow> bytes \<Rightarrow> 'o \<times> bytes \<times> bytes \<times> handshake_result"
  sl_read :: "nat \<Rightarrow> 'o \<Rightarrow> bytes \<Rightarrow> 'o \<times> bytes \<times> bytes \<times> ssl_read_result"
  sl_write :: "bytes \<Rightarrow> 'o \<Rightarrow> ('o \<times> bytes) option"

record 'o MemoryTLSTunnel =
  mt_is_server :: bool
  mt_context :: ssl_context
  mt_incoming :: bytes
  mt_outgoing :: bytes
  mt_ssl_obj :: 'o
  mt_peer_cert_pem :: "string option"
  mt_handshake_done :: bool

text \<open>
  The certificate of a server: the given texts or else generated ones, written to two files which
  \<open>chain_ok\<close> can load or not.  A client's context checks nothing.
\<close>

definition tunnel_context ::
  "(string \<Rightarrow> string \<Rightarrow> bool) \<Rightarrow> string \<times> string \<Rightarrow> bool \<Rightarrow> string option \<Rightarrow> string option \<Rightarrow> ssl_context option" where
  "tunnel_context chain_ok generated is_server cert key =
     (if is_server then
        (case (given cert, given key) of
           (Some c, Some k) \<Rightarrow> load_cert_chain chain_ok c k (new_ssl_context PROTOCOL_TLS_SERVER)
         | _ \<Rightarrow> load_cert_chain chain_ok (fst generated) (snd generated) (new_ssl_context PROTOCOL_TLS_SERVER))
      else set_verify_mode CERT_NONE (set_check_hostname False (new_ssl_context PROTOCOL_TLS_CLIENT)))"

definition new_memory_tunnel ::
  "'o ssl_lib \<Rightarrow> ssl_context \<Rightarrow> bool \<Rightarrow> string option \<Rightarrow> 'o MemoryTLSTunnel" where
  "new_memory_tunnel lib c is_server peer_cert =
     \<lparr>mt_is_server = is_server, mt_context = c, mt_incoming = [], mt_outgoing = [],
      mt_ssl_obj = sl_wrap lib c is_server (if is_server then None else Some ''localhost''),
      mt_peer_cert_pem = peer_cert, mt_handshake_done = False\<rparr>"

text \<open>\<open>outgoing.read()\<close>.\<close>

definition drain_outgoing :: "'o MemoryTLSTunnel \<Rightarrow> 'o MemoryTLSTunnel \<times> bytes" where
  "drain_outgoing t = (t\<lparr>mt_outgoing := []\<rparr>, mt_outgoing t)"

text \<open>The answer None: the exception is raised again.\<close>

definition tunnel_do_handshake ::
  "'o ssl_lib \<Rightarrow> 'o MemoryTLSTunnel \<Rightarrow> 'o MemoryTLSTunnel \<times> (bool \<times> bytes) option" where
  "tunnel_do_handshake lib t =
     (if mt_handshake_done t then (t, Some (True, []))
      else
        (case sl_handshake lib (mt_ssl_obj t) (mt_incoming t) of
           (obj, left, out, res) \<Rightarrow>
             (let t1 = t\<lparr>mt_ssl_obj := obj, mt_incoming := left, mt_outgoing := mt_outgoing t @ out\<rparr>
              in case res of
                   HsDone \<Rightarrow>
                     (case drain_outgoing (t1\<lparr>mt_handshake_done := True\<rparr>) of (t2, bs) \<Rightarrow> (t2, Some (True, bs)))
                 | HsWantRead \<Rightarrow> (case drain_outgoing t1 of (t2, bs) \<Rightarrow> (t2, Some (False, bs)))
                 | HsFails \<Rightarrow> (t1, None))))"

text \<open>
  The loop that reads what there is.  Whether it ends is the library's business, so it is a
  \<open>partial_function\<close>; in a result, None for the text is an exception, and what was read before it is
  lost.
\<close>

partial_function (option) read_plain ::
  "'o ssl_lib \<Rightarrow> 'o MemoryTLSTunnel \<Rightarrow> bytes \<Rightarrow> ('o MemoryTLSTunnel \<times> bytes option) option" where
  "read_plain lib t plaintext =
     (case sl_read lib 4096 (mt_ssl_obj t) (mt_incoming t) of
        (obj, left, out, res) \<Rightarrow>
          (let t1 = t\<lparr>mt_ssl_obj := obj, mt_incoming := left, mt_outgoing := mt_outgoing t @ out\<rparr>
           in case res of
                Chunk c \<Rightarrow> if c = [] then Some (t1, Some plaintext) else read_plain lib t1 (plaintext @ c)
              | WantRead \<Rightarrow> Some (t1, Some plaintext)
              | ZeroReturn \<Rightarrow> Some (t1, Some plaintext)
              | ReadFails \<Rightarrow> Some (t1, None)))"

definition feed_encrypted ::
  "'o ssl_lib \<Rightarrow> bytes \<Rightarrow> 'o MemoryTLSTunnel \<Rightarrow> ('o MemoryTLSTunnel \<times> bytes option) option" where
  "feed_encrypted lib bs t =
     (if bs = [] then Some (t, Some [])
      else
        (let t1 = t\<lparr>mt_incoming := mt_incoming t @ bs\<rparr>
         in if \<not> mt_handshake_done t1 then Some (t1, Some []) else read_plain lib t1 []))"

definition write_plaintext ::
  "'o ssl_lib \<Rightarrow> bytes \<Rightarrow> 'o MemoryTLSTunnel \<Rightarrow> 'o MemoryTLSTunnel \<times> bytes option" where
  "write_plaintext lib bs t =
     (if bs = [] then (t, Some [])
      else
        (case sl_write lib bs (mt_ssl_obj t) of
           None \<Rightarrow> (t, None)
         | Some (obj, out) \<Rightarrow>
             (case drain_outgoing (t\<lparr>mt_ssl_obj := obj, mt_outgoing := mt_outgoing t @ out\<rparr>) of
                (t1, enc) \<Rightarrow> (t1, Some enc))))"

section \<open>A channel\<close>

text \<open>
  What the mesh code relies on: two ends that are linked, and what one seals the other unseals, after
  which they are linked again.
\<close>

locale secure_channel =
  fixes seal :: "bytes \<Rightarrow> 't \<Rightarrow> 't \<times> bytes option"
    and unseal :: "bytes \<Rightarrow> 't \<Rightarrow> ('t \<times> bytes option) option"
    and linked :: "'t \<Rightarrow> 't \<Rightarrow> bool"
  assumes linked_sym: "linked a b \<Longrightarrow> linked b a"
    and seal_unseal: "linked a b \<Longrightarrow> bs \<noteq> [] \<Longrightarrow>
      \<exists>a' enc b'. seal bs a = (a', Some enc) \<and> unseal enc b = Some (b', Some bs) \<and> linked a' b'"

text \<open>Messages sent by turns: True from the first end to the second.  None: an exception.\<close>

fun converse ::
  "(bytes \<Rightarrow> 't \<Rightarrow> 't \<times> bytes option) \<Rightarrow> (bytes \<Rightarrow> 't \<Rightarrow> ('t \<times> bytes option) option)
     \<Rightarrow> (bool \<times> bytes) list \<Rightarrow> 't \<Rightarrow> 't \<Rightarrow> (bool \<times> bytes) list option" where
  "converse seal unseal [] a b = Some []"
| "converse seal unseal ((d, bs) # ms) a b =
     (case seal bs (if d then a else b) of
        (x, Some enc) \<Rightarrow>
          (case unseal enc (if d then b else a) of
             Some (y, Some got) \<Rightarrow>
               map_option (\<lambda>rest. (d, got) # rest)
                 (converse seal unseal ms (if d then x else y) (if d then y else x))
           | _ \<Rightarrow> None)
      | _ \<Rightarrow> None)"

context secure_channel
begin

lemma converse_faithful:
  "linked a b \<Longrightarrow> \<forall>m \<in> set ms. snd m \<noteq> [] \<Longrightarrow> converse seal unseal ms a b = Some ms"
proof (induction ms arbitrary: a b)
  case (Cons m ms)
  obtain d bs where m: "m = (d, bs)" by (cases m)
  have l: "linked (if d then a else b) (if d then b else a)" using Cons.prems(1) linked_sym by simp
  have "bs \<noteq> []" using Cons.prems(2) m by simp
  from seal_unseal [OF l this] obtain x enc y where x: "seal bs (if d then a else b) = (x, Some enc)"
    "unseal enc (if d then b else a) = Some (y, Some bs)" "linked x y"
    by blast
  then have "linked (if d then x else y) (if d then y else x)" using linked_sym by simp
  with Cons.IH [OF this] Cons.prems(2) x m show ?case by simp
qed simp

end

section \<open>TLS as a channel\<close>

text \<open>
  The object gives a text when it is read again and again: pieces that are not empty, until it wants
  to read more; it puts nothing out meanwhile.
\<close>

inductive ssl_yields :: "'o ssl_lib \<Rightarrow> 'o \<Rightarrow> bytes \<Rightarrow> bytes \<Rightarrow> 'o \<Rightarrow> bool" for lib where
  dry: "sl_read lib 4096 x inb = (y, [], [], WantRead) \<Longrightarrow> ssl_yields lib x inb [] y"
| more: "sl_read lib 4096 x inb = (x1, inb1, [], Chunk c) \<Longrightarrow> c \<noteq> [] \<Longrightarrow> ssl_yields lib x1 inb1 rest y \<Longrightarrow>
    ssl_yields lib x inb (c @ rest) y"

text \<open>
  What is documented of TLS after a handshake: \<open>link\<close> relates the two ends of a session, and what one
  of them writes the other reads.
\<close>

definition tls_law :: "'o ssl_lib \<Rightarrow> ('o \<Rightarrow> 'o \<Rightarrow> bool) \<Rightarrow> bool" where
  "tls_law lib link =
     ((\<forall>x y. link x y \<longrightarrow> link y x)
      \<and> (\<forall>x y bs. link x y \<and> bs \<noteq> [] \<longrightarrow>
           (\<exists>x' enc y'. sl_write lib bs x = Some (x', enc) \<and> enc \<noteq> [] \<and> ssl_yields lib y enc bs y' \<and> link x' y')))"

definition idle_tunnel :: "'o MemoryTLSTunnel \<Rightarrow> bool" where
  "idle_tunnel t = (mt_handshake_done t \<and> mt_incoming t = [] \<and> mt_outgoing t = [])"

definition tunnels_linked :: "'o ssl_lib \<Rightarrow> 'o MemoryTLSTunnel \<Rightarrow> 'o MemoryTLSTunnel \<Rightarrow> bool" where
  "tunnels_linked lib a b =
     (idle_tunnel a \<and> idle_tunnel b \<and> (\<exists>link. tls_law lib link \<and> link (mt_ssl_obj a) (mt_ssl_obj b)))"

lemma yields_read:
  "ssl_yields lib x inb bs y \<Longrightarrow> mt_ssl_obj t = x \<Longrightarrow> mt_incoming t = inb \<Longrightarrow>
   read_plain lib t acc = Some (t\<lparr>mt_ssl_obj := y, mt_incoming := []\<rparr>, Some (acc @ bs))"
proof (induction arbitrary: t acc rule: ssl_yields.induct)
  case (more x inb x1 inb1 c rest y)
  let ?t = "t\<lparr>mt_ssl_obj := x1, mt_incoming := inb1\<rparr>"
  have "read_plain lib ?t (acc @ c) = Some (?t\<lparr>mt_ssl_obj := y, mt_incoming := []\<rparr>, Some ((acc @ c) @ rest))"
    by (rule more.IH) simp_all
  then show ?case
    using more.hyps(1,2) more.prems by (subst read_plain.simps) simp
qed (simp add: read_plain.simps)

interpretation tls: secure_channel "write_plaintext lib" "feed_encrypted lib" "tunnels_linked lib" for lib :: "'o ssl_lib"
proof
  fix a b :: "'o MemoryTLSTunnel" and bs :: bytes
  assume l: "tunnels_linked lib a b"
  then show "tunnels_linked lib b a" by (auto simp: tunnels_linked_def tls_law_def)
  assume bs: "bs \<noteq> []"
  from l obtain link where link: "tls_law lib link" "link (mt_ssl_obj a) (mt_ssl_obj b)"
    and idle: "idle_tunnel a" "idle_tunnel b" by (auto simp: tunnels_linked_def)
  then obtain x enc y where x: "sl_write lib bs (mt_ssl_obj a) = Some (x, enc)" "enc \<noteq> []"
    "ssl_yields lib (mt_ssl_obj b) enc bs y" "link x y"
    using bs unfolding tls_law_def by meson
  let ?a = "a\<lparr>mt_ssl_obj := x\<rparr>" and ?b = "b\<lparr>mt_incoming := enc\<rparr>"
  have "write_plaintext lib bs a = (?a, Some enc)"
    using x(1) bs idle(1) by (simp add: write_plaintext_def drain_outgoing_def idle_tunnel_def)
  moreover have "feed_encrypted lib enc b = Some (?b\<lparr>mt_ssl_obj := y, mt_incoming := []\<rparr>, Some bs)"
    using yields_read [OF x(3), of ?b "[]"] x(2) idle(2) by (simp add: feed_encrypted_def idle_tunnel_def)
  moreover have "tunnels_linked lib ?a (?b\<lparr>mt_ssl_obj := y, mt_incoming := []\<rparr>)"
    using idle x(4) link(1) by (auto simp: tunnels_linked_def idle_tunnel_def)
  ultimately show "\<exists>a' enc b'. write_plaintext lib bs a = (a', Some enc)
      \<and> feed_encrypted lib enc b = Some (b', Some bs) \<and> tunnels_linked lib a' b'" by blast
qed

text \<open>
  C7. Two tunnels that have shaken hands are a faithful channel: whatever is written on either end,
  by turns and in any sizes, comes out of the other as it was written, message by message.
\<close>

theorem tunnels_converse:
  assumes "tls_law lib link" and "link (mt_ssl_obj a) (mt_ssl_obj b)"
    and "idle_tunnel a" and "idle_tunnel b" and "\<forall>m \<in> set ms. snd m \<noteq> []"
  shows "converse (write_plaintext lib) (feed_encrypted lib) ms a b = Some ms"
  by (rule tls.converse_faithful) (use assms in \<open>auto simp: tunnels_linked_def\<close>)

text \<open>A library without secrets: what is written is what is sent.\<close>

definition clear_lib :: "unit ssl_lib" where
  "clear_lib = \<lparr>sl_wrap = \<lambda>_ _ _. (), sl_handshake = \<lambda>x inb. (x, inb, [], HsDone),
     sl_read = \<lambda>n x inb. if inb = [] then (x, [], [], WantRead) else (x, drop n inb, [], Chunk (take n inb)),
     sl_write = \<lambda>bs x. Some (x, bs)\<rparr>"

lemma clear_yields: "ssl_yields clear_lib () bs bs ()"
proof (induction bs rule: length_induct)
  case (1 bs)
  show ?case
  proof (cases "bs = []")
    case False
    then have "ssl_yields clear_lib () (drop 4096 bs) (drop 4096 bs) ()" using 1 by simp
    with False have "ssl_yields clear_lib () bs (take 4096 bs @ drop 4096 bs) ()"
      by (intro ssl_yields.more) (simp_all add: clear_lib_def)
    then show ?thesis by simp
  qed (simp add: clear_lib_def ssl_yields.dry)
qed

lemma clear_lib_law: "tls_law clear_lib (\<lambda>x y. True)"
  using clear_yields by (auto simp: tls_law_def) (simp_all add: clear_lib_def)

definition ready_tunnel :: "bool \<Rightarrow> unit MemoryTLSTunnel" where
  "ready_tunnel b = (new_memory_tunnel clear_lib (new_ssl_context PROTOCOL_TLS_CLIENT) b None)\<lparr>mt_handshake_done := True\<rparr>"

theorem tunnels_converse_witness:
  "converse (write_plaintext clear_lib) (feed_encrypted clear_lib) [(True, [1, 2]), (False, [3])]
     (ready_tunnel True) (ready_tunnel False) = Some [(True, [1, 2]), (False, [3])]"
  by (rule tunnels_converse [OF clear_lib_law])
    (simp_all add: ready_tunnel_def new_memory_tunnel_def idle_tunnel_def)

section \<open>Verification\<close>

lemmas ssl_set_defs = new_ssl_context_def set_verify_mode_def set_check_hostname_def load_cert_chain_def
  load_verify_locations_def

text \<open>
  What a TLS context checks is what its configuration asks for: a client's context verifies the
  server's certificate and host name, with a source of trust, exactly when \<open>verify\<close> is on; a server's
  has a certificate and asks for the client's exactly when \<open>verify_client\<close> is on; both need TLS 1.2;
  and without a certificate or key, or with a file that does not load, there is no server context.
\<close>

lemma tls_context_checks:
  "(create_client_ssl_context chain_ok ca_ok cfg = Some (Some c) \<longrightarrow>
      (sx_verify_mode c = CERT_REQUIRED \<longleftrightarrow> tc_verify cfg) \<and> (sx_check_hostname c \<longleftrightarrow> tc_verify cfg)
      \<and> (sx_trust c \<noteq> TrustNothing \<longleftrightarrow> tc_verify cfg) \<and> sx_minimum_version c = 12)
   \<and> (create_server_ssl_context chain_ok ca_ok cfg = Some (Some c) \<longrightarrow>
      (\<exists>cert key. sx_cert_chain c = Some (cert, key) \<and> chain_ok cert key)
      \<and> (sx_verify_mode c = CERT_REQUIRED \<longleftrightarrow> tc_verify_client cfg) \<and> sx_minimum_version c = 12)
   \<and> (tc_enabled cfg \<and> (given (tc_cert_file cfg) = None \<or> given (tc_key_file cfg) = None) \<longrightarrow>
      create_server_ssl_context chain_ok ca_ok cfg = None)"
proof (intro conjI impI)
  assume "create_client_ssl_context chain_ok ca_ok cfg = Some (Some c)"
  then show "sx_verify_mode c = CERT_REQUIRED \<longleftrightarrow> tc_verify cfg" "sx_check_hostname c \<longleftrightarrow> tc_verify cfg"
    "sx_trust c \<noteq> TrustNothing \<longleftrightarrow> tc_verify cfg" "sx_minimum_version c = 12"
    by (auto simp: create_client_ssl_context_def ssl_set_defs Let_def split: if_splits option.splits Option.bind_splits)
next
  assume "create_server_ssl_context chain_ok ca_ok cfg = Some (Some c)"
  then show "\<exists>cert key. sx_cert_chain c = Some (cert, key) \<and> chain_ok cert key"
    "sx_verify_mode c = CERT_REQUIRED \<longleftrightarrow> tc_verify_client cfg" "sx_minimum_version c = 12"
    by (auto simp: create_server_ssl_context_def ssl_set_defs Let_def split: if_splits option.splits Option.bind_splits)
next
  assume "tc_enabled cfg \<and> (given (tc_cert_file cfg) = None \<or> given (tc_key_file cfg) = None)"
  then show "create_server_ssl_context chain_ok ca_ok cfg = None"
    by (auto simp: create_server_ssl_context_def split: option.split)
qed

text \<open>The pinned certificate as the only change to a tunnel.\<close>

abbreviation pin :: "string option \<Rightarrow> 'o MemoryTLSTunnel \<Rightarrow> 'o MemoryTLSTunnel" where
  "pin p \<equiv> mt_peer_cert_pem_update (\<lambda>_. p)"

lemma pin_moves:
  "mt_incoming_update f (pin p t) = pin p (mt_incoming_update f t)"
  "mt_outgoing_update g (pin p t) = pin p (mt_outgoing_update g t)"
  "mt_ssl_obj_update h (pin p t) = pin p (mt_ssl_obj_update h t)"
  "mt_handshake_done_update k (pin p t) = pin p (mt_handshake_done_update k t)"
  by (cases t, simp)+

lemma read_plain_pin':
  "read_plain lib t acc = Some r \<Longrightarrow> read_plain lib (pin p t) acc = Some (apfst (pin p) r)"
proof (rule read_plain.raw_induct [where P = "\<lambda>lib t acc r. read_plain lib (pin p t) acc = Some (apfst (pin p) r)"])
  fix rec lib t acc r
  assume IH: "\<And>lib t acc r. rec lib t acc = Some r \<Longrightarrow> read_plain lib (pin p t) acc = Some (apfst (pin p) r)"
    and step: "(case sl_read lib 4096 (mt_ssl_obj t) (mt_incoming t) of
        (obj, left, out, res) \<Rightarrow>
          (let t1 = t\<lparr>mt_ssl_obj := obj, mt_incoming := left, mt_outgoing := mt_outgoing t @ out\<rparr>
           in case res of
                Chunk c \<Rightarrow> if c = [] then Some (t1, Some acc) else rec lib t1 (acc @ c)
              | WantRead \<Rightarrow> Some (t1, Some acc)
              | ZeroReturn \<Rightarrow> Some (t1, Some acc)
              | ReadFails \<Rightarrow> Some (t1, None))) = Some r"
  obtain obj left out res where sr: "sl_read lib 4096 (mt_ssl_obj t) (mt_incoming t) = (obj, left, out, res)"
    by (cases "sl_read lib 4096 (mt_ssl_obj t) (mt_incoming t)")
  show "read_plain lib (pin p t) acc = Some (apfst (pin p) r)"
  proof (cases res)
    case (Chunk c)
    show ?thesis
    proof (cases "c = []")
      case False
      let ?t = "t\<lparr>mt_ssl_obj := obj, mt_incoming := left, mt_outgoing := mt_outgoing t @ out\<rparr>"
      have "rec lib ?t (acc @ c) = Some r" using step Chunk False by (simp add: sr)
      from IH [OF this] have "read_plain lib (pin p ?t) (acc @ c) = Some (apfst (pin p) r)" .
      then show ?thesis using Chunk False by (subst read_plain.simps) (simp add: sr pin_moves)
    qed (use step Chunk in \<open>subst read_plain.simps, auto simp: sr pin_moves\<close>)
  qed (use step in \<open>subst read_plain.simps, auto simp: sr pin_moves\<close>)+
qed

lemma read_plain_pin:
  "read_plain lib (pin p t) acc = map_option (apfst (pin p)) (read_plain lib t acc)"
proof (cases "read_plain lib t acc")
  case None
  have "read_plain lib (pin p t) acc = None"
  proof (rule ccontr)
    assume "read_plain lib (pin p t) acc \<noteq> None"
    then obtain r where "read_plain lib (pin p t) acc = Some r" by auto
    from read_plain_pin' [OF this, of "mt_peer_cert_pem t"] None show False by simp
  qed
  with None show ?thesis by simp
qed (simp add: read_plain_pin')

text \<open>
  Nothing looks at the certificate that a peer is pinned to: a tunnel with another pinned
  certificate shakes hands, reads and writes in the same way, and the context of a client's tunnel
  verifies no certificate and no host name.
\<close>

lemma pinned_certificate_ignored:
  "tunnel_do_handshake lib (pin p t) = apfst (pin p) (tunnel_do_handshake lib t)
   \<and> feed_encrypted lib bs (pin p t) = map_option (apfst (pin p)) (feed_encrypted lib bs t)
   \<and> write_plaintext lib bs (pin p t) = apfst (pin p) (write_plaintext lib bs t)
   \<and> (\<exists>c. tunnel_context chain_ok generated False cert key = Some c
        \<and> sx_verify_mode c = CERT_NONE \<and> \<not> sx_check_hostname c \<and> sx_trust c = TrustNothing)"
proof (intro conjI)
  show "tunnel_do_handshake lib (pin p t) = apfst (pin p) (tunnel_do_handshake lib t)"
    by (simp add: tunnel_do_handshake_def drain_outgoing_def Let_def pin_moves split: prod.split handshake_result.split)
  show "feed_encrypted lib bs (pin p t) = map_option (apfst (pin p)) (feed_encrypted lib bs t)"
    using read_plain_pin [of lib p "t\<lparr>mt_incoming := mt_incoming t @ bs\<rparr>" "[]"]
    by (simp add: feed_encrypted_def Let_def pin_moves)
  show "write_plaintext lib bs (pin p t) = apfst (pin p) (write_plaintext lib bs t)"
    by (simp add: write_plaintext_def drain_outgoing_def pin_moves split: option.split)
qed (simp add: tunnel_context_def ssl_set_defs)

end
