(* ===== verification/MeshTls.thy ===== *)
theory MeshTls
  imports Tunnel Protocol ServerProofs ClientProofs
begin

text \<open>
  The mesh code over the real tunnel: the tunnel operations that \<open>Server\<close> and \<open>Client\<close> take from their
  environments are those of \<open>mesh/tunnel.py\<close>.  An exception of the tunnel is an exception of the
  handler.
\<close>

section \<open>The tunnel in the two environments\<close>

definition tunnel_feed :: "'o ssl_lib \<Rightarrow> 'o MemoryTLSTunnel \<Rightarrow> bytes \<Rightarrow> ('o MemoryTLSTunnel \<times> bytes) option" where
  "tunnel_feed lib t bs =
     (case feed_encrypted lib bs t of Some (t', Some plain) \<Rightarrow> Some (t', plain) | _ \<Rightarrow> None)"

definition tunnel_handshake :: "'o ssl_lib \<Rightarrow> 'o MemoryTLSTunnel \<Rightarrow> ('o MemoryTLSTunnel \<times> bytes) option" where
  "tunnel_handshake lib t =
     (case tunnel_do_handshake lib t of (t', Some (b, out)) \<Rightarrow> Some (t', out) | (t', None) \<Rightarrow> None)"

definition tunnel_write :: "'o ssl_lib \<Rightarrow> 'o MemoryTLSTunnel \<Rightarrow> bytes \<Rightarrow> ('o MemoryTLSTunnel \<times> bytes) option" where
  "tunnel_write lib t bs =
     (case write_plaintext lib bs t of (t', Some enc) \<Rightarrow> Some (t', enc) | (t', None) \<Rightarrow> None)"

definition tls_server_env ::
  "'o ssl_lib \<Rightarrow> ssl_context \<Rightarrow> ('m, 'h, 'u) server_env \<Rightarrow> ('m, 'h, 'o MemoryTLSTunnel) server_env" where
  "tls_server_env lib c ev =
     \<lparr>ev_codec = ev_codec ev, ev_crypto = ev_crypto ev, ev_rpc = ev_rpc ev, ev_msg = ev_msg ev,
      ev_gate = ev_gate ev, ev_deliver = ev_deliver ev, ev_new_tunnel = new_memory_tunnel lib c True None,
      ev_feed = tunnel_feed lib, ev_handshake = tunnel_handshake lib, ev_write = tunnel_write lib\<rparr>"

definition tls_client_env ::
  "'o ssl_lib \<Rightarrow> (bool \<Rightarrow> ssl_context) \<Rightarrow> ('m, 'h, 'u) client_env \<Rightarrow> ('m, 'h, 'o MemoryTLSTunnel) client_env" where
  "tls_client_env lib c ev =
     \<lparr>ce_codec = ce_codec ev, ce_sha256 = ce_sha256 ev, ce_rpc = ce_rpc ev, ce_msg = ce_msg ev,
      ce_deliver = ce_deliver ev, ce_private_ip = ce_private_ip ev,
      ce_new_tunnel = (\<lambda>b. new_memory_tunnel lib (c b) b None), ce_feed = tunnel_feed lib,
      ce_handshake = tunnel_handshake lib, ce_handshake_done = mt_handshake_done, ce_write = tunnel_write lib\<rparr>"

lemma tls_env_simps [simp]:
  "ev_codec (tls_server_env lib c ev) = ev_codec ev" "ev_msg (tls_server_env lib c ev) = ev_msg ev"
  "ev_deliver (tls_server_env lib c ev) = ev_deliver ev" "ev_feed (tls_server_env lib c ev) = tunnel_feed lib"
  "ev_handshake (tls_server_env lib c ev) = tunnel_handshake lib"
  "ev_new_tunnel (tls_server_env lib c ev) = new_memory_tunnel lib c True None"
  by (simp_all add: tls_server_env_def)

lemma message_received:
  assumes "encode_message cd e t v corr now = (Inr frame, e')"
    and "wire_laws cd" and "framed_law cd" and "json_law cd v" and "structured v"
    and "length frame \<le> 100 * 1024 * 1024"
  shows "\<exists>m. decode_single cd frame = Inr m \<and> get_message_type_str m = PStr t \<and> get_data m = v"
proof -
  from assms(1) obtain bs payload where bs: "serialize_data cd v = Inr bs"
    and payload: "ser_MessagePayload cd \<lparr>mp_type = t, mp_data = bs\<rparr> = Some payload"
    and enc: "encode_plain cd e MESSAGE payload corr now = (Inr frame, e')"
    by (auto simp: encode_message_def encode_serialized_def split: sum.splits option.splits)
  from payload assms(2) have
    "decode_payload cd MESSAGE payload = Some (PDict [(''type'', PStr t), (''data'', v)])"
    using structured_undone [OF assms(4,5) bs]
    by (auto simp: wire_laws_def message_law_def decode_payload_def)
  from frame_received [OF enc _ assms(2,3) this assms(6)] show ?thesis
    by (auto simp: get_message_type_str_def get_data_def dict_get_def)
qed

text \<open>
  C19. A sealed message is read as it was sent: what a node encodes and writes into its end of a
  tunnel, arriving in a mesh packet at the server that holds the other end, is decrypted, decoded and
  routed to the handlers with the same type and the same data.
\<close>

theorem sealed_message_routed:
  assumes tls: "tls_law lib link" "link (mt_ssl_obj a) (mt_ssl_obj b)" "idle_tunnel a" "idle_tunnel b"
    and sent: "encode_message (ev_codec ev) e t v None now0 = (Inr frame, e')"
      "write_plaintext lib frame a = (a', Some enc)"
    and laws: "wire_laws (ev_codec ev)" "framed_law (ev_codec ev)" "json_law (ev_codec ev) v" "structured v"
    and size: "length frame \<le> 100 * 1024 * 1024" "frame \<noteq> []"
    and m: "map_of (sv_mesh_tunnels s) (dm_route_src m) = Some b" "get_data m = PBytes enc"
  shows "\<exists>rest. fst (snd (mesh_secure (tls_server_env lib c0 ev) k c m now s)) =
      Routed (fst (route (\<lambda>h. ev_msg ev h c v) (sv_router s) t True)) # rest"
proof -
  have "tunnels_linked lib a b" using tls by (auto simp: tunnels_linked_def)
  from tls.seal_unseal [OF this size(2)] sent(2) obtain b' where "feed_encrypted lib enc b = Some (b', Some frame)"
    by auto
  then have feed: "ev_feed (tls_server_env lib c0 ev) b enc = Some (b', frame)"
    by (simp add: tunnel_feed_def)
  from message_received [OF sent(1) laws size(1)] obtain inner where inner:
    "decode_single (ev_codec (tls_server_env lib c0 ev)) frame = Inr inner"
    "get_message_type_str inner = PStr t" "get_data inner = v" by auto
  from mesh_secure_routes [OF m feed inner(1,2), of k c now] inner(3) show ?thesis by simp
qed

text \<open>A server with one handler and a tunnel to the node ''n'', and a packet of that node.\<close>

definition tls_sample :: "(nat, nat, unit MemoryTLSTunnel) Server" where
  "tls_sample = (new_server sample_crypto 0 1 2 ''srv'' ''1'' ''pw'' 10 [] 4 False default_RateLimitConfig 30 90)
     \<lparr>sv_router := router_register ''hi'' 5 True 0 new_router, sv_mesh_tunnels := [(''n'', ready_tunnel True)]\<rparr>"

lemma tls_sample_simps:
  "map_of (sv_mesh_tunnels tls_sample) ''n'' = Some (ready_tunnel True)"
  "sv_router tls_sample = router_register ''hi'' 5 True 0 new_router"
  by (simp_all add: tls_sample_def)

definition sealed_packet :: "bytes \<Rightarrow> DecodedMessage" where
  "sealed_packet bs = (reply_message 1 (PDict [(''type'', PStr ''mesh''), (''data'', PBytes bs)]))
     \<lparr>dm_route_src := ''n'', dm_header := (dm_header (reply_message 1 PNone))\<lparr>hdr_message_type := MESSAGE\<rparr>\<rparr>"

lemma sealed_packet_simps:
  "dm_route_src (sealed_packet bs) = ''n''" "get_data (sealed_packet bs) = PBytes bs"
  by (simp_all add: sealed_packet_def dm_message_type_def reply_message_def get_data_def dict_get_def)

theorem sealed_message_routed_witness:
  "\<exists>cd rest. fst (snd (mesh_secure (tls_server_env clear_lib (new_ssl_context PROTOCOL_TLS_SERVER) (sample_env cd)) ''a''
      (new_connection ''a'' [] 0) (sealed_packet [0, 0, 0, 2, 1, 2]) 0 tls_sample)) = Routed [Called 5] # rest"
proof -
  let ?pk = "build_packet MESSAGE [8] None 0 None None False 2"
  let ?cd = "sample_codec (?pk, [1, 2]) (\<lparr>mp_type = ''hi'', mp_data = utf8_encode ''5''\<rparr>, [8]) undefined undefined (PInt 5, ''5'')"
  have codec: "ev_codec (sample_env ?cd) = ?cd" "ev_msg (sample_env ?cd) = (\<lambda>_ _ _. Returned PNone)"
    by (simp_all add: sample_env_def)
  have enc: "encode_message ?cd (new_encoder True) ''hi'' (PInt 5) None 2 = (Inr [0, 0, 0, 2, 1, 2], new_encoder True)"
    by (simp add: encode_message_def serialize_data_def encode_simps compress_def
        sample_codec_def knows_def new_encoder_def to_bytes_be_def be_digits_numeral)
  have law: "json_law ?cd (PInt 5)"
    by (rule sample_codec_laws) (simp_all add: str_ok_def of_char_def)
  have "frame_of b \<noteq> [1, 2]" for b
  proof
    assume "frame_of b = [1, 2]"
    then have "length (frame_of b) = 2" by simp
    then show False by (simp add: length_frame_of)
  qed
  then have framed: "framed_law ?cd" by (simp add: framed_law_def sample_codec_def knows_back_def)
  have "idle_tunnel (ready_tunnel b)" for b by (simp add: idle_tunnel_def ready_tunnel_def new_memory_tunnel_def)
  moreover have "write_plaintext clear_lib [0, 0, 0, 2, 1, 2] (ready_tunnel False) = (ready_tunnel False, Some [0, 0, 0, 2, 1, 2])"
    by (simp add: write_plaintext_def clear_lib_def drain_outgoing_def ready_tunnel_def new_memory_tunnel_def)
  ultimately have "\<exists>rest. fst (snd (mesh_secure (tls_server_env clear_lib (new_ssl_context PROTOCOL_TLS_SERVER) (sample_env ?cd)) ''a''
      (new_connection ''a'' [] 0) (sealed_packet [0, 0, 0, 2, 1, 2]) 0 tls_sample)) =
    Routed (fst (route (\<lambda>h. ev_msg (sample_env ?cd) h (new_connection ''a'' [] 0) (PInt 5)) (sv_router tls_sample) ''hi'' True)) # rest"
    by (intro sealed_message_routed [where lib = clear_lib and link = "\<lambda>_ _. True" and a = "ready_tunnel False"
          and b = "ready_tunnel True" and frame = "[0, 0, 0, 2, 1, 2]" and e = "new_encoder True" and ?now0.0 = 2])
      (simp_all add: clear_lib_law codec enc law framed sample_wire_laws structured_def tls_sample_simps sealed_packet_simps)
  then show ?thesis
    by (auto simp: codec tls_sample_simps route_def router_register_def new_router_def router_handlers_def Let_def)
qed

text \<open>
  A node cannot shake hands twice: while the server has a tunnel under a node's name, the first
  packet of a new handshake of that node - after a restart, or another call of
  \<open>establish_mesh_tunnel\<close> - is fed to the old tunnel, where it is no valid record; the handler ends
  with that exception, answers nothing and keeps the old tunnel, and the node's wait ends without a
  tunnel.
\<close>

lemma second_handshake_refused:
  assumes "map_of (sv_mesh_tunnels s) (dm_route_src m) = Some t" and "mt_handshake_done t"
    and "get_data m = PBytes hello" and "hello \<noteq> []"
    and invalid: "sl_read lib 4096 (mt_ssl_obj t) (mt_incoming t @ hello) = (obj, left, out, ReadFails)"
  shows "snd (mesh_handshake (tls_server_env lib c ev) k m now s) = ([], None)
    \<and> map_of (sv_mesh_tunnels (fst (mesh_handshake (tls_server_env lib c ev) k m now s))) (dm_route_src m) = Some t
    \<and> mesh_tunnel_wait (\<lambda>i. False) = None"
proof -
  have "feed_encrypted lib hello t = Some (t\<lparr>mt_incoming := left, mt_ssl_obj := obj, mt_outgoing := mt_outgoing t @ out\<rparr>, None)"
    using assms(2,4) invalid by (subst feed_encrypted_def) (simp add: read_plain.simps)
  then have "tunnel_feed lib t hello = None" by (simp add: tunnel_feed_def)
  then show ?thesis
    using assms(1,3) by (simp add: mesh_handshake_def put_tunnel_def s_defs Let_def update_conv' mesh_tunnel_wait_def find_None_iff)
qed

end
