(* ===== verification/Discovery.thy ===== *)
theory Discovery
  imports Codec Rpc Protocol
begin

text \<open>
  \<open>src/conduit/discovery/mdns.py\<close>: a server advertises itself on a multicast group and answers queries,
  \<open>discover\<close> asks and collects.  Datagrams are byte lists; a receive of at most 1024 bytes cuts a longer
  one.  What the sockets do - which datagrams come, when, and which sends fail - is an argument; JSON is
  that of the parameter \<open>codec\<close>.
\<close>

section \<open>Messages\<close>

definition recv_limit :: nat where
  "recv_limit = 1024"

definition multicast_port :: int where
  "multicast_port = 53535"

text \<open>\<open>json.loads(data.decode('utf-8'))\<close> of what a receive gives, as a dict; None: an exception.\<close>

definition datagram_dict :: "codec \<Rightarrow> bytes \<Rightarrow> (string, pyval) dict option" where
  "datagram_dict cd dgram =
     Option.bind (utf8_decode (take recv_limit dgram))
       (\<lambda>text. Option.bind (json_loads cd text) (\<lambda>v. case v of PDict d \<Rightarrow> Some d | _ \<Rightarrow> None))"

definition json_bytes :: "codec \<Rightarrow> pyval \<Rightarrow> bytes option" where
  "json_bytes cd v = map_option utf8_encode (json_dumps cd v)"

section \<open>Advertising\<close>

record advertisement =
  ad_service :: string
  ad_name :: string
  ad_host :: string
  ad_port :: int
  ad_metadata :: "(string, pyval) dict"

definition advert_packet :: "string \<Rightarrow> advertisement \<Rightarrow> pyval" where
  "advert_packet kind a = PDict
     [(''type'', PStr kind), (''service'', PStr (ad_service a)), (''name'', PStr (ad_name a)),
      (''host'', PStr (ad_host a)), (''port'', PInt (ad_port a)), (''metadata'', PDict (ad_metadata a))]"

text \<open>
  What one received datagram is answered with: outer None is an exception, which is passed over, inner
  None no answer.
\<close>

definition answer_query :: "codec \<Rightarrow> advertisement \<Rightarrow> bytes \<Rightarrow> bytes option option" where
  "answer_query cd a dgram =
     Option.bind (datagram_dict cd dgram)
       (\<lambda>d. if dict_get d ''type'' = PStr ''query'' \<and> dict_get d ''service'' = PStr (ad_service a)
            then map_option Some (json_bytes cd (advert_packet ''response'' a)) else Some None)"

text \<open>
  What a receive of the advertiser ends with: a datagram with its sender, an error, or the task's
  cancellation; and what the advertiser does.  Its sends succeed.
\<close>

datatype adv_input = Datagram bytes string | RecvError | AdvCancelled
datatype adv_action = Announce | Reply string bytes | AdvSleep rat | AdvClosed

text \<open>
  The inner loop, \<open>n\<close> receives that are left: its actions, the inputs that are left, and whether it was
  cancelled (Some True), has ended (Some False) or waits for input (None).  A sleep after an error is
  0.1 seconds.
\<close>

fun advertiser_listen ::
  "codec \<Rightarrow> advertisement \<Rightarrow> nat \<Rightarrow> adv_input list \<Rightarrow> adv_action list \<times> adv_input list \<times> bool option" where
  "advertiser_listen cd a 0 ins = ([], ins, Some False)"
| "advertiser_listen cd a (Suc n) [] = ([], [], None)"
| "advertiser_listen cd a (Suc n) (q # ins) =
     (case q of
        AdvCancelled \<Rightarrow> ([], ins, Some True)
      | RecvError \<Rightarrow>
          (case advertiser_listen cd a n ins of (acts, rest, r) \<Rightarrow> (AdvSleep (1 / 10) # acts, rest, r))
      | Datagram dgram sender \<Rightarrow>
          (let here = (case answer_query cd a dgram of
                 None \<Rightarrow> [AdvSleep (1 / 10)] | Some None \<Rightarrow> [] | Some (Some r) \<Rightarrow> [Reply sender r])
           in case advertiser_listen cd a n ins of (acts, rest, r) \<Rightarrow> (here @ acts, rest, r)))"

lemma listen_rest: "advertiser_listen cd a n ins = (acts, rest, r) \<Longrightarrow> length rest + (if r = Some False then n else 0) \<le> length ins"
proof (induction n arbitrary: ins acts rest r)
  case (Suc n)
  show ?case
  proof (cases ins)
    case (Cons q qs)
    obtain acts1 rest1 r1 where l: "advertiser_listen cd a n qs = (acts1, rest1, r1)"
      by (cases "advertiser_listen cd a n qs")
    from Suc.IH [OF l] Suc.prems Cons l show ?thesis
      by (cases q) (auto simp: Let_def split: if_splits)
  qed (use Suc.prems in auto)
qed simp

text \<open>The outer loop: announce, ten receives, a pause of a second; None: the packet is no JSON.\<close>

function advertiser_rounds :: "codec \<Rightarrow> advertisement \<Rightarrow> adv_input list \<Rightarrow> adv_action list" where
  "advertiser_rounds cd a ins =
     (case advertiser_listen cd a 10 ins of
        (acts, rest, None) \<Rightarrow> Announce # acts
      | (acts, rest, Some True) \<Rightarrow> Announce # acts @ [AdvClosed]
      | (acts, rest, Some False) \<Rightarrow> Announce # acts @ AdvSleep 1 # advertiser_rounds cd a rest)"
  by pat_completeness auto
termination
proof (relation "measure (\<lambda>(cd, a, ins). length ins)", goal_cases)
  case (2 cd a ins acts y rest)
  then have "advertiser_listen cd a 10 ins = (acts, rest, Some False)" by simp
  from listen_rest [OF this] show ?case by simp
qed simp

declare advertiser_rounds.simps [simp del]

definition run_advertiser :: "codec \<Rightarrow> advertisement \<Rightarrow> adv_input list \<Rightarrow> adv_action list option" where
  "run_advertiser cd a ins =
     map_option (\<lambda>_. advertiser_rounds cd a ins) (json_bytes cd (advert_packet ''announce'' a))"

section \<open>The service object\<close>

text \<open>\<open>ds_task\<close>: the task that \<open>stop_advertiser\<close> will cancel; \<open>ds_tasks\<close> counts the tasks ever made.\<close>

record DiscoveryService =
  ds_service_type :: string
  ds_task :: "nat option"
  ds_tasks :: nat
  ds_cancelled :: "nat list"
  ds_running :: bool

definition new_discovery_service :: "string \<Rightarrow> DiscoveryService" where
  "new_discovery_service t = \<lparr>ds_service_type = t, ds_task = None, ds_tasks = 0, ds_cancelled = [], ds_running = False\<rparr>"

definition start_advertiser :: "DiscoveryService \<Rightarrow> DiscoveryService" where
  "start_advertiser s = s\<lparr>ds_running := True, ds_task := Some (ds_tasks s), ds_tasks := Suc (ds_tasks s)\<rparr>"

definition stop_advertiser :: "DiscoveryService \<Rightarrow> DiscoveryService" where
  "stop_advertiser s =
     (case ds_task s of
        None \<Rightarrow> s\<lparr>ds_running := False\<rparr>
      | Some t \<Rightarrow> s\<lparr>ds_running := False, ds_cancelled := t # ds_cancelled s, ds_task := None\<rparr>)"

section \<open>Discovering\<close>

definition query_packet :: pyval where
  "query_packet = PDict [(''type'', PStr ''query''), (''service'', PStr ''conduit'')]"

text \<open>\<open>int(p)\<close> of a text: blanks around it, a sign, digits with single underscores between them.\<close>

definition is_blank :: "char \<Rightarrow> bool" where
  "is_blank c = (of_char c \<in> {9, 10, 11, 12, 13, 28, 29, 30, 31, 32 :: nat})"

definition digit_val :: "char \<Rightarrow> nat option" where
  "digit_val c = (if 48 \<le> (of_char c :: nat) \<and> of_char c \<le> (57 :: nat) then Some (of_char c - 48) else None)"

fun digits_value :: "nat \<Rightarrow> string \<Rightarrow> nat option" where
  "digits_value acc [] = None"
| "digits_value acc [c] = map_option (\<lambda>v. 10 * acc + v) (digit_val c)"
| "digits_value acc (c # d # cs) =
     (case digit_val c of
        None \<Rightarrow> None
      | Some v \<Rightarrow> if d = CHR ''_'' then digits_value (10 * acc + v) cs else digits_value (10 * acc + v) (d # cs))"

definition py_int_of_str :: "string \<Rightarrow> int option" where
  "py_int_of_str s =
     (let t = rev (dropWhile is_blank (rev (dropWhile is_blank s)))
      in case t of
           [] \<Rightarrow> None
         | c # cs \<Rightarrow>
             if c = CHR ''-'' then map_option (\<lambda>n. - int n) (digits_value 0 cs)
             else if c = CHR ''+'' then map_option int (digits_value 0 cs)
             else map_option int (digits_value 0 t))"

fun split_on :: "char \<Rightarrow> string \<Rightarrow> string list" where
  "split_on c [] = [[]]"
| "split_on c (x # xs) =
     (if x = c then [] # split_on c xs
      else (case split_on c xs of [] \<Rightarrow> [[x]] | p # ps \<Rightarrow> (x # p) # ps))"

text \<open>Where a query to a remote host goes; None: an exception, and the host is passed over.\<close>

definition remote_target :: "string \<Rightarrow> (string \<times> int) option" where
  "remote_target r_host =
     (if CHR '':'' \<in> set r_host then
        (case split_on (CHR '':'') r_host of
           [h, p] \<Rightarrow> map_option (\<lambda>n. (h, n)) (py_int_of_str p)
         | _ \<Rightarrow> None)
      else Some (r_host, multicast_port))"

definition query_targets :: "string list option \<Rightarrow> (string \<times> int) list" where
  "query_targets remote_hosts =
     (''224.0.0.251'', multicast_port)
     # (case remote_hosts of None \<Rightarrow> [] | Some hs \<Rightarrow> concat (map (\<lambda>h. case remote_target h of None \<Rightarrow> [] | Some t \<Rightarrow> [t]) hs))"

text \<open>One received datagram of the collecting loop.\<close>

definition collect_answer ::
  "codec \<Rightarrow> bytes \<Rightarrow> string \<Rightarrow> (string, pyval) dict \<Rightarrow> (string, pyval) dict" where
  "collect_answer cd dgram sender found =
     (case datagram_dict cd dgram of
        None \<Rightarrow> found
      | Some d \<Rightarrow>
          if dict_get d ''type'' \<in> {PStr ''response'', PStr ''announce''} \<and> dict_get d ''service'' = PStr ''conduit''
          then
            (let host = (if dict_get d ''host'' \<in> {PStr ''0.0.0.0'', PStr ''::''} then PStr sender else dict_get d ''host'');
                 key = py_str cd host @ '':'' @ py_str cd (dict_get d ''port'')
             in AList.update key
                  (PDict [(''name'', dict_get d ''name''), (''host'', host), (''port'', dict_get d ''port''),
                          (''metadata'', if dict_has d ''metadata'' then dict_get d ''metadata'' else PDict [])]) found)
          else found)"

text \<open>
  The loop: each round has the time that has passed when it begins and what its receive gives within
  0.2 seconds, if anything.
\<close>

fun collect_rounds ::
  "codec \<Rightarrow> time \<Rightarrow> (time \<times> (bytes \<times> string) option) list \<Rightarrow> (string, pyval) dict \<Rightarrow> (string, pyval) dict" where
  "collect_rounds cd timeout [] found = found"
| "collect_rounds cd timeout ((elapsed, got) # rounds) found =
     (if timeout \<le> elapsed then found
      else collect_rounds cd timeout rounds
        (case got of None \<Rightarrow> found | Some (dgram, sender) \<Rightarrow> collect_answer cd dgram sender found))"

definition discover_servers :: "codec \<Rightarrow> time \<Rightarrow> (time \<times> (bytes \<times> string) option) list \<Rightarrow> pyval list" where
  "discover_servers cd timeout rounds = map snd (collect_rounds cd timeout rounds [])"

section \<open>What is found\<close>

text \<open>The entry that an advertisement becomes, seen from a host that knows its sender.\<close>

definition found_host :: "advertisement \<Rightarrow> string \<Rightarrow> string" where
  "found_host a sender = (if ad_host a \<in> {''0.0.0.0'', ''::''} then sender else ad_host a)"

definition found_key :: "codec \<Rightarrow> advertisement \<Rightarrow> string \<Rightarrow> string" where
  "found_key cd a sender = found_host a sender @ '':'' @ py_str cd (PInt (ad_port a))"

definition found_entry :: "advertisement \<Rightarrow> string \<Rightarrow> pyval" where
  "found_entry a sender = PDict [(''name'', PStr (ad_name a)), (''host'', PStr (found_host a sender)),
     (''port'', PInt (ad_port a)), (''metadata'', PDict (ad_metadata a))]"

lemma json_received:
  assumes "json_bytes cd (PDict d) = Some bs" and "json_law cd (PDict d)" and "length bs \<le> recv_limit"
  shows "datagram_dict cd bs = Some d"
proof -
  from assms(1) obtain t where t: "json_dumps cd (PDict d) = Some t" "bs = utf8_encode t" by (auto simp: json_bytes_def)
  with assms(2) have "str_ok t" "json_loads cd t = Some (PDict d)" by (auto simp: json_law_def)
  with t assms(3) show ?thesis by (simp add: datagram_dict_def utf8_decode_encode)
qed

lemma collect_rounds_append:
  "\<forall>x \<in> set xs. fst x < timeout \<Longrightarrow>
   collect_rounds cd timeout (xs @ ys) found = collect_rounds cd timeout ys (collect_rounds cd timeout xs found)"
  by (induction cd timeout xs found rule: collect_rounds.induct) auto

text \<open>
  C21. A server that advertises is found: the query that \<open>discover\<close> sends makes an advertiser of the
  service "conduit" - and of no other service - answer, and the answer, received in time and in whole,
  puts the server's name, port and metadata under its address, with the sender's address for a server
  that listens on all interfaces.
\<close>

theorem advertised_server_found:
  assumes "json_bytes cd query_packet = Some q" and "json_law cd query_packet" and "length q \<le> recv_limit"
    and "json_bytes cd (advert_packet ''response'' a) = Some r" and "json_law cd (advert_packet ''response'' a)"
    and "length r \<le> recv_limit" and "\<forall>x \<in> set earlier. fst x < timeout" and "elapsed < timeout"
  shows "answer_query cd a q = Some (if ad_service a = ''conduit'' then Some r else None)
    \<and> (ad_service a = ''conduit'' \<longrightarrow>
        map_of (collect_rounds cd timeout (earlier @ [(elapsed, Some (r, sender))]) []) (found_key cd a sender)
          = Some (found_entry a sender)
        \<and> found_entry a sender \<in> set (discover_servers cd timeout (earlier @ [(elapsed, Some (r, sender))])))"
proof -
  have "datagram_dict cd q = Some [(''type'', PStr ''query''), (''service'', PStr ''conduit'')]"
    using json_received assms(1-3) unfolding query_packet_def by blast
  then have answer: "answer_query cd a q = Some (if ad_service a = ''conduit'' then Some r else None)"
    using assms(4) by (simp add: answer_query_def dict_get_def)
  let ?f = "collect_rounds cd timeout (earlier @ [(elapsed, Some (r, sender))]) []"
  have entry: "map_of ?f (found_key cd a sender) = Some (found_entry a sender)" if "ad_service a = ''conduit''"
  proof -
    have "datagram_dict cd r = Some [(''type'', PStr ''response''), (''service'', PStr (ad_service a)),
        (''name'', PStr (ad_name a)), (''host'', PStr (ad_host a)), (''port'', PInt (ad_port a)),
        (''metadata'', PDict (ad_metadata a))]"
      using json_received assms(4-6) unfolding advert_packet_def by blast
    then show ?thesis
      using assms(7,8) that
      by (simp add: collect_rounds_append collect_answer_def dict_get_def dict_has_def Let_def update_conv'
          found_key_def found_entry_def found_host_def py_str_def)
  qed
  moreover have "found_entry a sender \<in> set (discover_servers cd timeout (earlier @ [(elapsed, Some (r, sender))]))"
    if "ad_service a = ''conduit''"
    using map_of_SomeD [OF entry [OF that]] by (force simp: discover_servers_def)
  ultimately show ?thesis using answer by simp
qed

definition sample_ad :: advertisement where
  "sample_ad = \<lparr>ad_service = ''conduit'', ad_name = ''s'', ad_host = ''0.0.0.0'', ad_port = 80, ad_metadata = []\<rparr>"

definition discovery_codec :: codec where
  "discovery_codec = (sample_codec undefined undefined undefined undefined undefined)
     \<lparr>json_dumps := \<lambda>v. if v = query_packet then Some ''q'' else if v = advert_packet ''response'' sample_ad then Some ''r'' else None,
      json_loads := \<lambda>t. if t = ''q'' then Some query_packet else if t = ''r'' then Some (advert_packet ''response'' sample_ad) else None\<rparr>"

lemma discovery_codec_laws:
  "json_bytes discovery_codec query_packet = Some (utf8_encode ''q'')" "json_law discovery_codec query_packet"
  "json_bytes discovery_codec (advert_packet ''response'' sample_ad) = Some (utf8_encode ''r'')"
  "json_law discovery_codec (advert_packet ''response'' sample_ad)"
  by (simp_all add: json_bytes_def json_law_def discovery_codec_def query_packet_def advert_packet_def str_ok_def of_char_def)

theorem advertised_server_found_witness:
  "found_entry sample_ad ''10.0.0.7'' \<in> set (discover_servers discovery_codec 2 ([] @ [(1, Some (utf8_encode ''r'', ''10.0.0.7''))]))"
  using advertised_server_found [OF discovery_codec_laws(1,2) _ discovery_codec_laws(3,4), of "[]" 2 1 "''10.0.0.7''"]
  by (simp add: recv_limit_def sample_ad_def)

definition without_answer :: "bytes \<Rightarrow> time \<times> (bytes \<times> string) option \<Rightarrow> time \<times> (bytes \<times> string) option" where
  "without_answer r x = (case snd x of Some (b, sender) \<Rightarrow> if b = r then (fst x, None) else x | None \<Rightarrow> x)"

text \<open>
  A server with a long description cannot be found: an answer of more than 1024 bytes is cut by
  the receive, what is left is no JSON, and the collection is the same as if it had not come.
\<close>

lemma long_answer_invisible:
  assumes "recv_limit < length r"
    and cut: "\<And>t. utf8_decode (take recv_limit r) = Some t \<Longrightarrow> json_loads cd t = None"
  shows "discover_servers cd timeout rounds = discover_servers cd timeout (map (without_answer r) rounds)"
proof -
  have "datagram_dict cd r = None"
    using cut by (cases "utf8_decode (take recv_limit r)") (simp_all add: datagram_dict_def)
  then have "collect_answer cd r sender found = found" for sender found by (simp add: collect_answer_def)
  then have "collect_rounds cd timeout rounds found = collect_rounds cd timeout (map (without_answer r) rounds) found" for found
    by (induction cd timeout rounds found rule: collect_rounds.induct)
      (auto simp: without_answer_def split: option.split)
  then show ?thesis by (simp add: discover_servers_def)
qed

lemma listen_datagrams:
  assumes "\<forall>q \<in> set ins. \<exists>d h. q = Datagram d h"
  shows "\<exists>acts. Announce \<notin> set acts \<and> advertiser_listen cd a n ins =
    (if n \<le> length ins then (acts, drop n ins, Some False) else (acts, [], None))"
  using assms
proof (induction n arbitrary: ins)
  case (Suc n)
  show ?case
  proof (cases ins)
    case (Cons q qs)
    with Suc.prems obtain d h where q: "q = Datagram d h" by auto
    from Suc.IH [of qs] Suc.prems Cons obtain acts where "Announce \<notin> set acts" "advertiser_listen cd a n qs =
      (if n \<le> length qs then (acts, drop n qs, Some False) else (acts, [], None))" by auto
    with Cons q show ?thesis by (auto simp: Let_def split: option.splits)
  qed auto
qed auto

text \<open>
  Announcements are not periodic: the advertiser announces once at the start and then once for
  every ten datagrams that it receives, however much time passes.
\<close>

lemma announcements_count_datagrams:
  assumes "run_advertiser cd a ins = Some acts" and "\<forall>q \<in> set ins. \<exists>d h. q = Datagram d h"
  shows "length (filter (\<lambda>x. x = Announce) acts) = length ins div 10 + 1"
proof -
  have "length (filter (\<lambda>x. x = Announce) (advertiser_rounds cd a ins)) = length ins div 10 + 1"
    using assms(2)
  proof (induction cd a ins rule: advertiser_rounds.induct)
    case (1 cd a ins)
    from listen_datagrams [OF 1(2), of cd a 10] obtain acts where acts: "Announce \<notin> set acts"
      "advertiser_listen cd a 10 ins = (if 10 \<le> length ins then (acts, drop 10 ins, Some False) else (acts, [], None))" by blast
    have none: "filter (\<lambda>x. x = Announce) acts = []" using acts(1) by (auto simp: filter_empty_conv)
    show ?case
    proof (cases "10 \<le> length ins")
      case True
      have "\<forall>q \<in> set (drop 10 ins). \<exists>d h. q = Datagram d h" using 1(2) by (meson in_set_dropD)
      moreover have "length ins div 10 = Suc ((length ins - 10) div 10)" using True by (simp add: le_div_geq)
      ultimately show ?thesis using 1(1) [OF acts(2) [unfolded if_P [OF True], symmetric] refl refl refl] True acts(2) none
        by (subst advertiser_rounds.simps) simp
    next
      case False
      with acts(2) none show ?thesis by (subst advertiser_rounds.simps) simp
    qed
  qed
  with assms(1) show ?thesis by (auto simp: run_advertiser_def)
qed

end
