(* ===== verification/Broker.thy ===== *)
theory Broker
  imports ServerProofs ClientInv
begin

text \<open>
  The P2P broker of \<open>src/conduit/server.py\<close>: the three handlers that \<open>_setup_p2p_handlers\<close> registers.
  A \<open>p2p_request\<close> is forwarded to its target and waits for a future that a \<open>p2p_accept\<close> resolves; a
  \<open>p2p_punch_source\<close> is only forwarded.  Requests wait side by side, so a future is a cell of a store
  and the table of the code holds its address.
\<close>

section \<open>State\<close>

record ('m, 'h, 't) Broker =
  bk_server :: "('m, 'h, 't) Server"
  bk_requests :: "(pyval, nat) dict" \<comment> \<open>\<open>_p2p_requests\<close>\<close>
  bk_futures :: "future list"

definition new_broker :: "('m, 'h, 't) Server \<Rightarrow> ('m, 'h, 't) Broker" where
  "new_broker s = \<lparr>bk_server = s, bk_requests = [], bk_futures = []\<rparr>"

text \<open>A value as a key of a dict: numbers that are equal are the same key; None is a TypeError.\<close>

definition dict_key :: "pyval \<Rightarrow> pyval option" where
  "dict_key v = (case v of
      PList xs \<Rightarrow> None
    | PDict d \<Rightarrow> None
    | PBool b \<Rightarrow> Some (PFloat (if b then 1 else 0))
    | PInt i \<Rightarrow> Some (PFloat (of_int i))
    | _ \<Rightarrow> Some v)"

text \<open>A step of the server as one of the broker.\<close>

definition on_server ::
  "(('m, 'h, 't) Server, 'e, 'a) srv \<Rightarrow> (('m, 'h, 't) Broker, 'e, 'a) srv" where
  "on_server f b = (case f (bk_server b) of (s, acts, r) \<Rightarrow> (b\<lparr>bk_server := s\<rparr>, acts, r))"

section \<open>The handlers\<close>

definition session_name :: "srv_session Connection \<Rightarrow> pyval option" where
  "session_name c = (case cn_session c of
      None \<Rightarrow> None
    | Some ss \<Rightarrow> if se_client_info (ss_session ss) = [] then None
        else Some (dict_get (se_client_info (ss_session ss)) ''name''))"

text \<open>The connection that a target names, by id and then by name; outer None: a TypeError.\<close>

definition p2p_target :: "pyval \<Rightarrow> ('m, 'h, 't) Server \<Rightarrow> srv_session Connection option option" where
  "p2p_target target s =
     (if dict_key target = None then None
      else Some (case (case target of PStr t \<Rightarrow> pool_get t (sv_pool s) | _ \<Rightarrow> None) of
        Some c \<Rightarrow> Some c
      | None \<Rightarrow> find (\<lambda>c. session_name c = Some target) (pool_get_all (sv_pool s))))"

definition source_name :: "srv_session Connection \<Rightarrow> pyval" where
  "source_name c = (case session_name c of None \<Rightarrow> PStr (cn_id c) | Some n \<Rightarrow> n)"

definition p2p_answer :: "pyval \<Rightarrow> string \<Rightarrow> pyval" where
  "p2p_answer request_id reason = PDict
     [(''request_id'', request_id), (''accepted'', PBool False), (''reason'', PStr reason)]"

text \<open>
  \<open>handle_p2p_request\<close> up to its wait: an answer at once, or the id and the address of the future that
  it waits for.  \<open>uid\<close> is the \<open>uuid4\<close> drawn for a request without an id.
\<close>

datatype p2p_progress = Answered pyval | Awaiting pyval nat

definition open_p2p_request :: "pyval \<Rightarrow> (('m, 'h, 't) Broker, 'm action, p2p_progress) srv" where
  "open_p2p_request request_id b =
     (case dict_key request_id of
        None \<Rightarrow> (b, [], None)
      | Some k \<Rightarrow>
          (b\<lparr>bk_requests := AList.update k (length (bk_futures b)) (bk_requests b),
             bk_futures := bk_futures b @ [Waiting]\<rparr>, [], Some (Awaiting request_id (length (bk_futures b)))))"

definition p2p_request_begin ::
  "('m, 'h, 't) server_env \<Rightarrow> srv_session Connection \<Rightarrow> (string, pyval) dict \<Rightarrow> string \<Rightarrow> time
     \<Rightarrow> (('m, 'h, 't) Broker, 'm action, p2p_progress) srv" where
  "p2p_request_begin ev c d uid now =
     (let target_id = dict_get d ''target_id'';
          request_id = (if truthy (dict_get d ''request_id'') then dict_get d ''request_id'' else PStr uid)
      in s_bind (s_bind (s_get (\<lambda>b. p2p_target target_id (bk_server b))) s_opt)
        (\<lambda>found. case found of
           None \<Rightarrow> s_ret (Answered (p2p_answer request_id ''Target client not connected''))
         | Some t \<Rightarrow>
             s_then (on_server (conn_send (send_message (ev_codec ev) (ev_deliver ev (cn_client_id t)) ''p2p_incoming''
                       (PDict [(''source_id'', source_name c), (''source_addr'', PStr (remote_address c)),
                               (''request_id'', request_id)]) now) t))
               (open_p2p_request request_id)))"

text \<open>
  The end of its wait: the result of the future, or a timeout after 15 seconds (which cancels it), or
  the cancellation of a future that is still pending when the server stops, as an exception.  The entry
  of the id goes in every case.
\<close>

datatype wait_end_kind = WaitOver | WaitCancelled

definition p2p_request_end :: "wait_end_kind \<Rightarrow> pyval \<Rightarrow> nat \<Rightarrow> (('m, 'h, 't) Broker, 'm action, pyval) srv" where
  "p2p_request_end how request_id a b =
     (let b1 = (case dict_key request_id of
                  None \<Rightarrow> b | Some k \<Rightarrow> b\<lparr>bk_requests := AList.delete k (bk_requests b)\<rparr>)
      in case (bk_futures b ! a, how) of
           (Resolved v, _) \<Rightarrow>
             (b1, [], case v of PDict res \<Rightarrow> Some (PDict (dict_update_all [(''request_id'', request_id)] res)) | _ \<Rightarrow> None)
         | (Waiting, WaitOver) \<Rightarrow> (b1, [], Some (p2p_answer request_id ''Target client response timed out''))
         | (Waiting, WaitCancelled) \<Rightarrow> (b1, [], None))"

definition accept_result :: "(string, pyval) dict \<Rightarrow> pyval" where
  "accept_result d = PDict
     [(''accepted'', dict_get d ''accepted''), (''public_addr'', dict_get d ''public_addr''),
      (''lan_addr'', dict_get d ''lan_addr''), (''reason'', dict_get d ''reason'')]"

definition p2p_accept :: "(string, pyval) dict \<Rightarrow> (('m, 'h, 't) Broker, 'm action, unit) srv" where
  "p2p_accept d b =
     (case dict_key (dict_get d ''request_id'') of
        None \<Rightarrow> (b, [], None)
      | Some k \<Rightarrow>
          (case map_of (bk_requests b) k of
             None \<Rightarrow> (b, [], Some ())
           | Some a \<Rightarrow>
               ((if bk_futures b ! a = Waiting then b\<lparr>bk_futures := (bk_futures b)[a := Resolved (accept_result d)]\<rparr> else b),
                [], Some ())))"

definition p2p_punch_source ::
  "('m, 'h, 't) server_env \<Rightarrow> (string, pyval) dict \<Rightarrow> time \<Rightarrow> (('m, 'h, 't) Broker, 'm action, unit) srv" where
  "p2p_punch_source ev d now =
     s_bind (s_bind (s_get (\<lambda>b. p2p_target (dict_get d ''target_id'') (bk_server b))) s_opt)
       (\<lambda>found. case found of
          None \<Rightarrow> s_ret ()
        | Some t \<Rightarrow>
            on_server (conn_send (send_message (ev_codec ev) (ev_deliver ev (cn_client_id t)) ''p2p_punch_cmd''
              (PDict [(''request_id'', dict_get d ''request_id''), (''source_addr'', dict_get d ''source_addr''),
                      (''lan_addr'', dict_get d ''lan_addr'')]) now) t))"

text \<open>\<open>stop\<close> cancels the futures of the table that are pending and empties it.\<close>

definition cancelled_requests :: "('m, 'h, 't) Broker \<Rightarrow> nat list" where
  "cancelled_requests b = filter (\<lambda>a. bk_futures b ! a = Waiting) (map snd (bk_requests b))"

definition broker_stop :: "('m, 'h, 't) Broker \<Rightarrow> ('m, 'h, 't) Broker \<times> nat list" where
  "broker_stop b = (b\<lparr>bk_requests := []\<rparr>, cancelled_requests b)"

section \<open>Requests side by side\<close>

datatype broker_event =
    RequestBegins "srv_session Connection" "(string, pyval) dict" string time
  | RequestEnds wait_end_kind pyval nat
  | AcceptArrives "(string, pyval) dict"
  | PunchArrives "(string, pyval) dict" time
  | BrokerStops

fun broker_step ::
  "('m, 'h, 't) server_env \<Rightarrow> ('m, 'h, 't) Broker \<Rightarrow> broker_event \<Rightarrow> ('m, 'h, 't) Broker" where
  "broker_step ev b (RequestBegins c d uid now) = fst (p2p_request_begin ev c d uid now b)"
| "broker_step ev b (RequestEnds how rid a) = fst (p2p_request_end how rid a b)"
| "broker_step ev b (AcceptArrives d) = fst (p2p_accept d b)"
| "broker_step ev b (PunchArrives d now) = fst (p2p_punch_source ev d now b)"
| "broker_step ev b BrokerStops = fst (broker_stop b)"

text \<open>The table and the store, which are all that the answers depend on.\<close>

definition book :: "('m, 'h, 't) Broker \<Rightarrow> (pyval, nat) dict \<times> future list" where
  "book b = (bk_requests b, bk_futures b)"

definition request_id_of :: "(string, pyval) dict \<Rightarrow> string \<Rightarrow> pyval" where
  "request_id_of d uid = (if truthy (dict_get d ''request_id'') then dict_get d ''request_id'' else PStr uid)"

definition opened :: "pyval \<Rightarrow> nat \<Rightarrow> (pyval, nat) dict \<times> future list \<Rightarrow> (pyval, nat) dict \<times> future list" where
  "opened k a t = (AList.update k a (fst t), snd t @ [Waiting])"

lemma book_simps [simp]:
  "book (b\<lparr>bk_server := s\<rparr>) = book b"
  "fst (book b) = bk_requests b" "snd (book b) = bk_futures b"
  "book (b\<lparr>bk_requests := r\<rparr>) = (r, bk_futures b)" "book (b\<lparr>bk_futures := f\<rparr>) = (bk_requests b, f)"
  by (simp_all add: book_def)

lemma book_on_server [simp]: "book (fst (on_server f b)) = book b"
  by (simp add: on_server_def book_def split: prod.split)

lemma book_punch: "book (fst (p2p_punch_source ev d now b)) = book b"
  by (auto simp: p2p_punch_source_def s_defs split: option.split)

lemma request_begin_book:
  assumes "p2p_request_begin ev c d uid now b = (b1, acts, r)"
  shows "book b1 = book b \<and> (\<forall>rid a. r \<noteq> Some (Awaiting rid a))
    \<or> (\<exists>k. dict_key (request_id_of d uid) = Some k \<and> book b1 = opened k (length (snd (book b))) (book b)
         \<and> r = Some (Awaiting (request_id_of d uid) (length (snd (book b)))))"
proof (cases "p2p_target (dict_get d ''target_id'') (bk_server b)")
  case None
  with assms show ?thesis by (auto simp: p2p_request_begin_def s_defs Let_def)
next
  case (Some found)
  show ?thesis
  proof (cases found)
    case None
    with Some assms show ?thesis by (auto simp: p2p_request_begin_def s_defs Let_def)
  next
    case (Some t)
    let ?m = "conn_send (send_message (ev_codec ev) (ev_deliver ev (cn_client_id t)) ''p2p_incoming''
      (PDict [(''source_id'', source_name c), (''source_addr'', PStr (remote_address c)),
        (''request_id'', request_id_of d uid)]) now) t"
    have "p2p_request_begin ev c d uid now b = s_then (on_server ?m) (open_p2p_request (request_id_of d uid)) b"
      using \<open>p2p_target _ _ = Some found\<close> Some by (simp add: p2p_request_begin_def request_id_of_def s_defs Let_def)
    then have e: "s_then (on_server ?m) (open_p2p_request (request_id_of d uid)) b = (b1, acts, r)" using assms by simp
    obtain b2 acts2 r2 where m: "on_server ?m b = (b2, acts2, r2)" by (cases "on_server ?m b")
    from book_on_server [of ?m b] e m show ?thesis
      by (cases r2) (auto simp: s_then_def s_bind_def open_p2p_request_def opened_def book_def split: option.splits)
  qed
qed

text \<open>No two ids share a future.\<close>

definition book_ok :: "(pyval, nat) dict \<times> future list \<Rightarrow> bool" where
  "book_ok t = (\<forall>k a. map_of (fst t) k = Some a \<longrightarrow>
     a < length (snd t) \<and> (\<forall>k'. map_of (fst t) k' = Some a \<longrightarrow> k' = k))"

lemma opened_ok: "book_ok t \<Longrightarrow> book_ok (opened k (length (snd t)) t)"
  by (fastforce simp: book_ok_def opened_def update_conv' less_Suc_eq split: if_splits)

lemma end_book:
  "book (fst (p2p_request_end how rid a b)) =
     (case dict_key rid of None \<Rightarrow> book b | Some k \<Rightarrow> (AList.delete k (fst (book b)), snd (book b)))"
  by (cases "bk_futures b ! a"; cases how; cases "dict_key rid")
    (auto simp: p2p_request_end_def Let_def split: option.splits)

lemma accept_book:
  "book (fst (p2p_accept d b)) =
     (case Option.bind (dict_key (dict_get d ''request_id'')) (map_of (fst (book b))) of
        None \<Rightarrow> book b
      | Some a \<Rightarrow> (fst (book b), if snd (book b) ! a = Waiting then (snd (book b))[a := Resolved (accept_result d)]
                                    else snd (book b)))"
  by (cases "dict_key (dict_get d ''request_id'')") (auto simp: p2p_accept_def book_def split: option.split)

lemma stop_book: "book (fst (broker_stop b)) = ([], snd (book b))"
  by (simp add: broker_stop_def)

lemma broker_step_ok: "book_ok (book b) \<Longrightarrow> book_ok (book (broker_step ev b e))"
proof (cases e)
  case (RequestBegins c d uid now)
  assume ok: "book_ok (book b)"
  obtain b1 acts r where "p2p_request_begin ev c d uid now b = (b1, acts, r)"
    by (cases "p2p_request_begin ev c d uid now b")
  from request_begin_book [OF this] this opened_ok [OF ok] ok RequestBegins show ?thesis by auto
qed (auto simp: end_book accept_book stop_book book_punch book_ok_def delete_conv' split: option.split if_splits)

interpretation broker: op_machine "broker_step ev" "\<lambda>b. book_ok (book b)"
  for ev :: "('m, 'h, 't) server_env"
  by unfold_locales (rule broker_step_ok)

lemma book_eq: "book b1 = (r, f) \<Longrightarrow> bk_requests b1 = r \<and> bk_futures b1 = f"
  by (simp add: book_def)

lemma begin_cases:
  obtains "bk_requests (fst (p2p_request_begin ev c d uid now b)) = bk_requests b"
      "bk_futures (fst (p2p_request_begin ev c d uid now b)) = bk_futures b"
  | k where "dict_key (request_id_of d uid) = Some k"
      "bk_requests (fst (p2p_request_begin ev c d uid now b)) = AList.update k (length (bk_futures b)) (bk_requests b)"
      "bk_futures (fst (p2p_request_begin ev c d uid now b)) = bk_futures b @ [Waiting]"
proof -
  obtain b1 acts r where "p2p_request_begin ev c d uid now b = (b1, acts, r)"
    by (cases "p2p_request_begin ev c d uid now b")
  from request_begin_book [OF this] this that show ?thesis by (auto simp: opened_def book_def)
qed

lemma end_fields [simp]:
  "bk_requests (fst (p2p_request_end how rid a b)) =
     (case dict_key rid of None \<Rightarrow> bk_requests b | Some k \<Rightarrow> AList.delete k (bk_requests b))"
  "bk_futures (fst (p2p_request_end how rid a b)) = bk_futures b"
  using end_book [of how rid a b] by (auto simp: book_def split: option.splits)

lemma punch_fields [simp]:
  "bk_requests (fst (p2p_punch_source ev d now b)) = bk_requests b"
  "bk_futures (fst (p2p_punch_source ev d now b)) = bk_futures b"
  using book_punch [of ev d now b] by (auto simp: book_def)

lemma stop_fields [simp]:
  "bk_requests (fst (broker_stop b)) = []" "bk_futures (fst (broker_stop b)) = bk_futures b"
  by (simp_all add: broker_stop_def)

lemma accept_fields:
  "bk_requests (fst (p2p_accept d b)) = bk_requests b"
  "bk_futures (fst (p2p_accept d b)) =
     (case Option.bind (dict_key (dict_get d ''request_id'')) (map_of (bk_requests b)) of
        None \<Rightarrow> bk_futures b
      | Some a \<Rightarrow> if bk_futures b ! a = Waiting then (bk_futures b)[a := Resolved (accept_result d)] else bk_futures b)"
  using accept_book [of d b] by (auto simp: book_def split: option.splits)

text \<open>A future that no id leads to any more is out of reach.\<close>

definition orphaned :: "nat \<Rightarrow> future \<Rightarrow> ('m, 'h, 't) Broker \<Rightarrow> bool" where
  "orphaned a v b = (a < length (bk_futures b) \<and> bk_futures b ! a = v \<and> (\<forall>k. map_of (bk_requests b) k \<noteq> Some a))"

lemma accept_other:
  assumes "Option.bind (dict_key (dict_get d ''request_id'')) (map_of (bk_requests b)) \<noteq> Some a"
  shows "bk_futures (fst (p2p_accept d b)) ! a = bk_futures b ! a"
  using assms by (cases "Option.bind (dict_key (dict_get d ''request_id'')) (map_of (bk_requests b))")
    (simp_all add: accept_fields)

lemma accept_length [simp]: "length (bk_futures (fst (p2p_accept d b))) = length (bk_futures b)"
  by (simp add: accept_fields split: option.split)

lemma orphaned_step: "orphaned a v b \<Longrightarrow> orphaned a v (broker_step ev b e)"
proof (cases e)
  case (RequestBegins c d uid now)
  assume o: "orphaned a v b"
  show ?thesis
    by (rule begin_cases [of ev c d uid now b])
      (use o RequestBegins in \<open>auto simp: orphaned_def update_conv' nth_append\<close>)
next
  case (AcceptArrives d)
  assume o: "orphaned a v b"
  then have "Option.bind (dict_key (dict_get d ''request_id'')) (map_of (bk_requests b)) \<noteq> Some a"
    by (auto simp: orphaned_def bind_eq_Some_conv)
  from accept_other [OF this] o AcceptArrives show ?thesis by (simp add: orphaned_def accept_fields(1))
qed (auto simp: orphaned_def delete_conv' split: option.split)

interpretation orphan: op_machine "broker_step ev" "orphaned a v"
  for ev :: "('m, 'h, 't) server_env" and a v
  by unfold_locales (rule orphaned_step)

text \<open>Events that leave the request \<open>k\<close> to its future, and the accepts that are for it.\<close>

definition leaves_alone :: "pyval \<Rightarrow> broker_event \<Rightarrow> bool" where
  "leaves_alone k e = (case e of
      RequestBegins c d uid now \<Rightarrow> dict_key (request_id_of d uid) \<noteq> Some k
    | RequestEnds how rid a \<Rightarrow> dict_key rid \<noteq> Some k
    | BrokerStops \<Rightarrow> False
    | _ \<Rightarrow> True)"

definition accepts_of :: "pyval \<Rightarrow> broker_event \<Rightarrow> (string, pyval) dict list" where
  "accepts_of k e = (case e of
      AcceptArrives d \<Rightarrow> if dict_key (dict_get d ''request_id'') = Some k then [d] else [] | _ \<Rightarrow> [])"

definition settle :: "future \<Rightarrow> (string, pyval) dict list \<Rightarrow> future" where
  "settle f ds = (case f of Resolved v \<Rightarrow> Resolved v
     | Waiting \<Rightarrow> (case ds of [] \<Rightarrow> Waiting | d # rest \<Rightarrow> Resolved (accept_result d)))"

lemma settle_append: "settle (settle f xs) ys = settle f (xs @ ys)"
  by (cases f; cases xs) (simp_all add: settle_def)

lemma leaves_alone_step:
  assumes "book_ok (book b)" and "map_of (bk_requests b) k = Some a" and "leaves_alone k e"
  shows "map_of (bk_requests (broker_step ev b e)) k = Some a
    \<and> bk_futures (broker_step ev b e) ! a = settle (bk_futures b ! a) (accepts_of k e)"
proof -
  have a: "a < length (bk_futures b)" "\<And>k'. map_of (bk_requests b) k' = Some a \<Longrightarrow> k' = k"
    using assms(1,2) by (auto simp: book_ok_def)
  have none: "settle (bk_futures b ! a) [] = bk_futures b ! a" by (cases "bk_futures b ! a") (simp_all add: settle_def)
  show ?thesis
  proof (cases e)
    case (RequestBegins c d uid now)
    show ?thesis
      by (rule begin_cases [of ev c d uid now b])
        (use RequestBegins assms(2,3) a(1) none in \<open>auto simp: leaves_alone_def accepts_of_def update_conv' nth_append\<close>)
  next
    case (AcceptArrives d)
    show ?thesis
    proof (cases "dict_key (dict_get d ''request_id'') = Some k")
      case True
      with AcceptArrives assms(2) a(1) show ?thesis
        by (cases "bk_futures b ! a") (simp_all add: accept_fields accepts_of_def settle_def)
    next
      case False
      then have "Option.bind (dict_key (dict_get d ''request_id'')) (map_of (bk_requests b)) \<noteq> Some a"
        using a(2) by (auto simp: bind_eq_Some_conv)
      from accept_other [OF this] AcceptArrives assms(2) False none show ?thesis
        by (simp add: accept_fields(1) accepts_of_def)
    qed
  qed (use assms none in \<open>auto simp: leaves_alone_def accepts_of_def delete_conv' split: option.split\<close>)
qed

lemma leaves_alone_run:
  assumes "book_ok (book b)" and "map_of (bk_requests b) k = Some a" and "\<forall>e \<in> set es. leaves_alone k e"
  shows "map_of (bk_requests (foldl (broker_step ev) b es)) k = Some a
    \<and> bk_futures (foldl (broker_step ev) b es) ! a = settle (bk_futures b ! a) (concat (map (accepts_of k) es))"
  using assms
proof (induction es arbitrary: b)
  case Nil
  then show ?case by (cases "bk_futures b ! a") (simp_all add: settle_def)
next
  case (Cons e es)
  have "book_ok (book (broker_step ev b e))" by (rule broker.step_inv [OF Cons.prems(1)])
  with Cons.IH [OF this] leaves_alone_step [OF Cons.prems(1,2), of e ev] Cons.prems(3)
  show ?case by (simp add: settle_append)
qed

lemma request_begun:
  assumes "p2p_request_begin ev c d uid now b = (b1, acts, Some (Awaiting rid a))" and "book_ok (book b)"
    and "dict_key rid = Some k"
  shows "rid = request_id_of d uid" "a = length (bk_futures b)"
    "bk_requests b1 = AList.update k a (bk_requests b)" "bk_futures b1 = bk_futures b @ [Waiting]"
    "book_ok (book b1)" "map_of (bk_requests b1) k = Some a" "bk_futures b1 ! a = Waiting"
proof -
  from request_begin_book [OF assms(1)] assms(3) have k: "book b1 = opened k (length (bk_futures b)) (book b)"
    "rid = request_id_of d uid" "a = length (bk_futures b)" by auto
  moreover have "book_ok (book b1)" using opened_ok [OF assms(2), of k] k(1) by simp
  ultimately show "rid = request_id_of d uid" "a = length (bk_futures b)"
    "bk_requests b1 = AList.update k a (bk_requests b)" "bk_futures b1 = bk_futures b @ [Waiting]"
    "book_ok (book b1)" "map_of (bk_requests b1) k = Some a" "bk_futures b1 ! a = Waiting"
    using book_eq [of b1] by (simp_all add: opened_def update_conv')
qed

section \<open>Examples\<close>

definition broker_env :: "(nat, nat, unit) server_env" where
  "broker_env = sample_env (reply_codec\<lparr>json_dumps := \<lambda>_. Some ''d'', ser_MessagePayload := \<lambda>_. Some [1],
     ser_Packet := \<lambda>_. Some [2]\<rparr>)"

definition request_for_b :: "(string, pyval) dict" where
  "request_for_b = [(''target_id'', PStr ''b''), (''request_id'', PStr ''r'')]"

lemma begin_for_b:
  assumes "pool_get ''b'' (sv_pool (bk_server b)) = Some t" and "cn_id t = ''b''"
  shows "\<exists>b1 acts t1. p2p_request_begin broker_env c request_for_b uid 0 b = (b1, acts, Some (Awaiting (PStr ''r'') (length (bk_futures b))))
    \<and> pool_get ''b'' (sv_pool (bk_server b1)) = Some t1 \<and> cn_id t1 = ''b''"
proof -
  obtain e1 where "encode_message (ev_codec broker_env) (sv_encoder (bk_server b)) ''p2p_incoming''
      (PDict [(''source_id'', source_name c), (''source_addr'', PStr (remote_address c)), (''request_id'', PStr ''r'')]) None 0
      = (Inr [0, 0, 0, 1, 2], e1)"
    by (simp add: broker_env_def sample_env_def reply_codec_def encode_message_def serialize_data_def encode_simps
        compress_def to_bytes_be_def be_digits_numeral)
  with assms show ?thesis
    by (simp add: p2p_request_begin_def request_for_b_def dict_get_def Let_def s_defs p2p_target_def dict_key_def
        on_server_def conn_send_def send_message_def send_encoded_def transmit_def open_p2p_request_def put_conn_def
        count_sent_def broker_env_def sample_env_def pool_get_def dict_has_def update_conv')
qed

definition sample_broker :: "(nat, nat, unit) Broker" where
  "sample_broker = new_broker connected_sample"

lemma sample_broker_simps:
  "pool_get ''b'' (sv_pool (bk_server sample_broker)) = Some (new_connection ''b'' [] 0)"
  "bk_futures sample_broker = []" "book_ok (book sample_broker)" "cn_id (new_connection ''b'' [] 0) = ''b''"
  by (simp_all add: sample_broker_def new_broker_def connected_sample_get book_ok_def book_def new_connection_def)

lemma key_r: "dict_key (PStr ''r'') = Some (PStr ''r'')"
  by (simp add: dict_key_def)

section \<open>Properties\<close>

text \<open>
  C8. A brokered request is answered by the first accept for it: whatever other requests begin, end
  or are accepted meanwhile, as long as none of them uses its id, the request ends with its id and
  what the first accept with that id says - the decision, both addresses and the reason - or with a
  timeout if there was none; and its entry is gone.
\<close>

theorem first_accept_answers:
  assumes begins: "p2p_request_begin ev c d uid now b = (b1, acts, Some (Awaiting rid a))"
    and ok: "book_ok (book b)" and key: "dict_key rid = Some k"
    and others: "\<forall>e \<in> set es. leaves_alone k e"
  shows "\<exists>b3. p2p_request_end WaitOver rid a (foldl (broker_step ev) b1 es) = (b3, [], Some
      (case concat (map (accepts_of k) es) of
         [] \<Rightarrow> p2p_answer rid ''Target client response timed out''
       | x # rest \<Rightarrow> PDict [(''request_id'', rid), (''accepted'', dict_get x ''accepted''),
            (''public_addr'', dict_get x ''public_addr''), (''lan_addr'', dict_get x ''lan_addr''),
            (''reason'', dict_get x ''reason'')]))
    \<and> map_of (bk_requests b3) k = None"
proof -
  let ?b2 = "foldl (broker_step ev) b1 es"
  note b1 = request_begun [OF begins ok key]
  from leaves_alone_run [OF b1(5,6) others] b1(7)
  have f: "bk_futures ?b2 ! a = settle Waiting (concat (map (accepts_of k) es))" by simp
  show ?thesis
    using f key by (cases "concat (map (accepts_of k) es)")
      (simp_all add: p2p_request_end_def settle_def accept_result_def Let_def delete_conv' del: concat_eq_Nil_conv)
qed

theorem first_accept_answers_witness:
  "\<exists>b1 acts b3. p2p_request_begin broker_env (new_connection ''a'' [] 0) request_for_b [] 0 sample_broker
      = (b1, acts, Some (Awaiting (PStr ''r'') 0))
    \<and> p2p_request_end WaitOver (PStr ''r'') 0 (foldl (broker_step broker_env) b1
        [AcceptArrives [(''request_id'', PStr ''r''), (''accepted'', PBool True), (''public_addr'', PStr ''1.2.3.4:5'')],
         AcceptArrives [(''request_id'', PStr ''r''), (''accepted'', PBool False)]])
      = (b3, [], Some (PDict [(''request_id'', PStr ''r''), (''accepted'', PBool True),
          (''public_addr'', PStr ''1.2.3.4:5''), (''lan_addr'', PNone), (''reason'', PNone)]))"
proof -
  let ?es = "[AcceptArrives [(''request_id'', PStr ''r''), (''accepted'', PBool True), (''public_addr'', PStr ''1.2.3.4:5'')],
         AcceptArrives [(''request_id'', PStr ''r''), (''accepted'', PBool False)]]"
  from begin_for_b [OF sample_broker_simps(1,4), of "new_connection ''a'' [] 0" "[]"] obtain b1 acts where
    b: "p2p_request_begin broker_env (new_connection ''a'' [] 0) request_for_b [] 0 sample_broker
      = (b1, acts, Some (Awaiting (PStr ''r'') 0))" by (auto simp: sample_broker_simps)
  have "\<forall>e \<in> set ?es. leaves_alone (PStr ''r'') e" by (simp add: leaves_alone_def)
  from first_accept_answers [OF b sample_broker_simps(3) key_r this] b show ?thesis
    by (auto simp: accepts_of_def dict_get_def key_r)
qed

text \<open>
  A reused id starves both requests: when a second request takes the id of one that is waiting,
  no event can resolve the first any more, so it ends with a timeout however often the target accepts;
  and its end takes the entry of the second away, so that from then on no event resolves that one either.
\<close>

lemma reused_request_id_starves:
  assumes first: "p2p_request_begin ev c d uid now b = (b1, acts1, Some (Awaiting rid a1))"
    and ok: "book_ok (book b)" and others: "\<forall>e \<in> set es. \<exists>x. e = AcceptArrives x \<and> accepts_of k e = []"
    and second: "p2p_request_begin ev c' d' uid' now' (foldl (broker_step ev) b1 es) = (b2, acts2, Some (Awaiting rid' a2))"
    and key: "dict_key rid = Some k" "dict_key rid' = Some k"
  shows "(\<exists>b3. p2p_request_end WaitOver rid a1 (foldl (broker_step ev) b2 later) =
        (b3, [], Some (p2p_answer rid ''Target client response timed out'')))
    \<and> (\<exists>b4. p2p_request_end WaitOver rid' a2
          (foldl (broker_step ev) (fst (p2p_request_end WaitOver rid a1 b2)) later) =
        (b4, [], Some (p2p_answer rid' ''Target client response timed out'')))"
proof -
  let ?b = "foldl (broker_step ev) b1 es"
  note b1 = request_begun [OF first ok key(1)]
  have "\<forall>e \<in> set es. leaves_alone k e" and none: "concat (map (accepts_of k) es) = []"
    using others by (auto simp: leaves_alone_def)
  from leaves_alone_run [OF b1(5,6) this(1), of ev] none b1(7)
  have w: "map_of (bk_requests ?b) k = Some a1" "bk_futures ?b ! a1 = Waiting" by (simp_all add: settle_def)
  have okb: "book_ok (book ?b)" by (rule broker.run_inv [OF b1(5)])
  note b2 = request_begun(3,4,2) [OF second okb key(2)]
  have less: "x < a2" if "map_of (bk_requests ?b) k' = Some x" for x k'
    using okb that b2(3) by (auto simp: book_ok_def)
  have only: "k' = k" if "map_of (bk_requests ?b) k' = Some a1" for k'
    using okb that w(1) unfolding book_ok_def book_simps by blast
  have "map_of (bk_requests b2) k' \<noteq> Some a1" for k'
    using only [of k'] less [OF w(1)] by (auto simp: b2(1) update_conv')
  then have "orphaned a1 Waiting b2"
    using less [OF w(1)] w(2) b2(2,3) by (simp add: orphaned_def nth_append)
  then have "orphaned a1 Waiting (foldl (broker_step ev) b2 later)" by (rule orphan.run_inv)
  then have "\<exists>b3. p2p_request_end WaitOver rid a1 (foldl (broker_step ev) b2 later) =
      (b3, [], Some (p2p_answer rid ''Target client response timed out''))"
    by (simp add: p2p_request_end_def Let_def orphaned_def)
  moreover
  let ?b3 = "fst (p2p_request_end WaitOver rid a1 b2)"
  have "map_of (bk_requests ?b3) k' \<noteq> Some a2" for k'
    using less [of k' a2] key(1) by (auto simp: b2(1) delete_conv' update_conv')
  then have "orphaned a2 Waiting ?b3" using b2(2,3) by (simp add: orphaned_def)
  then have "orphaned a2 Waiting (foldl (broker_step ev) ?b3 later)" by (rule orphan.run_inv)
  then have "\<exists>b4. p2p_request_end WaitOver rid' a2 (foldl (broker_step ev) ?b3 later) =
      (b4, [], Some (p2p_answer rid' ''Target client response timed out''))"
    by (simp add: p2p_request_end_def Let_def orphaned_def)
  ultimately show ?thesis by blast
qed

text \<open>
  C20. The addresses of a brokered peer arrive: when the target of a request accepts it, the
  answer that ends the request at the broker carries the addresses of the local server that the target
  has just created and stored (it is started at the punch command) - the mapped or local public one
  and the one in the LAN - and resolves the initiator's future with them.
\<close>

theorem brokered_addresses_arrive:
  assumes begins: "p2p_request_begin ev c [(''target_id'', PStr target), (''request_id'', PStr req)] uid now b
      = (b1, acts, Some (Awaiting rid a))"
    and ok: "book_ok (book b)" and req: "req \<noteq> []" and asked: "map_of (cl_p2p_futures initiator) req = Some Waiting"
    and told: "client_send cev ''p2p_accept'' (PDict answer) now2 (peer
        \<lparr>cl_p2p_servers := AList.update req [LocalServer (cc_name (cl_config peer) @ ''_p2p_'' @ take 8 req) port,
           ConnFuture False, PeerSource (source_name c)] (cl_p2p_servers peer)\<rparr>) = (peer2, sent, Some ())"
    and answer: "answer = [(''request_id'', PStr req), (''accepted'', PBool True),
        (''public_addr'', PStr (public_address cev (cl_config peer) mapped local_ip port)),
        (''lan_addr'', PStr (address local_ip port))]"
  shows "p2p_incoming cev True port mapped local_ip problem
      [(''source_id'', source_name c), (''source_addr'', PStr (remote_address c)), (''request_id'', PStr req)] now2 peer
        = (peer2, sent, Some ())
    \<and> (\<exists>b3 reply. p2p_request_end WaitOver rid a (fst (p2p_accept answer b1)) = (b3, [], Some (PDict reply))
        \<and> map_of (cl_p2p_futures (fst (p2p_request_response reply initiator))) req = Some (Resolved (PDict reply))
        \<and> dict_get reply ''accepted'' = PBool True
        \<and> dict_get reply ''public_addr'' = PStr (public_address cev (cl_config peer) mapped local_ip port)
        \<and> dict_get reply ''lan_addr'' = PStr (address local_ip port))"
proof
  show "p2p_incoming cev True port mapped local_ip problem
      [(''source_id'', source_name c), (''source_addr'', PStr (remote_address c)), (''request_id'', PStr req)] now2 peer
        = (peer2, sent, Some ())"
    using told by (simp add: p2p_incoming_def or_else_def dict_get_def s_defs Let_def answer)
  have rid: "request_id_of [(''target_id'', PStr target), (''request_id'', PStr req)] uid = PStr req"
    using req by (simp add: request_id_of_def dict_get_def)
  have "rid = PStr req" using request_begin_book [OF begins] rid by auto
  then have key: "dict_key rid = Some (PStr req)" by (simp add: dict_key_def)
  have acc: "accepts_of (PStr req) (AcceptArrives answer) = [answer]"
    by (simp add: accepts_of_def answer dict_get_def dict_key_def)
  have "\<forall>e \<in> set [AcceptArrives answer]. leaves_alone (PStr req) e" by (simp add: leaves_alone_def)
  from leaves_alone_run [OF request_begun(5,6) [OF begins ok key] this, of ev] request_begun(7) [OF begins ok key] acc
  have "bk_futures (fst (p2p_accept answer b1)) ! a = Resolved (accept_result answer)" by (simp add: settle_def)
  then show "\<exists>b3 reply. p2p_request_end WaitOver rid a (fst (p2p_accept answer b1)) = (b3, [], Some (PDict reply))
        \<and> map_of (cl_p2p_futures (fst (p2p_request_response reply initiator))) req = Some (Resolved (PDict reply))
        \<and> dict_get reply ''accepted'' = PBool True
        \<and> dict_get reply ''public_addr'' = PStr (public_address cev (cl_config peer) mapped local_ip port)
        \<and> dict_get reply ''lan_addr'' = PStr (address local_ip port)"
    using key asked \<open>rid = PStr req\<close>
    by (simp add: p2p_request_end_def accept_result_def answer dict_get_def Let_def p2p_request_response_def s_put_def update_conv')
qed

theorem brokered_addresses_arrive_witness:
  "\<exists>b1 acts b3 reply. p2p_request_begin broker_env (new_connection ''a'' [] 0) request_for_b [] 0 sample_broker
      = (b1, acts, Some (Awaiting (PStr ''r'') 0))
    \<and> p2p_request_end WaitOver (PStr ''r'') 0 (fst (p2p_accept [(''request_id'', PStr ''r''), (''accepted'', PBool True),
        (''public_addr'', PStr ''127.0.0.1:7''), (''lan_addr'', PStr ''10.0.0.7:7'')] b1)) = (b3, [], Some (PDict reply))
    \<and> dict_get reply ''lan_addr'' = PStr ''10.0.0.7:7''"
proof -
  let ?cev = "client_env_of (ev_codec broker_env)"
  let ?c = "new_connection ''a'' [] 0 :: srv_session Connection"
  let ?initiator = "sample_client\<lparr>cl_p2p_futures := [(''r'', Waiting)]\<rparr>"
  let ?peer = "sample_client\<lparr>cl_connection := Some (new_connection [] ''u'' 0)\<rparr>"
  let ?answer = "[(''request_id'', PStr ''r''), (''accepted'', PBool True),
        (''public_addr'', PStr (public_address ?cev (cl_config ?peer) None ''10.0.0.7'' 7)),
        (''lan_addr'', PStr (address ''10.0.0.7'' 7))]"
  let ?peer1 = "?peer\<lparr>cl_p2p_servers := AList.update ''r'' [LocalServer (cc_name (cl_config ?peer) @ ''_p2p_'' @ take 8 ''r'') 7,
           ConnFuture False, PeerSource (source_name ?c)] (cl_p2p_servers ?peer)\<rparr>"
  from begin_for_b [OF sample_broker_simps(1,4), of ?c "[]"] obtain b1 acts where
    b: "p2p_request_begin broker_env ?c request_for_b [] 0 sample_broker
      = (b1, acts, Some (Awaiting (PStr ''r'') 0))" by (auto simp: sample_broker_simps)
  obtain e1 where "encode_message (ev_codec broker_env) (cl_encoder ?peer1) ''p2p_accept'' (PDict ?answer) None 0
      = (Inr [0, 0, 0, 1, 2], e1)"
    by (simp add: broker_env_def sample_env_def reply_codec_def encode_message_def serialize_data_def encode_simps
        compress_def to_bytes_be_def be_digits_numeral)
  then obtain peer2 sent where told: "client_send ?cev ''p2p_accept'' (PDict ?answer) 0 ?peer1 = (peer2, sent, Some ())"
    by (simp add: client_send_def c_conn_send_def send_message_def send_encoded_def transmit_def client_env_of_def)
  have asked: "map_of (cl_p2p_futures ?initiator) ''r'' = Some Waiting" by simp
  have r: "''r'' \<noteq> []" by simp
  have addrs: "public_address ?cev (cl_config ?peer) None ''10.0.0.7'' 7 = ''127.0.0.1:7''" "address ''10.0.0.7'' 7 = ''10.0.0.7:7''"
  proof -
    have d: "address h 7 = h @ '':7''" for h by (simp add: address_def, code_simp)
    have l: "is_loopback (cc_server_host (cl_config ?peer))"
      by (simp add: sample_client_def new_client_def sample_config_def is_loopback_def) code_simp?
    from l show "public_address ?cev (cl_config ?peer) None ''10.0.0.7'' 7 = ''127.0.0.1:7''" "address ''10.0.0.7'' 7 = ''10.0.0.7:7''"
      by (simp_all add: public_address_def host_is_local_def d)
  qed
  from brokered_addresses_arrive [OF b [unfolded request_for_b_def] sample_broker_simps(3) r asked told refl] b
  show ?thesis unfolding addrs by blast
qed

end
