(* ===== verification/Lifecycle.thy ===== *)
theory Lifecycle
  imports Broker ClientProofs Discovery
begin

text \<open>
  The life of a server of \<open>src/conduit/server.py\<close>: \<open>start\<close> and \<open>stop\<close> step by step, with the hooks that
  may raise, the transport, the tasks of the handlers, the requests of the broker and the
  advertisement, which the server's own state of Server.thy does not hold.
\<close>

section \<open>State\<close>

record ('m, 'h, 't) Lifecycle =
  lc_broker :: "('m, 'h, 't) Broker" \<comment> \<open>the server and its table of brokered requests\<close>
  lc_host :: string
  lc_port :: int
  lc_stun_server :: string
  lc_rust :: bool \<comment> \<open>\<open>_rust_server\<close> is not None\<close>
  lc_stop_event :: bool
  lc_on_startup :: nat \<comment> \<open>how many hooks\<close>
  lc_on_shutdown :: nat
  lc_active_tasks :: "nat list"
  lc_next_task :: nat
  lc_discovery :: "DiscoveryService option"

datatype 'm lc_action =
    StartupHook nat
  | ShutdownHook nat
  | StunPunch string int
  | RustStart string int
  | RustStop
  | HeartbeatStart
  | CancelTask nat
  | CancelRequest nat
  | CancelAdvertiser nat
  | OfServer "'m action"

type_synonym ('m, 'h, 't, 'a) lstep = "(('m, 'h, 't) Lifecycle, 'm lc_action, 'a) srv"

definition lc_server :: "('m, 'h, 't) Lifecycle \<Rightarrow> ('m, 'h, 't) Server" where
  "lc_server l = bk_server (lc_broker l)"

definition put_server :: "(('m, 'h, 't) Server \<Rightarrow> ('m, 'h, 't) Server) \<Rightarrow> ('m, 'h, 't) Lifecycle \<Rightarrow> ('m, 'h, 't) Lifecycle" where
  "put_server f l = l\<lparr>lc_broker := (lc_broker l)\<lparr>bk_server := f (bk_server (lc_broker l))\<rparr>\<rparr>"

definition new_lifecycle :: "string \<Rightarrow> int \<Rightarrow> string \<Rightarrow> ('m, 'h, 't) Server \<Rightarrow> ('m, 'h, 't) Lifecycle" where
  "new_lifecycle host port stun s =
     \<lparr>lc_broker = new_broker s, lc_host = host, lc_port = port, lc_stun_server = stun, lc_rust = False,
      lc_stop_event = False, lc_on_startup = 0, lc_on_shutdown = 0, lc_active_tasks = [], lc_next_task = 0,
      lc_discovery = None\<rparr>"

section \<open>Hooks and tasks\<close>

definition on_startup :: "('m, 'h, 't) Lifecycle \<Rightarrow> ('m, 'h, 't) Lifecycle" where
  "on_startup l = l\<lparr>lc_on_startup := Suc (lc_on_startup l)\<rparr>"
definition on_shutdown :: "('m, 'h, 't) Lifecycle \<Rightarrow> ('m, 'h, 't) Lifecycle" where
  "on_shutdown l = l\<lparr>lc_on_shutdown := Suc (lc_on_shutdown l)\<rparr>"

text \<open>The hooks in order, up to the one that raises, if any does.\<close>

definition run_hooks :: "(nat \<Rightarrow> 'm lc_action) \<Rightarrow> nat \<Rightarrow> nat option \<Rightarrow> ('m, 'h, 't, unit) lstep" where
  "run_hooks hook n bad l =
     (case bad of
        Some k \<Rightarrow> if k < n then (l, map hook [0..<Suc k], None) else (l, map hook [0..<n], Some ())
      | None \<Rightarrow> (l, map hook [0..<n], Some ()))"

definition track_task :: "('m, 'h, 't) Lifecycle \<Rightarrow> ('m, 'h, 't) Lifecycle" where
  "track_task l = l\<lparr>lc_active_tasks := lc_next_task l # lc_active_tasks l, lc_next_task := Suc (lc_next_task l)\<rparr>"
definition task_finished :: "nat \<Rightarrow> ('m, 'h, 't) Lifecycle \<Rightarrow> ('m, 'h, 't) Lifecycle" where
  "task_finished k l = l\<lparr>lc_active_tasks := removeAll k (lc_active_tasks l)\<rparr>"

section \<open>Discovery\<close>

definition start_discovery :: "('m, 'h, 't) Lifecycle \<Rightarrow> ('m, 'h, 't) Lifecycle" where
  "start_discovery l =
     l\<lparr>lc_discovery := Some (start_advertiser
        (case lc_discovery l of None \<Rightarrow> new_discovery_service ''conduit'' | Some d \<Rightarrow> d))\<rparr>"

definition discovery_advertisement :: "('m, 'h, 't) Lifecycle \<Rightarrow> advertisement" where
  "discovery_advertisement l =
     \<lparr>ad_service = ''conduit'', ad_name = sv_name (lc_server l), ad_host = lc_host l, ad_port = lc_port l,
      ad_metadata = [(''version'', PStr (sv_version (lc_server l)))]\<rparr>"

definition stop_discovery :: "('m, 'h, 't, unit) lstep" where
  "stop_discovery l =
     (l\<lparr>lc_discovery := None\<rparr>,
      case lc_discovery l of
        None \<Rightarrow> [] | Some d \<Rightarrow> (case ds_task d of None \<Rightarrow> [] | Some t \<Rightarrow> [CancelAdvertiser t]), Some ())"

section \<open>Starting and stopping\<close>

text \<open>\<open>bad\<close>: the hook that raises, if any; \<open>listens\<close>: the transport's \<open>start\<close> returns.\<close>

definition lifecycle_start :: "nat option \<Rightarrow> bool \<Rightarrow> ('m, 'h, 't, unit) lstep" where
  "lifecycle_start bad listens =
     s_bind (s_get (\<lambda>l. sv_running (lc_server l)))
       (\<lambda>running. if running then s_ret ()
          else s_then (s_put (put_server (\<lambda>s. s\<lparr>sv_state := INITIALIZING\<rparr>)))
            (s_then (s_bind (s_get lc_on_startup) (\<lambda>n. run_hooks StartupHook n bad))
            (s_then (s_put (\<lambda>l. (put_server (\<lambda>s. s\<lparr>sv_pool := pool_set_callbacks True True (sv_pool s)\<rparr>) l)
                              \<lparr>lc_rust := True, lc_stop_event := False\<rparr>))
            (s_then (s_bind (s_get (\<lambda>l. (lc_host l, lc_stun_server l, lc_port l)))
                       (\<lambda>(host, stun, port). if is_loopback host then s_ret () else s_act (StunPunch stun port)))
            (s_then (s_bind (s_get (\<lambda>l. (lc_host l, lc_port l))) (\<lambda>(host, port). s_act (RustStart host port)))
            (if \<not> listens then s_fail
             else s_then (s_put (put_server (\<lambda>s. s\<lparr>sv_running := True, sv_state := RUNNING,
                            sv_heartbeat := fst (hm_start (sv_heartbeat s))\<rparr>)))
               (s_act HeartbeatStart)))))))"

text \<open>
  The wait for the cancelled tasks: a task that waits for itself never gets on, so a stop that runs
  inside a tracked task \<open>me\<close> does not return; the others have ended.
\<close>

definition cancel_tasks :: "nat option \<Rightarrow> ('m, 'h, 't, unit) lstep" where
  "cancel_tasks me l =
     (let acts = map CancelTask (lc_active_tasks l)
      in case me of
           Some k \<Rightarrow> if k \<in> set (lc_active_tasks l) then (l\<lparr>lc_active_tasks := [k]\<rparr>, acts, None)
                     else (l\<lparr>lc_active_tasks := []\<rparr>, acts, Some ())
         | None \<Rightarrow> (l\<lparr>lc_active_tasks := []\<rparr>, acts, Some ()))"

definition close_pool :: "('m, 'h, 't, unit) lstep" where
  "close_pool l =
     (case close_all (sv_pool (lc_server l)) of
        None \<Rightarrow> (l, [], None)
      | Some (p, evs) \<Rightarrow>
          (put_server (\<lambda>s. s\<lparr>sv_pool := p, sv_limiters := []\<rparr>) l,
           concat (map (\<lambda>x. case x of PoolCallback k \<Rightarrow> [OfServer (DisconnectHooks k)] | UserCalled u k \<Rightarrow> []) evs),
           Some ()))"

definition cancel_requests :: "('m, 'h, 't, unit) lstep" where
  "cancel_requests l =
     (case broker_stop (lc_broker l) of (b, fs) \<Rightarrow> (l\<lparr>lc_broker := b\<rparr>, map CancelRequest fs, Some ()))"

definition lifecycle_stop :: "nat option \<Rightarrow> nat option \<Rightarrow> ('m, 'h, 't, unit) lstep" where
  "lifecycle_stop me bad =
     s_bind (s_get (\<lambda>l. sv_running (lc_server l)))
       (\<lambda>running. if \<not> running then s_ret ()
          else s_then (s_put (\<lambda>l. (put_server (\<lambda>s. s\<lparr>sv_state := STOPPING, sv_running := False,
                          sv_heartbeat := hm_stop (sv_heartbeat s)\<rparr>) l)\<lparr>lc_stop_event := True\<rparr>))
            (s_then (cancel_tasks me)
            (s_then (s_bind (s_get lc_rust) (\<lambda>up. if up then s_act RustStop else s_ret ()))
            (s_then (s_put (\<lambda>l. l\<lparr>lc_rust := False\<rparr>))
            (s_then close_pool
            (s_then cancel_requests
            (s_then stop_discovery
            (s_then (s_bind (s_get lc_on_shutdown) (\<lambda>n. run_hooks ShutdownHook n bad))
              (s_put (put_server (\<lambda>s. s\<lparr>sv_state := CLOSED\<rparr>)))))))))))"

section \<open>A life\<close>

datatype life_event =
    Starts "nat option" bool
  | Stops "nat option" "nat option"
  | StartupHookAdded
  | ShutdownHookAdded
  | TaskMade
  | TaskEnds nat
  | DiscoveryStarts
  | DiscoveryStops
  | OfTransport server_event time string
  | OfBroker broker_event

fun life_step ::
  "('m, 'h, 't) server_env \<Rightarrow> ('m, 'h, 't) Lifecycle \<Rightarrow> life_event \<Rightarrow> ('m, 'h, 't) Lifecycle" where
  "life_step ev l (Starts bad listens) = fst (lifecycle_start bad listens l)"
| "life_step ev l (Stops me bad) = fst (lifecycle_stop me bad l)"
| "life_step ev l StartupHookAdded = on_startup l"
| "life_step ev l ShutdownHookAdded = on_shutdown l"
| "life_step ev l TaskMade = track_task l"
| "life_step ev l (TaskEnds k) = task_finished k l"
| "life_step ev l DiscoveryStarts = start_discovery l"
| "life_step ev l DiscoveryStops = fst (stop_discovery l)"
| "life_step ev l (OfTransport q now uid) = put_server (\<lambda>s. fst (handle_event ev q now uid s)) l"
| "life_step ev l (OfBroker e) = l\<lparr>lc_broker := broker_step ev (lc_broker l) e\<rparr>"

section \<open>What handlers leave alone\<close>

definition run_key :: "('m, 'h, 't) Server \<Rightarrow> bool \<times> ServerState" where
  "run_key s = (sv_running s, sv_state s)"

lemma put_conn_runs [simp]: "sv_running (put_conn c s) = sv_running s" "sv_state (put_conn c s) = sv_state s"
  by (simp_all add: put_conn_def)

lemma runs_sends:
  "frame_on run_key (rust_send ev k bs)" "frame_on run_key (encoded e)" "frame_on run_key (conn_send f c)"
  "frame_on run_key (remove_from_pool k)" "frame_on run_key (rate_check c m now)" "frame_on run_key (route_message ev c t v a)"
  "frame_on run_key (put_tunnel src tun)" "frame_on run_key (process_connect k now)"
  by (auto simp: frame_on_def rust_send_def encoded_def conn_send_def remove_from_pool_def rate_check_def
      route_message_def put_tunnel_def s_put_def run_key_def put_conn_def process_connect_def Let_def split_def
      split: sum.split option.split pyval.split outcome.split)

lemma runs_put: "(\<And>s. run_key (f s) = run_key s) \<Longrightarrow> frame_on run_key (s_put f)"
  by (rule frame_put)

lemmas runs_rules = frame_bind frame_then frame_basic frame_catch runs_sends

lemma runs_mesh: "frame_on run_key (process_mesh ev k c m raw now)"
  unfolding process_mesh_def mesh_handshake_def mesh_secure_def mesh_reply_def mesh_packet_def Let_def
  by (auto simp: run_key_def intro!: runs_rules runs_put split: option.split pyval.split prod.split sum.split)

lemma runs_auth: "frame_on run_key (process_auth_request ev k c payload now uid)"
  unfolding process_auth_request_def auth_fail_def auth_accept_def run_connect_hooks_def Let_def
  by (auto simp: run_key_def intro!: runs_rules runs_put split: option.split pyval.split prod.split sum.split)

lemma runs_event: "frame_on run_key (handle_event ev q now uid)"
proof -
  have "frame_on run_key (process_authenticated ev k c m now)" for k c m
    unfolding process_authenticated_def process_rpc_request_def process_routed_message_def send_dispatched_def Let_def
    by (auto simp: run_key_def intro!: runs_rules runs_put split: option.split pyval.split prod.split sum.split outcome.split)
  then have "frame_on run_key (process_message ev k m payload now uid)" for k m payload
    unfolding process_message_def
    by (auto simp: run_key_def intro!: runs_rules runs_put runs_auth runs_mesh split: option.split)
  then show ?thesis
    unfolding handle_event_def process_disconnect_def handle_stale_connection_def process_binary_stream_def
    by (auto simp: run_key_def Let_def intro!: runs_rules runs_put split: server_event.split option.split sum.split)
qed

lemma on_server_runs: "frame_on run_key m \<Longrightarrow> run_key (bk_server (fst (on_server m b))) = run_key (bk_server b)"
  by (simp add: on_server_def frame_on_def split_def)

lemma open_request_runs: "run_key (bk_server (fst (open_p2p_request r b))) = run_key (bk_server b)"
  by (simp add: open_p2p_request_def split: option.split)

lemma broker_runs: "run_key (bk_server (broker_step ev b e)) = run_key (bk_server b)"
proof -
  have send: "run_key (bk_server (fst (on_server (conn_send f t) b))) = run_key (bk_server b)" for f t b
    by (rule on_server_runs) (rule runs_sends)
  show ?thesis
  proof (cases e)
    case (RequestBegins c d uid now)
    have seq: "run_key (bk_server (fst (s_then (on_server (conn_send f t)) (open_p2p_request r) b))) = run_key (bk_server b)" for f t r b
      using send [of f t b]
      by (cases "on_server (conn_send f t) b") (auto simp: s_then_def s_bind_def split_def open_request_runs split: option.split)
    show ?thesis
      using RequestBegins by (auto simp: p2p_request_begin_def s_bind_def s_get_def s_opt_def s_ret_def Let_def seq
          split: option.split)
  next
    case (PunchArrives d now)
    then show ?thesis
      by (auto simp: p2p_punch_source_def s_bind_def s_get_def s_opt_def s_ret_def send split: option.split)
  qed (auto simp: p2p_request_end_def p2p_accept_def broker_stop_def Let_def
      split: option.split future.split wait_end_kind.split pyval.split)
qed

section \<open>The invariant of a life\<close>

definition life_ok :: "('m, 'h, 't) Lifecycle \<Rightarrow> bool" where
  "life_ok l = ((sv_running (lc_server l) \<longleftrightarrow> sv_state (lc_server l) = RUNNING)
     \<and> (sv_running (lc_server l) \<longrightarrow> lc_rust l))"

lemma life_ok_key:
  "life_ok l \<Longrightarrow> run_key (lc_server l') = run_key (lc_server l) \<Longrightarrow> lc_rust l' = lc_rust l \<Longrightarrow> life_ok l'"
  by (simp add: life_ok_def run_key_def)

lemma lc_server_simps [simp]:
  "lc_server (put_server f l) = f (lc_server l)" "lc_rust (put_server f l) = lc_rust l"
  "lc_server (l\<lparr>lc_rust := x1\<rparr>) = lc_server l" "lc_server (l\<lparr>lc_stop_event := x2\<rparr>) = lc_server l"
  "lc_server (l\<lparr>lc_active_tasks := x3\<rparr>) = lc_server l" "lc_server (l\<lparr>lc_discovery := x4\<rparr>) = lc_server l"
  "lc_server (l\<lparr>lc_on_startup := x5\<rparr>) = lc_server l" "lc_server (l\<lparr>lc_on_shutdown := x6\<rparr>) = lc_server l"
  "lc_server (l\<lparr>lc_next_task := x7\<rparr>) = lc_server l" "lc_server (l\<lparr>lc_broker := b\<rparr>) = bk_server b"
  by (simp_all add: lc_server_def put_server_def)

lemma put_server_fields [simp]:
  "lc_active_tasks (put_server f l) = lc_active_tasks l" "lc_on_startup (put_server f l) = lc_on_startup l"
  "lc_on_shutdown (put_server f l) = lc_on_shutdown l" "lc_host (put_server f l) = lc_host l"
  "lc_port (put_server f l) = lc_port l" "lc_stun_server (put_server f l) = lc_stun_server l"
  "lc_discovery (put_server f l) = lc_discovery l" "lc_stop_event (put_server f l) = lc_stop_event l"
  "bk_requests (lc_broker (put_server f l)) = bk_requests (lc_broker l)"
  "bk_futures (lc_broker (put_server f l)) = bk_futures (lc_broker l)"
  by (simp_all add: put_server_def)

text \<open>What a start does, in the three ways it can go.\<close>

lemma start_ok: "life_ok l \<Longrightarrow> life_ok (fst (lifecycle_start bad listens l))"
  by (auto simp: lifecycle_start_def run_hooks_def s_defs life_ok_def split: option.split prod.split if_splits)

lemma stop_ok: "life_ok l \<Longrightarrow> life_ok (fst (lifecycle_stop me bad l))"
  by (auto simp: lifecycle_stop_def run_hooks_def cancel_tasks_def close_pool_def cancel_requests_def stop_discovery_def
      s_defs life_ok_def broker_stop_def Let_def lc_server_def [symmetric] split: option.split prod.split if_splits)

interpretation lifecycle: op_machine "life_step ev" life_ok
  for ev :: "('m, 'h, 't) server_env"
proof
  fix l :: "('m, 'h, 't) Lifecycle" and e
  assume ok: "life_ok l"
  show "life_ok (life_step ev l e)"
  proof (cases e)
    case (OfTransport q now uid)
    with ok runs_event [of ev q now uid] show ?thesis by (auto intro: life_ok_key simp: frame_on_def)
  next
    case (OfBroker b)
    with ok broker_runs [of ev "lc_broker l" b] show ?thesis by (auto intro: life_ok_key simp: lc_server_def)
  qed (use ok in \<open>auto simp: start_ok stop_ok on_startup_def on_shutdown_def track_task_def task_finished_def
      start_discovery_def stop_discovery_def intro: life_ok_key\<close>)
qed

section \<open>Closing the pool\<close>

text \<open>With its lock free the pool closes: every callback ends and none brings a connection back.\<close>

lemma run_disc_total:
  "\<not> pl_locked p \<Longrightarrow> \<exists>p' ev. run_disc_handler h k p = Some (p', ev) \<and> \<not> pl_locked p'
     \<and> (pl_connections p = [] \<longrightarrow> pl_connections p' = [])"
proof (induction h arbitrary: p rule: disc_handler.induct)
  case (PoolHandler orig)
  have "\<exists>p1 b. pool_remove k p = Some (p1, b) \<and> \<not> pl_locked p1 \<and> (pl_connections p = [] \<longrightarrow> pl_connections p1 = [])"
    using PoolHandler.prems by (cases "dict_has (pl_connections p) k") (auto simp: pool_remove_def)
  then obtain p1 b where r: "pool_remove k p = Some (p1, b)" "\<not> pl_locked p1" "pl_connections p = [] \<longrightarrow> pl_connections p1 = []"
    by blast
  show ?case
  proof (cases orig)
    case (Some h)
    with PoolHandler.IH [of h p1] r obtain p2 ev where "run_disc_handler h k p1 = Some (p2, ev)" "\<not> pl_locked p2"
      "pl_connections p1 = [] \<longrightarrow> pl_connections p2 = []" by auto
    with r Some show ?thesis by auto
  qed (use r in auto)
qed simp

lemma stop_all_total:
  "\<not> pl_locked p \<Longrightarrow> pl_connections p = [] \<Longrightarrow>
   \<exists>p' evs. stop_all cs p = Some (p', evs) \<and> \<not> pl_locked p' \<and> pl_connections p' = []"
proof (induction cs arbitrary: p)
  case (Cons c cs)
  obtain c' p1 ev where "connection_stop c p = Some (c', p1, ev)" "\<not> pl_locked p1" "pl_connections p1 = []"
  proof (cases "cn_on_disconnect c")
    case None
    with that [of c p "[]"] Cons.prems show ?thesis by (simp add: connection_stop_def)
  next
    case (Some h)
    obtain p1 ev where "run_disc_handler h (cn_id c) p = Some (p1, ev)" "\<not> pl_locked p1" "pl_connections p1 = []"
      using run_disc_total [OF Cons.prems(1), of h "cn_id c"] Cons.prems(2) by blast
    with that Some show ?thesis by (simp add: connection_stop_def)
  qed
  with Cons.IH [of p1] show ?case by auto
qed simp

lemma close_all_total:
  "\<not> pl_locked p \<Longrightarrow> \<exists>p' evs. close_all p = Some (p', evs) \<and> pl_connections p' = []"
  using stop_all_total [of "p\<lparr>pl_connections := []\<rparr>"] by (fastforce simp: close_all_def)

section \<open>The short account\<close>

text \<open>
  Without tasks and failing hooks, start and stop do to the server what \<open>server_start\<close> and
  \<open>server_stop\<close> say; a shutdown hook that raises leaves it STOPPING, with everything closed.
\<close>

lemma start_refines: "lc_server (fst (lifecycle_start None True l)) = server_start (lc_server l)"
  by (simp add: lifecycle_start_def server_start_def run_hooks_def s_defs split: prod.split)

lemma stop_refines:
  assumes "lifecycle_stop None None l = (l', acts, Some ())"
  shows "lc_server l' = fst (server_stop (lc_server l))"
  using assms
  by (auto simp: lifecycle_stop_def server_stop_def run_hooks_def cancel_tasks_def close_pool_def cancel_requests_def
      stop_discovery_def s_defs broker_stop_def Let_def lc_server_def [symmetric] split: option.splits prod.splits if_splits)

lemma failed_shutdown_hook:
  assumes "sv_running (lc_server l)" and "k < lc_on_shutdown l" and "lifecycle_stop None (Some k) l = (l', acts, r)"
    and "\<not> pl_locked (sv_pool (lc_server l))"
  shows "r = None \<and> sv_state (lc_server l') = STOPPING \<and> \<not> lc_rust l'"
  using assms close_all_total [OF assms(4)]
  by (auto simp: lifecycle_stop_def run_hooks_def cancel_tasks_def close_pool_def cancel_requests_def
      stop_discovery_def s_defs broker_stop_def Let_def lc_server_def [symmetric] split: option.splits prod.splits if_splits)

section \<open>Examples\<close>

definition sample_life :: "(nat, nat, unit) Lifecycle" where
  "sample_life = (new_lifecycle ''10.0.0.7'' 8080 ''stun:1''
     (sample_server\<lparr>sv_running := False, sv_state := CREATED\<rparr>))\<lparr>lc_on_shutdown := 2\<rparr>"

definition sample_events :: "life_event list" where
  "sample_events = [Starts None True, TaskMade, DiscoveryStarts]"

lemma sample_life_simps:
  "sv_running (lc_server (foldl (life_step ev) sample_life sample_events))"
  "\<not> pl_locked (sv_pool (lc_server (foldl (life_step ev) sample_life sample_events)))"
  "lc_active_tasks (foldl (life_step ev) sample_life sample_events) = [0]"
  "lc_on_shutdown (foldl (life_step ev) sample_life sample_events) = 2"
  "sv_running (lc_server (foldl (life_step ev) (new_lifecycle h p st (sample_server\<lparr>sv_running := False, sv_state := CREATED\<rparr>)) sample_events))"
  "lc_active_tasks (foldl (life_step ev) (new_lifecycle h p st (sample_server\<lparr>sv_running := False, sv_state := CREATED\<rparr>)) sample_events) = [0]"
  by (simp_all add: sample_events_def sample_life_def lifecycle_start_def run_hooks_def s_defs track_task_def start_discovery_def
      new_lifecycle_def new_broker_def lc_server_def put_server_def sample_server_def server_start_def new_server_def
      pool_set_callbacks_def new_pool_def split: prod.split)

section \<open>Properties\<close>

lemma start_returns:
  "\<not> sv_running (lc_server l) \<Longrightarrow> \<exists>l2 acts2. lifecycle_start None True l = (l2, acts2, Some ())
     \<and> sv_running (lc_server l2) \<and> sv_state (lc_server l2) = RUNNING \<and> lc_rust l2"
  by (simp add: lifecycle_start_def run_hooks_def s_bind_def s_then_def s_get_def s_put_def s_act_def s_ret_def
      split: prod.split)

lemma stop_when_idle: "\<not> sv_running (lc_server l) \<Longrightarrow> lifecycle_stop me bad l = (l, [], Some ())"
  by (simp add: lifecycle_stop_def s_defs)

text \<open>
  C16. A stop leaves nothing behind: called from outside the handlers, with the pool's lock free and no
  shutdown hook that raises, it returns with the transport down, no connection, limiter, brokered
  request, task or advertisement left and the heartbeat off; every task and every pending brokered
  request has been cancelled, the shutdown hooks run last and in order, and the server can be started again.
\<close>

theorem stop_leaves_nothing:
  assumes "sv_running (lc_server l)" and "\<forall>k. me = Some k \<longrightarrow> k \<notin> set (lc_active_tasks l)"
    and "\<not> pl_locked (sv_pool (lc_server l))"
  shows "\<exists>l' acts. lifecycle_stop me None l = (l', acts @ map ShutdownHook [0..<lc_on_shutdown l], Some ())
    \<and> \<not> lc_rust l' \<and> sv_state (lc_server l') = CLOSED \<and> pl_connections (sv_pool (lc_server l')) = []
    \<and> sv_limiters (lc_server l') = [] \<and> bk_requests (lc_broker l') = [] \<and> lc_active_tasks l' = []
    \<and> lc_discovery l' = None \<and> \<not> hm_running (sv_heartbeat (lc_server l'))
    \<and> (\<forall>k \<in> set (lc_active_tasks l). CancelTask k \<in> set acts)
    \<and> (\<forall>a \<in> set (cancelled_requests (lc_broker l)). CancelRequest a \<in> set acts)
    \<and> (\<exists>l2 acts2. lifecycle_start None True l' = (l2, acts2, Some ()) \<and> sv_state (lc_server l2) = RUNNING
         \<and> lc_rust l2)"
proof -
  let ?l1 = "put_server (\<lambda>s. s\<lparr>sv_state := STOPPING, sv_running := False, sv_heartbeat := hm_stop (sv_heartbeat s)\<rparr>) l
    \<lparr>lc_stop_event := True\<rparr>"
  let ?l2 = "?l1\<lparr>lc_active_tasks := [], lc_rust := False\<rparr>"
  have tasks: "cancel_tasks me ?l1 = (?l1\<lparr>lc_active_tasks := []\<rparr>, map CancelTask (lc_active_tasks l), Some ())"
    using assms(2) by (cases me) (simp_all add: cancel_tasks_def Let_def)
  obtain p evs where p: "close_all (sv_pool (lc_server l)) = Some (p, evs)" "pl_connections p = []"
    using close_all_total [OF assms(3)] by blast
  then obtain hooks where pool: "close_pool ?l2 = (put_server (\<lambda>s. s\<lparr>sv_pool := p, sv_limiters := []\<rparr>) ?l2, hooks, Some ())"
    by (simp add: close_pool_def)
  let ?l3 = "put_server (\<lambda>s. s\<lparr>sv_pool := p, sv_limiters := []\<rparr>) ?l2"
  have reqs: "cancel_requests ?l3 = (?l3\<lparr>lc_broker := (lc_broker ?l3)\<lparr>bk_requests := []\<rparr>\<rparr>,
      map CancelRequest (cancelled_requests (lc_broker l)), Some ())"
    by (simp add: cancel_requests_def broker_stop_def cancelled_requests_def)
  obtain ad where disc: "stop_discovery x = (x\<lparr>lc_discovery := None\<rparr>, ad x, Some ())" for x :: "('a, 'b, 'c) Lifecycle"
    by (simp add: stop_discovery_def)
  let ?l' = "put_server (\<lambda>s. s\<lparr>sv_state := CLOSED\<rparr>) (?l3\<lparr>lc_broker := (lc_broker ?l3)\<lparr>bk_requests := []\<rparr>, lc_discovery := None\<rparr>)"
  let ?acts = "map CancelTask (lc_active_tasks l) @ (if lc_rust l then [RustStop] else []) @ hooks
    @ map CancelRequest (cancelled_requests (lc_broker l)) @ ad (?l3\<lparr>lc_broker := (lc_broker ?l3)\<lparr>bk_requests := []\<rparr>\<rparr>)"
  have run: "lifecycle_stop me None l = (?l', ?acts @ map ShutdownHook [0..<lc_on_shutdown l], Some ())"
    using assms(1)
    by (simp add: lifecycle_stop_def s_bind_def s_then_def s_get_def s_put_def s_act_def s_ret_def tasks pool reqs disc
        run_hooks_def)
  have idle: "\<not> sv_running (lc_server ?l')" by (simp add: lc_server_def [symmetric])
  obtain l2 acts2 where "lifecycle_start None True ?l' = (l2, acts2, Some ())" "sv_state (lc_server l2) = RUNNING" "lc_rust l2"
    using start_returns [OF idle] by blast
  with run p(2) show ?thesis
    by (intro exI [of _ ?l'] exI [of _ ?acts]) (auto simp: lc_server_def [symmetric] hm_stop_def)
qed

theorem stop_leaves_nothing_witness:
  "\<exists>l' acts. lifecycle_stop None None (foldl (life_step (sample_env reply_codec)) sample_life sample_events)
     = (l', acts @ [ShutdownHook 0, ShutdownHook 1], Some ()) \<and> sv_state (lc_server l') = CLOSED \<and> CancelTask 0 \<in> set acts"
proof -
  let ?l = "foldl (life_step (sample_env reply_codec)) sample_life sample_events"
  have l: "sv_running (lc_server ?l)" "\<not> pl_locked (sv_pool (lc_server ?l))" "lc_active_tasks ?l = [0]" "lc_on_shutdown ?l = 2"
    by (simp_all add: sample_life_simps)
  have hooks: "map ShutdownHook [0..<2] = [ShutdownHook 0, ShutdownHook 1]" by (simp add: numeral_2_eq_2)
  from stop_leaves_nothing [OF l(1) _ l(2), of None] show ?thesis unfolding l(3,4) hooks by auto
qed

text \<open>
  C33. A handler that stops its server only half stops it: a \<open>stop\<close> awaited inside one of the server's
  own tasks cancels and then waits for that very task and never returns; the transport stays up, no
  connection is closed, and because the server already counts as not running, every later \<open>stop\<close>
  returns at once without doing anything.
\<close>

theorem stop_inside_handler_hangs:
  assumes life: "l = foldl (life_step ev) (new_lifecycle host port stun s0) es"
      "\<not> sv_running s0" "sv_state s0 = CREATED"
    and running: "sv_running (lc_server l)" and inside: "k \<in> set (lc_active_tasks l)"
  shows "\<exists>l' acts. lifecycle_stop (Some k) bad l = (l', acts, None)
    \<and> lc_rust l' \<and> RustStop \<notin> set acts \<and> sv_pool (lc_server l') = sv_pool (lc_server l)
    \<and> sv_state (lc_server l') = STOPPING
    \<and> (\<forall>me bad'. lifecycle_stop me bad' l' = (l', [], Some ()))"
proof -
  have "life_ok (new_lifecycle host port stun s0)"
    using life(2,3) by (simp add: life_ok_def new_lifecycle_def new_broker_def lc_server_def)
  then have "life_ok l" unfolding life(1) by (rule lifecycle.run_inv)
  with running have up: "lc_rust l" by (simp add: life_ok_def)
  let ?l1 = "put_server (\<lambda>s. s\<lparr>sv_state := STOPPING, sv_running := False, sv_heartbeat := hm_stop (sv_heartbeat s)\<rparr>) l
    \<lparr>lc_stop_event := True, lc_active_tasks := [k]\<rparr>"
  have "lifecycle_stop (Some k) bad l = (?l1, map CancelTask (lc_active_tasks l), None)"
    using running inside by (simp add: lifecycle_stop_def cancel_tasks_def s_defs Let_def)
  moreover have "\<not> sv_running (lc_server ?l1)" by (simp add: lc_server_def [symmetric])
  ultimately show ?thesis using up stop_when_idle [of ?l1] by auto
qed

theorem stop_inside_handler_hangs_witness:
  "\<exists>l' acts. lifecycle_stop (Some 0) None (foldl (life_step (sample_env reply_codec)) (new_lifecycle ''10.0.0.7'' 8080 ''stun:1''
      (sample_server\<lparr>sv_running := False, sv_state := CREATED\<rparr>)) sample_events) = (l', acts, None) \<and> lc_rust l'"
proof -
  let ?s = "sample_server\<lparr>sv_running := False, sv_state := CREATED\<rparr>"
  let ?l = "foldl (life_step (sample_env reply_codec)) (new_lifecycle ''10.0.0.7'' 8080 ''stun:1'' ?s) sample_events"
  have "sv_running (lc_server ?l)" "0 \<in> set (lc_active_tasks ?l)"
    by (simp_all add: sample_life_simps(5-))
  moreover have "\<not> sv_running ?s" "sv_state ?s = CREATED" by simp_all
  ultimately show ?thesis
    using stop_inside_handler_hangs [where bad = None and l = ?l and k = 0, OF refl] by blast
qed

end
