(* ===== verification/Peer.thy ===== *)
theory Peer
  imports Login ClientInv Descriptors Discovery "HOL-Library.Multiset"
begin

text \<open>
  \<open>establish_p2p\<close> of \<open>src/conduit/client.py\<close>: the broker's answer, the race of a connection in the LAN
  with one over the mapped address, the punching beside it and the mesh tunnel as the last resort; and
  the other end, where the connection that arrives at the local server becomes a client.  Each attempt
  is a client of its own, run with the definitions of Client.thy.
\<close>

section \<open>One attempt\<close>

datatype direct_route = LanRoute | WanRoute
datatype attempt_end = Won | Lost | SelfCancelled

text \<open>\<open>host, port_str = addr.split(":")\<close> and \<open>int(port_str)\<close>; None: an exception.\<close>

definition split_address :: "pyval \<Rightarrow> (string \<times> int) option" where
  "split_address v = (case v of
      PStr a \<Rightarrow> (case split_on (CHR '':'') a of [h, p] \<Rightarrow> map_option (\<lambda>n. (h, n)) (py_int_of_str p) | _ \<Rightarrow> None)
    | _ \<Rightarrow> None)"

text \<open>The arguments of the attempt's descriptor, and what a client reads of a descriptor.\<close>

definition attempt_input ::
  "ClientConfig \<Rightarrow> string \<Rightarrow> direct_route \<Rightarrow> int \<Rightarrow> string \<times> int \<Rightarrow> (string, pyval) dict" where
  "attempt_input cf target rt port hp =
     [(''server_host'', PStr (fst hp)), (''server_port'', PInt (snd hp)), (''password'', PStr (cc_password cf)),
      (''local_port'', PInt port), (''reconnect_enabled'', PBool False),
      (''name'', PStr (cc_name cf @ ''_to_'' @ target @ (case rt of LanRoute \<Rightarrow> ''_lan'' | WanRoute \<Rightarrow> []))),
      (''connect_timeout'', PInt (case rt of LanRoute \<Rightarrow> 3 | WanRoute \<Rightarrow> 5))]"

definition text_of :: "pyval \<Rightarrow> string" where
  "text_of v = (case v of PStr s \<Rightarrow> s | _ \<Rightarrow> [])"
definition int_of_py :: "pyval \<Rightarrow> int" where
  "int_of_py v = (case v of PInt i \<Rightarrow> i | _ \<Rightarrow> 0)"

definition config_of :: "(string, pyval) dict \<Rightarrow> ClientConfig" where
  "config_of d =
     \<lparr>cc_server_host = text_of (dict_get d ''server_host''), cc_server_port = int_of_py (dict_get d ''server_port''),
      cc_password = text_of (dict_get d ''password''), cc_name = text_of (dict_get d ''name''),
      cc_version = text_of (dict_get d ''version''),
      cc_username = (case dict_get d ''username'' of PStr u \<Rightarrow> Some u | _ \<Rightarrow> None),
      cc_local_port = (case dict_get d ''local_port'' of PInt p \<Rightarrow> Some p | _ \<Rightarrow> None),
      cc_stun_server = text_of (dict_get d ''stun_server''), cc_connect_timeout = int_of_py (dict_get d ''connect_timeout''),
      cc_reconnect_enabled = truthy (dict_get d ''reconnect_enabled''),
      cc_reconnect_attempts = int_of_py (dict_get d ''reconnect_attempts''),
      cc_reconnect_delay = number (dict_get d ''reconnect_delay''),
      cc_reconnect_delay_max = number (dict_get d ''reconnect_delay_max''),
      cc_reconnect_delay_multiplier = number (dict_get d ''reconnect_delay_multiplier''),
      cc_enable_compression = truthy (dict_get d ''enable_compression'')\<rparr>"

text \<open>
  \<open>connect\<close> of the attempt's client: what the transport says and what happens during the wait are its
  scene.  A task that has called \<open>cancel\<close> on itself ends as cancelled, whatever it returns.
\<close>

definition direct_attempt ::
  "('m, 'h, 't) client_env \<Rightarrow> scene \<Rightarrow> ('m, 'h, 't) Client
     \<Rightarrow> ('m, 'h, 't) Client \<times> 'm client_action list \<times> attempt_end" where
  "direct_attempt ev sc cli =
     (case connect_begin ev (sc_link sc) (sc_uid sc) (sc_now sc) cli of
        (s1, a1, r) \<Rightarrow>
          if r \<noteq> Some True then (s1, a1, Lost)
          else
            (case client_events ev (sc_events sc) s1 of
               (s2, a2) \<Rightarrow>
                 (case connect_end s2 of
                    (s3, a3, ok) \<Rightarrow>
                      (s3, a1 @ a2 @ a3,
                       if CCancel ConnectTask \<in> set (a1 @ a2 @ a3) then SelfCancelled
                       else if ok = Some True then Won else Lost))))"

text \<open>\<open>try_connect_lan\<close> and \<open>try_connect_wan\<close>: a bad address or descriptor is an attempt that is lost.\<close>

definition try_connect ::
  "(model \<Rightarrow> (string, pyval) dict \<Rightarrow> (string, pyval) dict option) \<Rightarrow> (ClientConfig \<Rightarrow> ('m, 'h, 't) Client)
     \<Rightarrow> ('m, 'h, 't) client_env \<Rightarrow> ClientConfig \<Rightarrow> string \<Rightarrow> direct_route \<Rightarrow> int \<Rightarrow> pyval \<Rightarrow> scene
     \<Rightarrow> ('m, 'h, 't) Client option \<times> 'm client_action list \<times> attempt_end" where
  "try_connect build new ev cf target rt port addr sc =
     (if rt = LanRoute \<and> \<not> truthy addr then (None, [], Lost)
      else
        (case Option.bind (split_address addr) (\<lambda>hp. build ClientDescriptor_model (attempt_input cf target rt port hp)) of
           None \<Rightarrow> (None, [], Lost)
         | Some d \<Rightarrow> (case direct_attempt ev sc (new (config_of d)) of (cli, acts, r) \<Rightarrow> (Some cli, acts, r))))"

section \<open>The race\<close>

text \<open>
  The tasks that are done when the first wait ends, and then the others as they complete: the first
  that has a client decides, and a task that was cancelled raises its CancelledError.  The second
  component: the tasks that are still running then, which are cancelled.
\<close>

datatype race_result = Winner direct_route | NobodyWon | RaceCancelled

fun race_scan :: "(direct_route \<Rightarrow> attempt_end) \<Rightarrow> direct_route list \<Rightarrow> race_result \<times> direct_route list" where
  "race_scan how [] = (NobodyWon, [])"
| "race_scan how (r # rs) =
     (case how r of Won \<Rightarrow> (Winner r, rs) | Lost \<Rightarrow> race_scan how rs | SelfCancelled \<Rightarrow> (RaceCancelled, rs))"

definition race :: "(direct_route \<Rightarrow> attempt_end) \<Rightarrow> direct_route list \<Rightarrow> direct_route list \<Rightarrow> race_result \<times> direct_route list" where
  "race how finished later =
     (case race_scan how finished of
        (NobodyWon, rest) \<Rightarrow> race_scan how later
      | (res, rest) \<Rightarrow> (res, later))"

definition race_routes :: "pyval \<Rightarrow> direct_route list" where
  "race_routes lan = (if truthy lan then [LanRoute] else []) @ [WanRoute]"

section \<open>Punching\<close>

text \<open>
  \<open>do_punching\<close>, a task beside the race that is cancelled with its end: \<open>reach\<close> is how far it comes -
  0 is inside the STUN call, if there is one, 1 the pause after the message, 2 and 3 one and both punches.
\<close>

definition do_punching ::
  "('m, 'h, 't) client_env \<Rightarrow> string \<Rightarrow> string \<Rightarrow> int \<Rightarrow> string option \<Rightarrow> string \<Rightarrow> pyval \<Rightarrow> pyval \<Rightarrow> nat \<Rightarrow> time
     \<Rightarrow> ('m, 'h, 't, unit) cstep" where
  "do_punching ev target req port mapped local_ip addr lan reach now = catch
     (s_bind (s_get cl_config)
       (\<lambda>cf. if reach = 0 \<and> \<not> host_is_local ev (cc_server_host cf) \<and> cc_stun_server cf \<noteq> [] then s_ret ()
          else s_then
            (client_send ev ''p2p_punch_source''
               (PDict [(''request_id'', PStr req), (''source_addr'', PStr (public_address ev cf mapped local_ip port)),
                       (''lan_addr'', PStr (address local_ip port)), (''target_id'', PStr target)]) now)
            (case addr of
               PStr a \<Rightarrow>
                 (let stun = (if host_is_local ev (cc_server_host cf) \<or> host_is_local ev (host_part a)
                              then [] else cc_stun_server cf)
                  in s_then (if 2 \<le> reach then s_act (CPunch stun port a) else s_ret ())
                       (case lan of
                          PStr l \<Rightarrow> if l \<noteq> [] \<and> 3 \<le> reach then s_act (CPunch stun port l) else s_ret ()
                        | _ \<Rightarrow> s_ret ()))
             | _ \<Rightarrow> s_ret ())))"

section \<open>The mesh as the last resort\<close>

text \<open>The polls of \<open>establish_mesh_tunnel\<close>, with the events between them.\<close>

fun tunnel_polls ::
  "('m, 'h, 't) client_env \<Rightarrow> nat \<Rightarrow> (link_event \<times> time) list list \<Rightarrow> ('m, 'h, 't, bool) cstep" where
  "tunnel_polls ev a [] s = (s, [], Some False)"
| "tunnel_polls ev a (qs # rest) s =
     (if ce_handshake_done ev (cl_tunnels s ! a) then (s, [], Some True)
      else (case client_events ev qs s of
              (s1, a1) \<Rightarrow> (case tunnel_polls ev a rest s1 of (s2, a2, r) \<Rightarrow> (s2, a1 @ a2, r))))"

definition mesh_fallback ::
  "('m, 'h, 't) client_env \<Rightarrow> string \<Rightarrow> (nat \<Rightarrow> (link_event \<times> time) list) \<Rightarrow> time \<Rightarrow> ('m, 'h, 't, bool) cstep" where
  "mesh_fallback ev target polls now = catch_with False
     (s_then (mesh_tunnel_start ev target now)
       (s_bind (s_bind (s_get (tunnel_at target)) s_opt)
         (\<lambda>a. s_bind (tunnel_polls ev a (map polls [0..<50]))
           (\<lambda>up. if \<not> up then s_fail
              else s_bind (s_get (\<lambda>s. if tunnel_ready ev target s then tunnel_at target s else None))
                (\<lambda>found. case found of
                   None \<Rightarrow> s_ret False
                 | Some a \<Rightarrow> s_then (put_peer target (new_mesh_fallback_client target a now)) (s_ret True))))))"

section \<open>The whole of \<open>establish_p2p\<close>\<close>

datatype p2p_reply = Replied "(string, pyval) dict" | ReplyTimeout | ReplyCancelled
datatype p2p_outcome = DirectClient direct_route | MeshClient | P2PRaises | P2PCancelled

record p2p_scene =
  ps_before :: "(link_event \<times> time) list" \<comment> \<open>while it waits for the broker\<close>
  ps_reply :: p2p_reply
  ps_port :: int \<comment> \<open>the punched port, and a free one for the LAN\<close>
  ps_lan_port :: int
  ps_mapped :: "string option"
  ps_local_ip :: string
  ps_reach :: nat
  ps_attempt :: "direct_route \<Rightarrow> scene"
  ps_first :: direct_route \<comment> \<open>the attempt that completes, or is looked at, first\<close>
  ps_together :: bool \<comment> \<open>all of them are done when the first wait ends\<close>
  ps_meanwhile :: "(link_event \<times> time) list" \<comment> \<open>events of the client during the race\<close>
  ps_polls :: "nat \<Rightarrow> (link_event \<times> time) list"
  ps_now :: time

text \<open>
  The tasks of the race in the order in which they complete; those that are done at the end of the
  first wait - at least one - and the others.
\<close>

definition race_order :: "p2p_scene \<Rightarrow> (string, pyval) dict \<Rightarrow> direct_route list" where
  "race_order ps d =
     (let tasks = race_routes (dict_get d ''lan_addr'')
      in if ps_first ps \<in> set tasks then ps_first ps # remove1 (ps_first ps) tasks else tasks)"

definition race_done :: "p2p_scene \<Rightarrow> (string, pyval) dict \<Rightarrow> direct_route list" where
  "race_done ps d = (if ps_together ps then race_order ps d else take 1 (race_order ps d))"
definition race_pending :: "p2p_scene \<Rightarrow> (string, pyval) dict \<Rightarrow> direct_route list" where
  "race_pending ps d = (if ps_together ps then [] else drop 1 (race_order ps d))"

text \<open>How each attempt of a scene ends.\<close>

definition attempt_result ::
  "(model \<Rightarrow> (string, pyval) dict \<Rightarrow> (string, pyval) dict option) \<Rightarrow> (ClientConfig \<Rightarrow> ('m, 'h, 't) Client)
     \<Rightarrow> ('m, 'h, 't) client_env \<Rightarrow> ClientConfig \<Rightarrow> string \<Rightarrow> p2p_scene \<Rightarrow> (string, pyval) dict \<Rightarrow> direct_route
     \<Rightarrow> ('m, 'h, 't) Client option \<times> 'm client_action list \<times> attempt_end" where
  "attempt_result build new ev cf target ps d rt =
     try_connect build new ev cf target rt (case rt of LanRoute \<Rightarrow> ps_lan_port ps | WanRoute \<Rightarrow> ps_port ps)
       (dict_get d (case rt of LanRoute \<Rightarrow> ''lan_addr'' | WanRoute \<Rightarrow> ''public_addr'')) (ps_attempt ps rt)"

definition p2p_accepted ::
  "(model \<Rightarrow> (string, pyval) dict \<Rightarrow> (string, pyval) dict option) \<Rightarrow> (ClientConfig \<Rightarrow> ('m, 'h, 't) Client)
     \<Rightarrow> ('m, 'h, 't) client_env \<Rightarrow> string \<Rightarrow> string \<Rightarrow> p2p_scene \<Rightarrow> (string, pyval) dict
     \<Rightarrow> ('m, 'h, 't, p2p_outcome) cstep" where
  "p2p_accepted build new ev target req ps d =
     s_bind (s_get cl_config)
       (\<lambda>cf. s_then (do_punching ev target req (ps_port ps) (ps_mapped ps) (ps_local_ip ps)
                (dict_get d ''public_addr'') (dict_get d ''lan_addr'') (ps_reach ps) (ps_now ps))
         (s_then (\<lambda>s. case client_events ev (ps_meanwhile ps) s of (s1, acts) \<Rightarrow> (s1, acts, Some ()))
           (case fst (race (\<lambda>rt. snd (snd (attempt_result build new ev cf target ps d rt))) (race_done ps d) (race_pending ps d)) of
              Winner rt \<Rightarrow> s_ret (DirectClient rt)
            | RaceCancelled \<Rightarrow> s_ret P2PCancelled
            | NobodyWon \<Rightarrow>
                s_bind (mesh_fallback ev target (ps_polls ps) (ps_now ps))
                  (\<lambda>up. s_ret (if up then MeshClient else P2PRaises)))))"

definition establish_p2p ::
  "(model \<Rightarrow> (string, pyval) dict \<Rightarrow> (string, pyval) dict option) \<Rightarrow> (ClientConfig \<Rightarrow> ('m, 'h, 't) Client)
     \<Rightarrow> ('m, 'h, 't) client_env \<Rightarrow> string \<Rightarrow> string \<Rightarrow> p2p_scene \<Rightarrow> ('m, 'h, 't, p2p_outcome) cstep" where
  "establish_p2p build new ev target req ps = catch_with P2PRaises
     (s_then (p2p_begin ev target req (ps_now ps))
       (s_then (\<lambda>s. case client_events ev (ps_before ps) s of (s1, acts) \<Rightarrow> (s1, acts, Some ()))
         (s_bind
           (case ps_reply ps of
              ReplyTimeout \<Rightarrow> s_ret P2PRaises
            | ReplyCancelled \<Rightarrow> s_ret P2PCancelled
            | Replied d \<Rightarrow>
                if \<not> truthy (dict_get d ''accepted'') then s_ret P2PRaises
                else catch_with P2PRaises (p2p_accepted build new ev target req ps d))
           (\<lambda>out. s_then (p2p_end req) (s_ret out)))))"

section \<open>The other end\<close>

text \<open>
  \<open>wait_for_peer_conn\<close>: a client around the connection that has arrived, whose router and registry
  - fresh, without gates on their methods - take the place of those of the local server.
\<close>

definition as_client_connection :: "srv_session Connection \<Rightarrow> pyval Connection" where
  "as_client_connection c =
     \<lparr>cn_client_id = cn_client_id c, cn_id = cn_id c, cn_authenticated = cn_authenticated c,
      cn_session = map_option (\<lambda>ss. PDict (se_client_info (ss_session ss))) (cn_session c),
      cn_stats = cn_stats c, cn_pending_rpcs = cn_pending_rpcs c, cn_on_disconnect = cn_on_disconnect c\<rparr>"

definition adopt_peer ::
  "(model \<Rightarrow> (string, pyval) dict \<Rightarrow> (string, pyval) dict option) \<Rightarrow> (ClientConfig \<Rightarrow> ('m, 'h, 't) Client)
     \<Rightarrow> ClientConfig \<Rightarrow> int \<Rightarrow> srv_session Connection \<Rightarrow> ('m, 'h, 't) Server
     \<Rightarrow> (('m, 'h, 't) Client \<times> ('m, 'h, 't) Server) option" where
  "adopt_peer build new cf port c srv =
     map_option
       (\<lambda>d. let cli = (new (config_of d))
                  \<lparr>cl_connection := Some (as_client_connection c), cl_session_token := PStr ''p2p''\<rparr>
            in (cli, srv\<lparr>sv_router := cl_router cli, sv_registry := cl_registry cli, sv_gates := [],
                         sv_binary_handler := True\<rparr>))
       (build ClientDescriptor_model
          [(''server_host'', PStr (remote_address c)), (''server_port'', PInt port), (''password'', PStr (cc_password cf))])"

section \<open>What decides the race\<close>

lemma race_scan_first:
  "fst (race_scan how rs) =
     (case find (\<lambda>r. how r \<noteq> Lost) rs of
        None \<Rightarrow> NobodyWon | Some r \<Rightarrow> if how r = Won then Winner r else RaceCancelled)"
  by (induction rs) (auto split: attempt_end.split)

lemma find_append: "find P (xs @ ys) = (case find P xs of None \<Rightarrow> find P ys | Some x \<Rightarrow> Some x)"
  by (induction xs) simp_all

lemma race_first:
  "fst (race how finished later) =
     (case find (\<lambda>r. how r \<noteq> Lost) (finished @ later) of
        None \<Rightarrow> NobodyWon | Some r \<Rightarrow> if how r = Won then Winner r else RaceCancelled)"
  using race_scan_first [of how finished] race_scan_first [of how later]
  by (cases "race_scan how finished") (auto simp: race_def find_append split: option.splits if_splits)

lemma race_order_split: "race_done ps d @ race_pending ps d = race_order ps d"
  by (simp add: race_done_def race_pending_def)

text \<open>Every task that was created is in the order, once.\<close>

lemma race_order_tasks: "mset (race_order ps d) = mset (race_routes (dict_get d ''lan_addr''))"
  by (cases "ps_first ps") (simp_all add: race_order_def race_routes_def Let_def)

lemma calm_p2p:
  "calm (p2p_begin ev target req now)" "calm (p2p_end req)"
  by (auto simp: p2p_begin_def p2p_end_def client_send_def retry_key_def intro!: calm_rules calm_put)

lemma calm_catch_unit: "calm m \<Longrightarrow> calm (catch m)"
  by (auto simp: calm_def frame_catch does_only_def catch_def split_def)

lemma calm_punching: "calm (do_punching ev target req port mapped ip addr lan reach now)"
  by (auto simp: do_punching_def client_send_def Let_def no_sleep_def
      intro!: calm_catch_unit calm_rules calm_act split: pyval.split)

lemma punching_returns: "\<exists>s1 a1. do_punching ev target req port mapped ip addr lan reach now s = (s1, a1, Some ())"
  by (simp add: do_punching_def catch_def split: prod.split)

lemma calm_config: "calm m \<Longrightarrow> m s = (s', acts, r) \<Longrightarrow> cl_config s' = cl_config s"
  using calm_run by (fastforce simp: retry_key_def)

lemma events_config: "client_events ev qs s = (s', acts) \<Longrightarrow> cl_config s' = cl_config s"
  using calm_events by (fastforce simp: retry_key_def)

lemma fallback_peer:
  assumes "mesh_fallback ev target polls now s = (s', acts, r)"
  shows "r = Some False \<or> (r = Some True \<and> (\<exists>c. map_of (cl_peer_clients s') target = Some (MeshPeer c)
    \<and> mc_peer_id c = target \<and> tunnel_at target s' = Some (mc_tunnel c)
    \<and> ce_handshake_done ev (cl_tunnels s' ! mc_tunnel c)))"
  using assms
  by (auto simp: mesh_fallback_def catch_with_def s_bind_def s_then_def s_get_def s_opt_def s_fail_def s_ret_def
      put_peer_def s_put_def new_mesh_fallback_client_def new_mesh_connection_def tunnel_ready_def tunnel_at_def update_conv'
      split: prod.splits option.splits if_splits)

lemma accepted_outcome:
  assumes "p2p_accepted build new ev target req ps d s = (s', acts, r)"
  shows "case find (\<lambda>rt. snd (snd (attempt_result build new ev (cl_config s) target ps d rt)) \<noteq> Lost)
            (race_order ps d) of
      Some rt \<Rightarrow> r = Some (if snd (snd (attempt_result build new ev (cl_config s) target ps d rt)) = Won
                        then DirectClient rt else P2PCancelled)
    | None \<Rightarrow> r = Some P2PRaises \<or> (r = Some MeshClient \<and> (\<exists>c. map_of (cl_peer_clients s') target = Some (MeshPeer c)
        \<and> mc_peer_id c = target \<and> tunnel_at target s' = Some (mc_tunnel c)
        \<and> ce_handshake_done ev (cl_tunnels s' ! mc_tunnel c)))"
proof -
  let ?how = "\<lambda>rt. snd (snd (attempt_result build new ev (cl_config s) target ps d rt))"
  obtain s1 a1 where p: "do_punching ev target req (ps_port ps) (ps_mapped ps) (ps_local_ip ps)
      (dict_get d ''public_addr'') (dict_get d ''lan_addr'') (ps_reach ps) (ps_now ps) s = (s1, a1, Some ())"
    using punching_returns by blast
  obtain s2 a2 where q: "client_events ev (ps_meanwhile ps) s1 = (s2, a2)" by (cases "client_events ev (ps_meanwhile ps) s1")
  obtain s3 a3 up where f: "mesh_fallback ev target (ps_polls ps) (ps_now ps) s2 = (s3, a3, up)"
    by (cases "mesh_fallback ev target (ps_polls ps) (ps_now ps) s2")
  note first = race_first [of ?how "race_done ps d" "race_pending ps d", unfolded race_order_split]
  show ?thesis
  proof (cases "fst (race ?how (race_done ps d) (race_pending ps d))")
    case NobodyWon
    from fallback_peer [OF f] obtain z where z: "up = Some z" by auto
    have "s' = s3 \<and> r = Some (if z then MeshClient else P2PRaises)"
      using assms NobodyWon by (simp add: p2p_accepted_def s_bind_def s_then_def s_get_def s_ret_def p q f z)
    with first NobodyWon fallback_peer [OF f] z show ?thesis
      by (cases z) (simp_all split: option.splits if_splits)
  next
    case (Winner rt)
    have "r = Some (DirectClient rt)"
      using assms Winner by (simp add: p2p_accepted_def s_bind_def s_then_def s_get_def s_ret_def p q)
    with first Winner show ?thesis by (auto split: option.splits if_splits)
  next
    case RaceCancelled
    have "r = Some P2PCancelled"
      using assms RaceCancelled by (simp add: p2p_accepted_def s_bind_def s_then_def s_get_def s_ret_def p q)
    with first RaceCancelled show ?thesis by (auto split: option.splits if_splits)
  qed
qed

lemma establish_steps:
  assumes "p2p_begin ev target req (ps_now ps) s = (s1, a1, Some ())" and "ps_reply ps = Replied d"
    and "truthy (dict_get d ''accepted'')"
    and "client_events ev (ps_before ps) s1 = (s2, a2)"
    and "p2p_accepted build new ev target req ps d s2 = (s3, a3, Some out)"
  shows "establish_p2p build new ev target req ps s = (fst (p2p_end req s3), a1 @ a2 @ a3, Some out)"
  using assms by (simp add: establish_p2p_def catch_with_def s_bind_def s_then_def s_ret_def p2p_end_def s_put_def)

lemma establish_outcome:
  assumes sent: "p2p_begin ev target req (ps_now ps) s = (s1, a1, Some ())"
    and reply: "ps_reply ps = Replied d" "truthy (dict_get d ''accepted'')"
  obtains s3 acts out where "establish_p2p build new ev target req ps s = (fst (p2p_end req s3), acts, Some out)"
    "case find (\<lambda>rt. snd (snd (attempt_result build new ev (cl_config s) target ps d rt)) \<noteq> Lost)
            (race_order ps d) of
      Some rt \<Rightarrow> out = (if snd (snd (attempt_result build new ev (cl_config s) target ps d rt)) = Won
                        then DirectClient rt else P2PCancelled)
    | None \<Rightarrow> out = P2PRaises \<or> (out = MeshClient \<and> (\<exists>c. map_of (cl_peer_clients s3) target = Some (MeshPeer c)
        \<and> mc_peer_id c = target \<and> tunnel_at target s3 = Some (mc_tunnel c)
        \<and> ce_handshake_done ev (cl_tunnels s3 ! mc_tunnel c)))"
proof -
  obtain s2 a2 where q: "client_events ev (ps_before ps) s1 = (s2, a2)" by (cases "client_events ev (ps_before ps) s1")
  have cf: "cl_config s2 = cl_config s"
    using events_config [OF q] calm_config [OF calm_p2p(1) sent] by simp
  obtain s3 a3 r where a: "p2p_accepted build new ev target req ps d s2 = (s3, a3, r)"
    by (cases "p2p_accepted build new ev target req ps d s2")
  note o = accepted_outcome [OF a, unfolded cf]
  then obtain out where r: "r = Some out" by (auto split: option.splits)
  from establish_steps [OF sent reply q a [unfolded r]] o r that show ?thesis by (auto split: option.splits)
qed

text \<open>A won attempt has a connected, authenticated client.\<close>

lemma connect_end_True:
  "connect_end s = (s', acts, Some True) \<Longrightarrow> \<exists>c. cl_connection s' = Some c \<and> is_authenticated c"
  by (auto simp: connect_end_def do_connect_finish_def catch_with_def s_defs mark_authenticated_def is_authenticated_def
      split: option.splits prod.splits if_splits)

lemma attempt_won:
  assumes "attempt_result build new ev cf target ps d rt = (x, acts, Won)"
  shows "\<exists>cli c. x = Some cli \<and> cl_connection cli = Some c \<and> is_authenticated c"
  using assms connect_end_True
  by (auto simp: attempt_result_def try_connect_def direct_attempt_def split: if_splits option.splits prod.splits)

text \<open>The other ways out of \<open>establish_p2p\<close>.\<close>

lemma begin_fails:
  assumes "p2p_begin ev target req now s = (s1, a1, None)"
  shows "client_is_connected s \<Longrightarrow> map_of (cl_p2p_futures s1) req = Some Waiting"
    and "ps_now ps = now \<Longrightarrow> establish_p2p build new ev target req ps s = (s1, a1, Some P2PRaises)"
proof -
  show "map_of (cl_p2p_futures s1) req = Some Waiting" if "client_is_connected s"
    using assms that
    by (auto simp: p2p_begin_def client_send_def c_conn_send_def s_defs update_conv'
        split: option.splits prod.splits sum.splits)
  show "establish_p2p build new ev target req ps s = (s1, a1, Some P2PRaises)" if "ps_now ps = now"
    using assms that by (simp add: establish_p2p_def catch_with_def s_bind_def s_then_def)
qed

lemma establish_ends:
  assumes "p2p_begin ev target req (ps_now ps) s = (s1, a1, Some ())"
    and "ps_reply ps = ReplyTimeout \<and> out = P2PRaises \<or> ps_reply ps = ReplyCancelled \<and> out = P2PCancelled
      \<or> (\<exists>d. ps_reply ps = Replied d \<and> \<not> truthy (dict_get d ''accepted'') \<and> out = P2PRaises)"
  shows "\<exists>s' acts. establish_p2p build new ev target req ps s = (s', acts, Some out) \<and> map_of (cl_p2p_futures s') req = None"
proof -
  obtain s2 a2 where "client_events ev (ps_before ps) s1 = (s2, a2)" by (cases "client_events ev (ps_before ps) s1")
  with assms show ?thesis
    by (auto simp: establish_p2p_def catch_with_def s_bind_def s_then_def s_ret_def p2p_end_def s_put_def delete_conv')
qed

text \<open>A refused password makes the attempt's task cancel itself.\<close>

lemma refused_attempt:
  assumes "split_address (dict_get d (case rt of LanRoute \<Rightarrow> ''lan_addr'' | WanRoute \<Rightarrow> ''public_addr'')) = Some hp"
    and "build ClientDescriptor_model (attempt_input cf target rt (case rt of LanRoute \<Rightarrow> ps_lan_port ps | WanRoute \<Rightarrow> ps_port ps) hp) = Some desc"
    and "connect_begin ev (sc_link (ps_attempt ps rt)) (sc_uid (ps_attempt ps rt)) (sc_now (ps_attempt ps rt)) (new (config_of desc))
      = (c1, b1, Some True)"
    and "sc_events (ps_attempt ps rt) = [(LinkMessage frame, t)]"
    and "decode_single (ce_codec ev) frame = Inr m" "dm_message_type m = AUTH_FAILURE" "\<not> dm_is_mesh m"
  shows "snd (snd (attempt_result build new ev cf target ps d rt)) = SelfCancelled"
proof -
  have addr: "truthy (dict_get d (case rt of LanRoute \<Rightarrow> ''lan_addr'' | WanRoute \<Rightarrow> ''public_addr''))"
    using assms(1) by (auto simp: split_address_def split: pyval.splits)
  obtain c2 b2 where e: "client_events ev [(LinkMessage frame, t)] c1 = (c2, b2)"
    by (cases "client_events ev [(LinkMessage frame, t)] c1")
  from refused_connect_cancels_caller [OF assms(3,5-7) e] obtain c3 b3 where
    "connect_end c2 = (c3, b3, Some False)" "CCancel ConnectTask \<in> set b3" by blast
  with assms(1-4) addr e show ?thesis
    by (cases rt) (auto simp: attempt_result_def try_connect_def direct_attempt_def)
qed

section \<open>What is left behind\<close>

text \<open>The task of an attempt that won second is done, so nothing cancels it, and nobody has its client.\<close>

lemma second_winner_dropped: "race (\<lambda>r. Won) [LanRoute, WanRoute] [] = (Winner LanRoute, [])"
  by (simp add: race_def)

lemma keeps_events: "keeps (client_ok None) (\<lambda>s. case client_events ev qs s of (s1, acts) \<Rightarrow> (s1, acts, Some ()))"
  by (auto simp: keeps_def split_def intro: events_ok)

lemma keeps_catch: "keeps Q m \<Longrightarrow> keeps Q (catch m)"
  by (simp add: keeps_def catch_def split_def)

lemma keeps_polls:
  fixes ev :: "('m, 'h, 't) client_env"
  shows "keeps (client_ok None) (tunnel_polls ev a qss)"
proof (induction qss)
  case (Cons qs qss)
  show ?case unfolding keeps_def
  proof (intro allI impI)
    fix s :: "('m, 'h, 't) Client" assume "client_ok None s"
    moreover from events_ok [OF this] have "client_ok None (fst (tunnel_polls ev a qss (fst (client_events ev qs s))))"
      by (rule keepsD [OF Cons.IH])
    ultimately show "client_ok None (fst (tunnel_polls ev a (qs # qss) s))" by (simp add: split_def)
  qed
qed (simp add: keeps_def)

lemma put_fallback_ok:
  "client_ok None s \<Longrightarrow> tunnel_at target s = Some a \<Longrightarrow>
   client_ok None (fst (put_peer target (new_mesh_fallback_client target a now) s))"
  using client_ok_peer [of None s target "(new_mesh_connection target a (new_encoder False) now)\<lparr>mc_on_message := True\<rparr>"
      "cl_p2p_servers s"] client_okD(1) [of None s]
  by (simp add: put_peer_def s_put_def new_mesh_fallback_client_def new_mesh_connection_def tunnel_at_def)

lemma keeps_mesh_fallback: "keeps (client_ok None) (mesh_fallback ev target polls now)"
proof -
  have put: "keeps (client_ok None) (s_bind (s_get (\<lambda>s. if tunnel_ready ev target s then tunnel_at target s else None))
      (\<lambda>found. case found of None \<Rightarrow> s_ret False
        | Some a \<Rightarrow> s_then (put_peer target (new_mesh_fallback_client target a now)) (s_ret True)))"
    by (auto simp: keeps_def s_bind_def s_then_def s_get_def s_ret_def split_def dest: put_fallback_ok split: option.split)
  show ?thesis
    unfolding mesh_fallback_def
    by (intro keeps_catch_with keeps_then keeps_bind keeps_mesh_calls(1) keeps_simple keeps_polls)
      (auto intro: keeps_simple put)
qed

text \<open>The client's shared objects stay in order over the whole of \<open>establish_p2p\<close>.\<close>

lemma keeps_establish: "keeps (client_ok None) (establish_p2p build new ev target req ps)"
proof -
  have "keeps (client_ok None) (do_punching ev target req port mapped ip addr lan reach now)" for port mapped ip addr lan reach now
    unfolding do_punching_def client_send_def Let_def
    by (auto intro!: keeps_catch keeps_rules split: pyval.split)
  then have "keeps (client_ok None) (p2p_accepted build new ev target req ps d)" for d
    unfolding p2p_accepted_def
    by (auto intro!: keeps_bind keeps_then keeps_simple keeps_events keeps_mesh_fallback split: race_result.split)
  then show ?thesis
    unfolding establish_p2p_def
    by (auto intro!: keeps_catch_with keeps_bind keeps_then keeps_simple keeps_events keeps_p2p split: p2p_reply.split)
qed

section \<open>Examples\<close>

text \<open>A peer that welcomes or refuses whoever calls.\<close>

definition peer_codec :: "bool \<Rightarrow> codec" where
  "peer_codec ok = reply_codec
     \<lparr>parse_Packet := \<lambda>_. Some (build_packet (if ok then AUTH_SUCCESS else AUTH_FAILURE) [7] None 0 None None False 7),
      parse_AuthResponse := \<lambda>_. Some (login_reply ok)\<rparr>"

lemma peer_refusal:
  "\<exists>m. decode_single (peer_codec False) [1] = Inr m \<and> dm_message_type m = AUTH_FAILURE \<and> \<not> dm_is_mesh m"
proof -
  have "MessageType_of (pkt_type (build_packet AUTH_FAILURE [7] None 0 None None False 7)) = Some AUTH_FAILURE"
    "pkt_flags (build_packet AUTH_FAILURE [7] None 0 None None False 7) = 0"
    "\<not> pkt_is_mesh (build_packet AUTH_FAILURE [7] None 0 None None False 7)"
    "pkt_payload (build_packet AUTH_FAILURE [7] None 0 None None False 7) = [7]"
    by (simp_all add: build_packet_def MessageType_of_Some)
  then show ?thesis
    by (simp add: peer_codec_def reply_codec_def decode_single_def find_packet_def decode_packet_def
        decompress_step_def decode_payload_def dm_message_type_def has_flag_def)
qed

definition p2p_sample :: "(nat, nat, bytes) Client" where
  "p2p_sample = sample_client\<lparr>cl_connection := Some (new_connection [] ''u'' 0)\<rparr>"

definition p2p_answered :: "(string, pyval) dict" where
  "p2p_answered = [(''accepted'', PBool True), (''public_addr'', PStr ''1.2.3.4:5''), (''lan_addr'', PStr ''10.0.0.7:7'')]"

definition refused_scene :: p2p_scene where
  "refused_scene =
     \<lparr>ps_before = [], ps_reply = Replied p2p_answered, ps_port = 9, ps_lan_port = 8, ps_mapped = None,
      ps_local_ip = ''10.0.0.8'', ps_reach = 3,
      ps_attempt = (\<lambda>r. \<lparr>sc_before = [], sc_link = Some True, sc_uid = ''v'', sc_now = 0, sc_events = [(LinkMessage [1], 1)]\<rparr>),
      ps_first = LanRoute, ps_together = False, ps_meanwhile = [], ps_polls = (\<lambda>k. []), ps_now = 0\<rparr>"

lemma p2p_sample_asks:
  "\<exists>s1 a1. p2p_begin (client_env_of (peer_codec ok)) ''b'' ''r'' 0 p2p_sample = (s1, a1, Some ())"
proof -
  obtain frame e where "encode_message (peer_codec ok) (new_encoder False) ''p2p_request''
      (PDict [(''target_id'', PStr ''b''), (''request_id'', PStr ''r'')]) None 0 = (Inr frame, e)"
    by (simp add: peer_codec_def reply_codec_def encode_message_def serialize_data_def encode_simps
        compress_def to_bytes_be_def be_digits_numeral new_encoder_def)
  then show ?thesis
    by (simp add: p2p_begin_def client_send_def c_conn_send_def send_message_def send_encoded_def transmit_def
        client_is_connected_def client_env_of_def p2p_sample_def sample_client_def new_client_def sample_config_def s_defs)
qed

definition lan_descriptor :: "(string, pyval) dict option" where
  "lan_descriptor = plain_build ClientDescriptor_model (attempt_input sample_config ''b'' LanRoute 8 (''10.0.0.7'', 7))"

lemma lan_descriptor_built: "\<exists>desc. lan_descriptor = Some desc"
proof -
  have "lan_descriptor \<noteq> None" unfolding lan_descriptor_def sample_config_def by code_simp
  then show ?thesis by simp
qed

lemma lan_address: "split_address (PStr ''10.0.0.7:7'') = Some (''10.0.0.7'', 7)"
  by code_simp

lemma fresh_client_dials:
  "\<exists>s1 a1. connect_begin (client_env_of (peer_codec ok)) (Some True) ''v'' 0 (new_client 0 1 2 cf) = (s1, a1, Some True)"
proof -
  obtain frame e where "encode_auth_request (peer_codec ok) (new_encoder (cc_enable_compression cf)) ''ab''
      ([(''name'', PStr (cc_name cf)), (''version'', PStr (cc_version cf))]
        @ (case cc_username cf of None \<Rightarrow> [] | Some u \<Rightarrow> if u \<noteq> [] then [(''username'', PStr u)] else [])) 0 = (Inr frame, e)"
    by (cases "cc_enable_compression cf") (auto simp: peer_codec_def reply_codec_def encode_auth_request_def encode_simps
        compress_def to_bytes_be_def be_digits_numeral new_encoder_def Let_def split: prod.split)
  then show ?thesis
    by (simp add: connect_begin_def do_connect_start_def catch_with_def s_defs c_encoded_def c_rust_send_def
        client_env_of_def new_client_def auth_password_hash_def auth_client_info_def)
qed

text \<open>A scene in which nobody answers in the LAN, and the peer welcomes the call to its public address.\<close>

definition welcome_scene :: p2p_scene where
  "welcome_scene = refused_scene
     \<lparr>ps_attempt := (\<lambda>r. \<lparr>sc_before = [], sc_link = Some (r = WanRoute), sc_uid = ''v'', sc_now = 0,
        sc_events = [(LinkMessage [1], 1)]\<rparr>)\<rparr>"

lemma peer_welcome:
  "\<exists>d info. arrives (peer_codec True) [1] AUTH_SUCCESS (PDict d) \<and> dict_get_default d ''server_info'' (PDict []) = PDict info"
proof -
  have "MessageType_of (pkt_type (build_packet AUTH_SUCCESS [7] None 0 None None False 7)) = Some AUTH_SUCCESS"
    "pkt_flags (build_packet AUTH_SUCCESS [7] None 0 None None False 7) = 0"
    "\<not> pkt_is_mesh (build_packet AUTH_SUCCESS [7] None 0 None None False 7)"
    "pkt_payload (build_packet AUTH_SUCCESS [7] None 0 None None False 7) = [7]"
    by (simp_all add: build_packet_def MessageType_of_Some)
  then show ?thesis
    by (simp add: arrives_def peer_codec_def reply_codec_def decode_single_def find_packet_def decode_packet_def
        decompress_step_def decode_payload_def dm_message_type_def has_flag_def login_reply_def auth_response_def
        dict_get_default_def str_dict_def)
qed

lemma nobody_answers:
  "\<exists>s1 a1 r. connect_begin (client_env_of (peer_codec ok)) (Some False) ''v'' 0 (new_client 0 1 2 cf) = (s1, a1, r) \<and> r \<noteq> Some True"
  by (simp add: connect_begin_def do_connect_start_def catch_with_def s_defs client_env_of_def new_client_def)

lemma welcomed:
  assumes "connect_begin (client_env_of (peer_codec True)) (Some True) ''v'' 0 (new_client 0 1 2 cf) = (s1, a1, Some True)"
  shows "\<exists>s3 acts. direct_attempt (client_env_of (peer_codec True)) (ps_attempt welcome_scene WanRoute) (new_client 0 1 2 cf)
    = (s3, acts, Won)"
proof -
  let ?ev = "client_env_of (peer_codec True)"
  have s1: "cl_auth_future s1 = Some AuthPending" "\<exists>c. cl_connection s1 = Some c" "CCancel ConnectTask \<notin> set a1"
    using assms
    by (auto simp: connect_begin_def do_connect_start_def catch_with_def s_defs c_encoded_def c_rust_send_def
        split: option.splits prod.splits sum.splits bool.splits if_splits)
  then obtain c where c: "cl_connection s1 = Some c" by blast
  obtain d info where d: "arrives (peer_codec True) [1] AUTH_SUCCESS (PDict d)"
    "dict_get_default d ''server_info'' (PDict []) = PDict info" using peer_welcome by blast
  then have "arrives (ce_codec ?ev) [1] AUTH_SUCCESS (PDict d)" by (simp add: client_env_of_def)
  from auth_success_event [OF this d(2) s1(1) c, of 1] obtain s2 where s2: "client_events ?ev [(LinkMessage [1], 1)] s1 = (s2, [])"
    "cl_auth_future s2 = Some (AuthResult True)" "\<exists>c. cl_connection s2 = Some c" by auto
  then have "\<exists>s3. connect_end s2 = (s3, [CHooks ConnectHook], Some True)"
    by (auto simp: connect_end_def do_connect_finish_def catch_with_def s_defs)
  with assms s1(3) s2(1) show ?thesis by (auto simp: direct_attempt_def welcome_scene_def)
qed

lemma wan_descriptor_built:
  "\<exists>desc. plain_build ClientDescriptor_model (attempt_input sample_config ''b'' WanRoute 9 (''1.2.3.4'', 5)) = Some desc"
proof -
  have "plain_build ClientDescriptor_model (attempt_input sample_config ''b'' WanRoute 9 (''1.2.3.4'', 5)) \<noteq> None"
    unfolding sample_config_def by code_simp
  then show ?thesis by simp
qed

lemma wan_address: "split_address (PStr ''1.2.3.4:5'') = Some (''1.2.3.4'', 5)"
  by code_simp

section \<open>Properties\<close>

text \<open>
  C9. A peer is reached the way that answers first.  When the request cannot be sent, \<open>establish_p2p\<close>
  raises, and the future that it has made on a connected client stays behind.  Once it is sent, the
  future is gone however the call ends: with an exception when the broker's answer does not come or is
  a refusal, cancelled when the wait is; and when the target accepts, the attempts that were started -
  the LAN one only if there is a LAN address - decide in the order in which they complete: the first
  that does not fail gives its client, which is connected and authenticated (or ends the call as
  cancelled); only when all have failed the client is one whose messages go through a mesh tunnel that
  has been shaken hands on, and without one the call raises.
\<close>

theorem first_attempt_decides:
  assumes how: "how = (\<lambda>d rt. attempt_result build new ev (cl_config s) target ps d rt)"
  shows "case p2p_begin ev target req (ps_now ps) s of
      (s1, a1, None) \<Rightarrow> establish_p2p build new ev target req ps s = (s1, a1, Some P2PRaises)
        \<and> (client_is_connected s \<longrightarrow> map_of (cl_p2p_futures s1) req = Some Waiting)
    | (s1, a1, Some sent) \<Rightarrow> \<exists>s' acts out. establish_p2p build new ev target req ps s = (s', acts, Some out)
        \<and> map_of (cl_p2p_futures s') req = None
        \<and> (case ps_reply ps of
             ReplyTimeout \<Rightarrow> out = P2PRaises
           | ReplyCancelled \<Rightarrow> out = P2PCancelled
           | Replied d \<Rightarrow>
               if \<not> truthy (dict_get d ''accepted'') then out = P2PRaises
               else mset (race_order ps d) = mset (race_routes (dict_get d ''lan_addr''))
                 \<and> (case find (\<lambda>rt. snd (snd (how d rt)) \<noteq> Lost) (race_order ps d) of
                      Some rt \<Rightarrow>
                        if snd (snd (how d rt)) = Won
                        then out = DirectClient rt \<and> (\<exists>cli c. fst (how d rt) = Some cli \<and> cl_connection cli = Some c \<and> is_authenticated c)
                        else out = P2PCancelled
                    | None \<Rightarrow> out = P2PRaises \<or> (out = MeshClient \<and> (\<exists>c. map_of (cl_peer_clients s') target = Some (MeshPeer c)
                        \<and> mc_peer_id c = target \<and> ce_handshake_done ev (cl_tunnels s' ! mc_tunnel c)))))"
proof -
  obtain s1 a1 r where b: "p2p_begin ev target req (ps_now ps) s = (s1, a1, r)" by (cases "p2p_begin ev target req (ps_now ps) s")
  show ?thesis
  proof (cases r)
    case None
    with begin_fails [OF b[unfolded None]] b show ?thesis by simp
  next
    case (Some u)
    with b have sent: "p2p_begin ev target req (ps_now ps) s = (s1, a1, Some ())" by simp
    show ?thesis
    proof (cases "\<exists>d. ps_reply ps = Replied d \<and> truthy (dict_get d ''accepted'')")
      case False
      then obtain out where out: "ps_reply ps = ReplyTimeout \<and> out = P2PRaises \<or> ps_reply ps = ReplyCancelled \<and> out = P2PCancelled
          \<or> (\<exists>d. ps_reply ps = Replied d \<and> \<not> truthy (dict_get d ''accepted'') \<and> out = P2PRaises)"
        by (cases "ps_reply ps") auto
      from establish_ends [OF sent out, of build new] out sent show ?thesis by auto
    next
      case True
      then obtain d where d: "ps_reply ps = Replied d" "truthy (dict_get d ''accepted'')" by blast
      obtain s3 acts out where e: "establish_p2p build new ev target req ps s = (fst (p2p_end req s3), acts, Some out)"
        and o: "case find (\<lambda>rt. snd (snd (how d rt)) \<noteq> Lost) (race_order ps d) of
            Some rt \<Rightarrow> out = (if snd (snd (how d rt)) = Won then DirectClient rt else P2PCancelled)
          | None \<Rightarrow> out = P2PRaises \<or> (out = MeshClient \<and> (\<exists>c. map_of (cl_peer_clients s3) target = Some (MeshPeer c)
              \<and> mc_peer_id c = target \<and> tunnel_at target s3 = Some (mc_tunnel c)
              \<and> ce_handshake_done ev (cl_tunnels s3 ! mc_tunnel c)))"
        unfolding how by (rule establish_outcome [OF sent d])
      have won: "\<exists>cli c. fst (how d rt) = Some cli \<and> cl_connection cli = Some c \<and> is_authenticated c"
        if "snd (snd (how d rt)) = Won" for rt
        using attempt_won that unfolding how by (metis prod.collapse)
      have "fst (p2p_end req s3) = s3\<lparr>cl_p2p_futures := AList.delete req (cl_p2p_futures s3)\<rparr>"
        by (simp add: p2p_end_def s_put_def)
      with e o d sent won race_order_tasks [of ps d] show ?thesis
        by (auto simp: delete_conv' split: option.splits)
    qed
  qed
qed

theorem first_attempt_decides_witness:
  "\<exists>s' acts. establish_p2p plain_build (new_client 0 1 2) (client_env_of (peer_codec True)) ''b'' ''r'' welcome_scene p2p_sample
      = (s', acts, Some (DirectClient WanRoute)) \<and> map_of (cl_p2p_futures s') ''r'' = None"
proof -
  let ?how = "\<lambda>d rt. attempt_result plain_build (new_client 0 1 2) (client_env_of (peer_codec True))
    (cl_config p2p_sample) ''b'' welcome_scene d rt"
  obtain s1 a1 where sent: "p2p_begin (client_env_of (peer_codec True)) ''b'' ''r'' (ps_now welcome_scene) p2p_sample = (s1, a1, Some ())"
    using p2p_sample_asks [of True] by (auto simp: welcome_scene_def refused_scene_def)
  have d: "ps_reply welcome_scene = Replied p2p_answered" "truthy (dict_get p2p_answered ''accepted'')"
    "race_order welcome_scene p2p_answered = [LanRoute, WanRoute]"
    by (simp_all add: welcome_scene_def refused_scene_def p2p_answered_def dict_get_def race_order_def race_routes_def)
  have cf: "cl_config p2p_sample = sample_config" by (simp add: p2p_sample_def sample_client_def new_client_def)
  obtain lan where lan: "plain_build ClientDescriptor_model (attempt_input sample_config ''b'' LanRoute 8 (''10.0.0.7'', 7)) = Some lan"
    using lan_descriptor_built by (auto simp: lan_descriptor_def)
  obtain wan where wan: "plain_build ClientDescriptor_model (attempt_input sample_config ''b'' WanRoute 9 (''1.2.3.4'', 5)) = Some wan"
    using wan_descriptor_built by blast
  have "snd (snd (?how p2p_answered LanRoute)) = Lost"
    using nobody_answers [of True "config_of lan"]
    by (auto simp: attempt_result_def try_connect_def p2p_answered_def dict_get_def lan_address cf lan direct_attempt_def
        welcome_scene_def refused_scene_def split: if_splits)
  moreover have "snd (snd (?how p2p_answered WanRoute)) = Won"
  proof -
    obtain c1 b1 where "connect_begin (client_env_of (peer_codec True)) (Some True) ''v'' 0 (new_client 0 1 2 (config_of wan)) = (c1, b1, Some True)"
      using fresh_client_dials [of True "config_of wan"] by blast
    from welcomed [OF this] show ?thesis
      by (auto simp: attempt_result_def try_connect_def p2p_answered_def dict_get_def wan_address cf wan)
        (auto simp: welcome_scene_def refused_scene_def wan)
  qed
  ultimately have first: "find (\<lambda>rt. snd (snd (?how p2p_answered rt)) \<noteq> Lost) [LanRoute, WanRoute] = Some WanRoute"
    "snd (snd (?how p2p_answered WanRoute)) = Won" by simp_all
  from first_attempt_decides [OF refl, where ev = "client_env_of (peer_codec True)" and target = "''b''" and req = "''r''"
      and ps = welcome_scene and s = p2p_sample and build = plain_build and new = "new_client 0 1 2"]
  show ?thesis by (auto simp: sent d first simp del: One_nat_def find.simps)
qed

text \<open>
  C32. A peer that refuses ends the whole attempt: when the first attempt that does not fail quietly is
  one whose password the peer refuses, \<open>establish_p2p\<close> ends with a CancelledError - neither the other
  attempt, which may be about to succeed, nor the mesh is used - because the refused client has
  cancelled the task that was connecting it.
\<close>

theorem refusal_cancels_p2p:
  assumes sent: "p2p_begin ev target req (ps_now ps) s = (s1, a1, Some ())"
    and reply: "ps_reply ps = Replied d" "truthy (dict_get d ''accepted'')"
    and order: "race_order ps d = earlier @ rt # rest"
      "\<forall>r \<in> set earlier. snd (snd (attempt_result build new ev (cl_config s) target ps d r)) = Lost"
    and addr: "split_address (dict_get d (case rt of LanRoute \<Rightarrow> ''lan_addr'' | WanRoute \<Rightarrow> ''public_addr'')) = Some hp"
    and desc: "build ClientDescriptor_model (attempt_input (cl_config s) target rt
        (case rt of LanRoute \<Rightarrow> ps_lan_port ps | WanRoute \<Rightarrow> ps_port ps) hp) = Some desc"
    and dialled: "connect_begin ev (sc_link (ps_attempt ps rt)) (sc_uid (ps_attempt ps rt)) (sc_now (ps_attempt ps rt))
        (new (config_of desc)) = (c1, b1, Some True)"
    and refused: "sc_events (ps_attempt ps rt) = [(LinkMessage frame, t)]"
      "decode_single (ce_codec ev) frame = Inr m" "dm_message_type m = AUTH_FAILURE" "\<not> dm_is_mesh m"
  shows "\<exists>s' acts. establish_p2p build new ev target req ps s = (s', acts, Some P2PCancelled)"
proof -
  have this_one: "snd (snd (attempt_result build new ev (cl_config s) target ps d rt)) = SelfCancelled"
    using addr desc dialled refused by (rule refused_attempt)
  have "find (\<lambda>r. snd (snd (attempt_result build new ev (cl_config s) target ps d r)) \<noteq> Lost) earlier = None"
    using order(2) by (auto simp: find_None_iff)
  then have "find (\<lambda>r. snd (snd (attempt_result build new ev (cl_config s) target ps d r)) \<noteq> Lost)
      (race_order ps d) = Some rt"
    using this_one by (simp add: order(1) find_append)
  then have some: "(case find (\<lambda>r. snd (snd (attempt_result build new ev (cl_config s) target ps d r)) \<noteq> Lost)
      (race_order ps d) of None \<Rightarrow> x | Some r \<Rightarrow> f r) = f rt" for x and f :: "direct_route \<Rightarrow> bool" by simp
  show ?thesis
    by (rule establish_outcome [OF sent reply, of build new]) (simp add: some this_one)
qed

theorem refusal_cancels_p2p_witness:
  "\<exists>s' acts. establish_p2p plain_build (new_client 0 1 2) (client_env_of (peer_codec False)) ''b'' ''r'' refused_scene p2p_sample
     = (s', acts, Some P2PCancelled)"
proof -
  obtain s1 a1 where sent: "p2p_begin (client_env_of (peer_codec False)) ''b'' ''r'' (ps_now refused_scene) p2p_sample = (s1, a1, Some ())"
    using p2p_sample_asks [of False] by (auto simp: refused_scene_def)
  have reply: "ps_reply refused_scene = Replied p2p_answered" "truthy (dict_get p2p_answered ''accepted'')"
    by (simp_all add: refused_scene_def p2p_answered_def dict_get_def)
  obtain desc where desc: "plain_build ClientDescriptor_model (attempt_input (cl_config p2p_sample) ''b'' LanRoute
      (case LanRoute of LanRoute \<Rightarrow> ps_lan_port refused_scene | WanRoute \<Rightarrow> ps_port refused_scene) (''10.0.0.7'', 7)) = Some desc"
    using lan_descriptor_built
    by (auto simp: lan_descriptor_def p2p_sample_def sample_client_def new_client_def refused_scene_def)
  have addr: "split_address (dict_get p2p_answered (case LanRoute of LanRoute \<Rightarrow> ''lan_addr'' | WanRoute \<Rightarrow> ''public_addr''))
      = Some (''10.0.0.7'', 7)"
    using lan_address by (simp add: p2p_answered_def dict_get_def)
  obtain c1 b1 where c: "connect_begin (client_env_of (peer_codec False)) (sc_link (ps_attempt refused_scene LanRoute))
      (sc_uid (ps_attempt refused_scene LanRoute)) (sc_now (ps_attempt refused_scene LanRoute)) (new_client 0 1 2 (config_of desc))
      = (c1, b1, Some True)"
    using fresh_client_dials [of False "config_of desc"] by (fastforce simp: refused_scene_def)
  obtain m where m: "decode_single (ce_codec (client_env_of (peer_codec False))) [1] = Inr m" "dm_message_type m = AUTH_FAILURE" "\<not> dm_is_mesh m"
    using peer_refusal by (auto simp: client_env_of_def)
  have order: "race_order refused_scene p2p_answered = [] @ LanRoute # [WanRoute]"
    and ev: "sc_events (ps_attempt refused_scene LanRoute) = [(LinkMessage [1], 1)]"
    by (simp_all add: refused_scene_def race_order_def race_routes_def p2p_answered_def dict_get_def)
  show ?thesis
    by (rule refusal_cancels_p2p [where new = "new_client 0 1 2" and build = plain_build and rt = LanRoute,
          OF sent reply order _ addr desc c ev m]) simp
qed

end
