(* ===== verification/Errors.thy ===== *)
theory Errors
  imports Rpc
begin

text \<open>
  \<open>src/conduit/exceptions.py\<close> and the exceptions of \<open>rpc/rpc_class.py\<close> and \<open>protocol/decoder.py\<close>:
  the classes as a datatype, their bases, the chain of bases by which Python matches an except
  clause, and the objects that carry more than a text.  The classes of Python that the library
  raises or catches stand beside them with the prefix \<open>Py\<close>; \<open>asyncio.TimeoutError\<close> is
  \<open>PyTimeoutError\<close>, as it is since Python 3.11.  A class is ordered below its bases.
\<close>

section \<open>The hierarchy\<close>

datatype exc_class =
    PyBaseException | PyException | PyCancelledError
  | PyOSError | PyConnectionError | PyConnectionResetError | PyTimeoutError | PyFileNotFoundError
  | PyValueError | PyTypeError | PyRuntimeError
  | ConduitError | ConnectionError | AuthenticationError | ProtocolError | TimeoutError
  | RPCError | RPCTimeout | ValidationError | BackpressureError | QueueFullError
  | NotConnectedError | AlreadyConnectedError | ServerError | ClientError
  | DecodeErrorClass | IncompleteMessageErrorClass

text \<open>The bases of Python's own classes, from the documentation of its exceptions.\<close>

fun python_base :: "exc_class \<Rightarrow> exc_class option" where
  "python_base PyBaseException = None"
| "python_base PyException = Some PyBaseException"
| "python_base PyCancelledError = Some PyBaseException"
| "python_base PyConnectionError = Some PyOSError"
| "python_base PyConnectionResetError = Some PyConnectionError"
| "python_base PyTimeoutError = Some PyOSError"
| "python_base PyFileNotFoundError = Some PyOSError"
| "python_base c = Some PyException"

fun library_base :: "exc_class \<Rightarrow> exc_class option" where
  "library_base ConduitError = Some PyException"
| "library_base ConnectionError = Some ConduitError"
| "library_base AuthenticationError = Some ConduitError"
| "library_base ProtocolError = Some ConduitError"
| "library_base TimeoutError = Some ConduitError"
| "library_base RPCError = Some ConduitError"
| "library_base ValidationError = Some ConduitError"
| "library_base BackpressureError = Some ConduitError"
| "library_base QueueFullError = Some BackpressureError"
| "library_base NotConnectedError = Some ConnectionError"
| "library_base AlreadyConnectedError = Some ConnectionError"
| "library_base ServerError = Some ConduitError"
| "library_base ClientError = Some ConduitError"
| "library_base c = None"

fun module_base :: "exc_class \<Rightarrow> exc_class option" where
  "module_base RPCTimeout = Some RPCError"
| "module_base DecodeErrorClass = Some PyException"
| "module_base IncompleteMessageErrorClass = Some PyException"
| "module_base c = None"

definition base :: "exc_class \<Rightarrow> exc_class option" where
  "base c = (case library_base c of
     Some d \<Rightarrow> Some d
   | None \<Rightarrow> (case module_base c of Some d \<Rightarrow> Some d | None \<Rightarrow> python_base c))"

fun depth :: "exc_class \<Rightarrow> nat" where
  "depth PyBaseException = 0"
| "depth PyException = 1"
| "depth PyCancelledError = 1"
| "depth PyConnectionError = 3"
| "depth PyConnectionResetError = 4"
| "depth PyTimeoutError = 3"
| "depth PyFileNotFoundError = 3"
| "depth PyOSError = 2"
| "depth PyValueError = 2"
| "depth PyTypeError = 2"
| "depth PyRuntimeError = 2"
| "depth ConduitError = 2"
| "depth DecodeErrorClass = 2"
| "depth IncompleteMessageErrorClass = 2"
| "depth RPCTimeout = 4"
| "depth QueueFullError = 4"
| "depth NotConnectedError = 4"
| "depth AlreadyConnectedError = 4"
| "depth c = 3"

lemma base_depth: "base c = Some d \<Longrightarrow> depth d < depth c"
  by (cases c) (auto simp: base_def)

text \<open>The class and all its bases, nearest first: \<open>__mro__\<close> without \<open>object\<close>.\<close>

function mro :: "exc_class \<Rightarrow> exc_class list" where
  "mro c = c # (case base c of None \<Rightarrow> [] | Some d \<Rightarrow> mro d)"
  by auto
termination by (relation "measure depth") (auto simp: base_depth)

declare mro.simps [simp del]

definition issubclass :: "exc_class \<Rightarrow> exc_class \<Rightarrow> bool" where
  "issubclass c d = (d \<in> set (mro c))"

text \<open>The chain of bases is the reflexive, transitive closure of the class statements.\<close>

lemma issubclass_step: "issubclass c e \<longleftrightarrow> e = c \<or> (\<exists>d. base c = Some d \<and> issubclass d e)"
  unfolding issubclass_def by (subst mro.simps) (auto split: option.splits)

lemma issubclass_closure: "issubclass c e \<longleftrightarrow> (\<lambda>a b. base a = Some b)\<^sup>*\<^sup>* c e"
proof
  show "issubclass c e \<Longrightarrow> (\<lambda>a b. base a = Some b)\<^sup>*\<^sup>* c e"
  proof (induction c rule: mro.induct)
    case (1 c)
    then show ?case
      by (subst (asm) (2) issubclass_step) (auto intro: converse_rtranclp_into_rtranclp)
  qed
  show "(\<lambda>a b. base a = Some b)\<^sup>*\<^sup>* c e \<Longrightarrow> issubclass c e"
    by (induction rule: converse_rtranclp_induct) (subst issubclass_step, auto)+
qed

lemma issubclass_depth: "issubclass c e \<Longrightarrow> c = e \<or> depth e < depth c"
proof (induction c rule: mro.induct)
  case (1 c)
  then show ?case by (subst (asm) (2) issubclass_step) (use base_depth in force)
qed

instantiation exc_class :: order
begin

definition less_eq_exc_class :: "exc_class \<Rightarrow> exc_class \<Rightarrow> bool" where
  "less_eq_exc_class c d = issubclass c d"

definition less_exc_class :: "exc_class \<Rightarrow> exc_class \<Rightarrow> bool" where
  "less_exc_class c d = (issubclass c d \<and> \<not> issubclass d c)"

instance
proof
  fix c d e :: exc_class
  show "c < d \<longleftrightarrow> c \<le> d \<and> \<not> d \<le> c" by (simp add: less_exc_class_def less_eq_exc_class_def)
  show "c \<le> c" by (simp add: less_eq_exc_class_def issubclass_closure)
  show "c \<le> d \<Longrightarrow> d \<le> e \<Longrightarrow> c \<le> e" by (simp add: less_eq_exc_class_def issubclass_closure)
  show "c \<le> d \<Longrightarrow> d \<le> c \<Longrightarrow> c = d"
    using issubclass_depth [of c d] issubclass_depth [of d c] by (auto simp: less_eq_exc_class_def)
qed

end

lemma exc_le_code [code]: "(c \<le> d) = (d \<in> set (mro c))"
  by (simp add: less_eq_exc_class_def issubclass_def)

text \<open>A class statement puts a class below its base; every class is an exception of Python.\<close>

lemma base_le: "base c = Some d \<Longrightarrow> c \<le> d"
  by (auto simp: less_eq_exc_class_def issubclass_closure)

lemma every_exception: "c \<le> PyBaseException"
  by (cases c) (simp_all add: exc_le_code mro.simps base_def)

lemma library_errors_below: "library_base c \<noteq> None \<Longrightarrow> c \<le> ConduitError"
  by (cases c) (simp_all add: exc_le_code mro.simps base_def)

section \<open>Except clauses\<close>

text \<open>The clauses of a try statement are tried in order; None: the exception leaves it.\<close>

fun handled :: "(exc_class \<times> 'r) list \<Rightarrow> exc_class \<Rightarrow> 'r option" where
  "handled [] c = None"
| "handled ((d, r) # clauses) c = (if c \<le> d then Some r else handled clauses c)"

lemma handled_None: "handled clauses c = None \<longleftrightarrow> (\<forall>(d, r) \<in> set clauses. \<not> c \<le> d)"
proof (induction clauses)
  case (Cons clause clauses)
  then show ?case by (cases clause) simp
qed simp

section \<open>Objects\<close>

record rpc_error =
  re_message :: pyval
  re_code :: pyval
  re_details :: pyval

definition new_rpc_error :: "pyval \<Rightarrow> pyval \<Rightarrow> pyval \<Rightarrow> rpc_error" where
  "new_rpc_error message code details =
     \<lparr>re_message = message, re_code = code,
      re_details = (if truthy details then details else PDict [])\<rparr>"

text \<open>
  \<open>__str__\<close>; \<open>format\<close> is Python's formatting of a value in an f-string.  None: \<open>str\<close> raises
  TypeError, because what \<open>__str__\<close> returned is no string.
\<close>

definition rpc_error_str :: "(pyval \<Rightarrow> string) \<Rightarrow> rpc_error \<Rightarrow> string option" where
  "rpc_error_str format e =
     (if truthy (re_code e) then Some (''['' @ format (re_code e) @ ''] '' @ format (re_message e))
      else case re_message e of PStr s \<Rightarrow> Some s | _ \<Rightarrow> None)"

record validation_error =
  ve_message :: string
  ve_field :: "string option"
  ve_errors :: "pyval list"

definition new_validation_error :: "string \<Rightarrow> string option \<Rightarrow> pyval list option \<Rightarrow> validation_error" where
  "new_validation_error message fld errors =
     \<lparr>ve_message = message, ve_field = fld,
      ve_errors = (case errors of None \<Rightarrow> [] | Some es \<Rightarrow> es)\<rparr>"

definition new_rpc_timeout :: "(pyval \<Rightarrow> string) \<Rightarrow> string \<Rightarrow> time \<Rightarrow> rpc_error" where
  "new_rpc_timeout format meth timeout =
     new_rpc_error
       (PStr (''RPC call to '' @ [CHR 39] @ meth @ [CHR 39] @ '' timed out after ''
              @ format (PFloat timeout) @ ''s''))
       PNone PNone"

text \<open>What leaves \<open>RPC.call\<close>: the class and the object.\<close>

definition call_exception :: "(pyval \<Rightarrow> string) \<Rightarrow> call_result \<Rightarrow> (exc_class \<times> rpc_error) option" where
  "call_exception format r =
     (case r of
        CallReturns v \<Rightarrow> None
      | RPCErrorRaised message code details \<Rightarrow> Some (RPCError, new_rpc_error message code details)
      | RPCTimeoutRaised meth timeout \<Rightarrow> Some (RPCTimeout, new_rpc_timeout format meth timeout))"

text \<open>The except clauses of \<open>RPC.call\<close>, around an exception with its text.\<close>

definition call_clauses :: "string \<Rightarrow> time \<Rightarrow> string \<Rightarrow> call_result \<Rightarrow> (exc_class \<times> call_result) list" where
  "call_clauses meth timeout txt itself =
     [(PyTimeoutError, RPCTimeoutRaised meth timeout),
      (RPCError, itself),
      (PyException, RPCErrorRaised (PStr (''RPC call failed: '' @ txt)) PNone PNone)]"

section \<open>What a caller can catch\<close>

text \<open>
  The reading of a reply and the clauses agree with \<open>rpc_call\<close>: a timeout is the first clause, an
  error of the reply passes through the second, everything else but a cancellation is the third.
\<close>

lemma call_clauses_timeout:
  "handled (call_clauses meth t txt itself) PyTimeoutError = Some (rpc_call meth (Some t) d ReplyTimeout)"
  by (simp add: call_clauses_def rpc_call_def)

lemma call_clauses_own:
  "c \<le> RPCError \<Longrightarrow> handled (call_clauses meth t txt itself) c = Some itself"
  by (cases c) (simp_all add: call_clauses_def exc_le_code mro.simps base_def)

lemma call_clauses_other:
  "c \<le> PyException \<Longrightarrow> \<not> c \<le> RPCError \<Longrightarrow> \<not> c \<le> PyTimeoutError \<Longrightarrow>
     handled (call_clauses meth t txt itself) c = Some (rpc_call meth (Some t) d (ReplyError txt))"
  by (simp add: call_clauses_def rpc_call_def)

lemma call_clauses_cancelled: "handled (call_clauses meth t txt itself) PyCancelledError = None"
  by (simp add: handled_None call_clauses_def exc_le_code mro.simps base_def)

text \<open>
  Every failure of a call is an RPCError, so one clause catches them all; a timeout of a call is
  neither the library's TimeoutError nor Python's.
\<close>

lemma rpc_classes:
  "c \<in> {RPCError, RPCTimeout} \<Longrightarrow> c \<le> RPCError \<and> c \<le> ConduitError \<and> \<not> c \<le> TimeoutError \<and> \<not> c \<le> PyTimeoutError"
  by (cases c) (simp_all add: exc_le_code mro.simps base_def)

lemma call_failure_class:
  assumes "call_exception format (rpc_call meth timeout dflt r) = Some (c, e)"
  shows "c \<le> RPCError \<and> c \<le> ConduitError \<and> \<not> c \<le> TimeoutError \<and> \<not> c \<le> PyTimeoutError
    \<and> re_details e \<noteq> PNone"
proof -
  have "c \<in> {RPCError, RPCTimeout}"
    using assms by (auto simp: call_exception_def split: call_result.splits)
  moreover have "re_details (new_rpc_error m code ds) \<noteq> PNone" for m code ds
    by (auto simp: new_rpc_error_def)
  then have "re_details e \<noteq> PNone"
    using assms by (auto simp: call_exception_def new_rpc_timeout_def split: call_result.splits)
  ultimately show ?thesis using rpc_classes by simp
qed

lemma timeout_text:
  assumes "call_exception format (rpc_call meth (Some t) dflt ReplyTimeout) = Some (c, e)"
  shows "rpc_error_str format e = Some (''RPC call to '' @ [CHR 39] @ meth @ [CHR 39]
           @ '' timed out after '' @ format (PFloat t) @ ''s'')"
  using assms
  by (auto simp: call_exception_def rpc_call_def new_rpc_timeout_def new_rpc_error_def rpc_error_str_def)

text \<open>A method that answers with an error that is no text makes an exception that cannot be printed.\<close>

lemma unprintable_error:
  "call_exception format (rpc_call meth timeout dflt
      (Reply (PDict [(''success'', PBool False), (''error'', PDict d)]))) = Some (RPCError, e)
   \<Longrightarrow> rpc_error_str format e = None"
  by (auto simp: call_exception_def rpc_call_def read_reply_def dict_has_def dict_get_def
      new_rpc_error_def rpc_error_str_def)

text \<open>
  The library raises Python's classes where its own carry the name: client and pool raise the
  ConnectionError and TimeoutError of Python, and the decoder's errors stand beside the hierarchy.
  None of them is caught by the library's classes.
\<close>

lemma conduit_clauses:
  "c \<in> {ConnectionError, TimeoutError, ConduitError} \<Longrightarrow> c \<le> ConduitError"
  by (cases c) (simp_all add: exc_le_code mro.simps base_def)

lemma raised_outside_hierarchy:
  assumes "c \<in> {PyConnectionError, PyConnectionResetError, PyTimeoutError, PyRuntimeError, PyValueError,
                 PyFileNotFoundError, DecodeErrorClass, IncompleteMessageErrorClass}"
  shows "handled [(ConnectionError, a), (TimeoutError, b), (ConduitError, d)] c = None"
proof -
  have "\<not> c \<le> ConduitError"
    using assms by (cases c) (simp_all add: exc_le_code mro.simps base_def)
  then show ?thesis using conduit_clauses by (auto simp: handled_None dest: order_trans)
qed

end
