(* ===== verification/Spec2Isabelle.thy ===== *)
theory Spec2Isabelle
  imports ConnState Protocol Flow Rate Queue Router Metrics Heartbeat Response Rpc Auth Connections
    Steps Server ServerProofs Calls Streaming FileTransfer FileTransferProofs ClientPool Descriptors
    Client ClientProofs ClientInv Login MeshRelay
    Tcp TcpServer Tunnel MeshTls Discovery Broker Lifecycle Peer Errors
begin

text \<open>
  NetConduit (the Python package under \<open>src/conduit\<close>): a client and server framework for messages
  and remote calls over a QUIC transport written in Rust.

  \<^bold>\<open>Parts and how they interact.\<close>  A sender asks a \<open>Connection\<close> to send a message, a request or a
  reply.  The connection asks its \<open>ProtocolEncoder\<close> for a frame - a protobuf packet with a typed
  payload, possibly compressed, behind a 4-byte big-endian length - counts it and hands it to the
  transport.  The transport of the peer reports events; \<open>ProtocolDecoder.decode_single\<close> turns the
  bytes of a message event into a \<open>DecodedMessage\<close>.  The \<open>Server\<close> looks up the connection in its
  \<open>ConnectionPool\<close> and decides: authenticate it (\<open>AuthHandler\<close>, \<open>CredentialsManager\<close>), handle a
  mesh packet, drop it if it is not authenticated, take a token from its \<open>RateLimiter\<close>, resolve a
  pending future of the connection, dispatch a request (\<open>RPCRegistry\<close>, \<open>RPCDispatcher\<close>), record a
  heartbeat, or route a message to its handlers (\<open>MessageRouter\<close>).  Queues, flow control, metrics
  and the connection state machine are used beside it.  The \<open>Client\<close> connects, sends its password's
  hash or its session token, waits for the answer, reconnects with growing waits when the link is
  lost, serves requests of its own, and keeps mesh tunnels and P2P connections to other clients.  The
  server brokers such a connection: it forwards a request to its target and hands the target's answer
  back; the client then races a connection in the LAN with one over the public address and falls back
  to a TLS tunnel inside mesh messages.  Servers are found by datagrams; an older TCP transport with
  its own server is kept beside QUIC.
  Streams and file transfers are built on messages and remote calls; a client pool spreads calls over
  several clients; descriptors are the configuration of both sides.

  \<^bold>\<open>Theories and sources.\<close>
    \<^item> \<open>Prelude\<close>: bytes, big-endian digits, UTF-8, Python values (\<open>pyval\<close>), dicts as association lists
      in insertion order (\<open>('k, 'v) dict\<close>), the locale \<open>op_machine\<close> (an invariant that every operation
      keeps holds after every run) that each component interprets on its own operations.
    \<^item> \<open>ConnState\<close>: \<open>transport/connection_state.py\<close>, the transition table and the machine object.
    \<^item> \<open>Format\<close>: \<open>protocol/format.py\<close>, the 32-byte header, message types, flags, byte orders.
    \<^item> \<open>Codec\<close>: the outside code of the protocol as the record \<open>codec\<close> (protobuf, json, the compiled
      compression) with the messages of \<open>protocol/protocol_pb2.py\<close> and the laws that the round trips
      assume of it.
    \<^item> \<open>Encoder\<close>, \<open>Decoder\<close>: \<open>protocol/encoder.py\<close> and \<open>protocol/decoder.py\<close>.
    \<^item> \<open>Framing\<close>: the contract of a receive buffer as a locale (a parser of one frame gives reassembly
      of a stream cut anywhere); \<open>Protocol\<close> interprets it on \<open>decode_one\<close> and proves the round trips.
    \<^item> \<open>Flow\<close>: \<open>backpressure/flow_control.py\<close>.  \<open>Rate\<close>: \<open>ratelimit/limiter.py\<close>.
    \<^item> \<open>Queue\<close>: \<open>messages/queue.py\<close>.  \<open>Router\<close>: \<open>messages/message.py\<close>, \<open>messages/router.py\<close>.
    \<^item> \<open>Metrics\<close>: \<open>metrics/metrics.py\<close>.  \<open>Heartbeat\<close>: \<open>heartbeat/manager.py\<close>, \<open>heartbeat/monitor.py\<close>.
    \<^item> \<open>Response\<close>: \<open>response/response.py\<close>, \<open>response/error.py\<close>.
    \<^item> \<open>Rpc\<close>: \<open>rpc/registry.py\<close>, \<open>rpc/dispatcher.py\<close>, \<open>rpc/helpers.py\<close>, \<open>rpc/rpc_class.py\<close>; \<open>Calls\<close>: the
      remote call seen by the code that makes it (value, error, timeout), shared by \<open>Streaming\<close>,
      \<open>FileTransfer\<close> and \<open>ClientPool\<close>.
    \<^item> \<open>Auth\<close>: \<open>transport/auth.py\<close>, \<open>auth/credentials.py\<close>.
    \<^item> \<open>Connections\<close>: \<open>connection/connection.py\<close>, \<open>connection/pool.py\<close>.  The calls that a connect callback
      makes into the pool, under whose lock it runs, are part of the addition; a call that waits for that
      lock never returns (None).
    \<^item> \<open>Steps\<close>: handlers as state transformers with a list of actions and early ends, and the frame
      rules (\<open>frame_on\<close>, \<open>keeps\<close>, \<open>does_only\<close>) that \<open>ServerProofs\<close> and \<open>ClientInv\<close> use.
    \<^item> \<open>Server\<close>: \<open>server.py\<close>, from the transport's event to what is sent and run; \<open>ServerProofs\<close> holds
      its invariant, the interpretation of \<open>op_machine\<close> on its events and its properties.
    \<^item> \<open>Streaming\<close>: \<open>streaming/stream.py\<close>.  \<open>FileTransfer\<close>, \<open>FileTransferProofs\<close>:
      \<open>transfer/file_transfer.py\<close>.  \<open>ClientPool\<close>: \<open>pool/client_pool.py\<close>.
    \<^item> \<open>Descriptors\<close>: \<open>data/descriptors.py\<close>, \<open>data/messages.py\<close>, \<open>data/rpc.py\<close> and, of
      \<open>data/connection.py\<close>, the health check and the info messages, as tables of fields with types, defaults and bounds.
    \<^item> \<open>Client\<close>: \<open>client.py\<close>: connecting, authentication, reconnection, message processing, mesh
      tunnels, P2P connections, sending; \<open>ClientProofs\<close> has its loops, \<open>ClientInv\<close> the interpretation of
      \<open>op_machine\<close> on its calls and events and what a call leaves alone: a tunnel belongs to one node.
    \<^item> \<open>Broker\<close>: the three P2P handlers of \<open>server.py\<close>; the futures that requests wait for are a store and
      the table holds addresses, so that two requests with one id can be told apart.
    \<^item> \<open>Lifecycle\<close>: \<open>start\<close> and \<open>stop\<close> of \<open>server.py\<close> step by step, with hooks that may raise, tracked tasks,
      brokered requests and the advertisement; \<open>op_machine\<close> is interpreted on its events.
    \<^item> \<open>Peer\<close>: \<open>establish_p2p\<close> of \<open>client.py\<close>: every attempt is a run of \<open>Client\<close>; which of the started
      attempts completes first, and whether both complete together, is an argument; and the adoption of the connection that arrives at the target.
    \<^item> \<open>Tcp\<close>, \<open>TcpServer\<close>: \<open>transport/tcp_socket.py\<close>: the socket over asyncio's reader and writer, and the
      server as a step relation \<open>tcp_step\<close> on connections that wait for the semaphore, run or close.
    \<^item> \<open>Tunnel\<close>: \<open>transport/tls.py\<close> and \<open>mesh/tunnel.py\<close>; the ssl library is the record \<open>ssl_lib\<close>, the channel
      between two ends the locale \<open>secure_channel\<close>, interpreted on the tunnel.  \<open>MeshTls\<close> puts the tunnel
      into the environments of server and client.
    \<^item> \<open>Discovery\<close>: \<open>discovery/mdns.py\<close>: advertiser and discovery as runs over what their receives give.
    \<^item> \<open>Errors\<close>: \<open>exceptions.py\<close> and the exceptions of a remote call: the classes ordered by their bases, the
      matching of except clauses, the texts.
    \<^item> \<open>Login\<close>: client and server together, from \<open>connect\<close> to the session.  \<open>MeshRelay\<close>: a mesh packet
      between two clients through the server.
    \<^item> This theory: the path of a remote call through both sides.

  \<^bold>\<open>State and effects.\<close>  An object is a record whose fields are the attributes of its class; a method
  is a function from the record to the record and its result.  Exceptions are values: \<open>Inl\<close> of a sum,
  or None where only their occurrence matters.  A call that never returns is None too, where the
  text of the definition says so (the pool's lock, the metrics lock, a receive without a timeout).  In
  \<open>Server\<close> and \<open>Client\<close> a handler is a state transformer that also lists its actions (frames handed to
  the transport, user code run, sleeps) and may end early.  The encoder is shared by all connections
  of a server, so it is a state of its own.  Queues of subscribers, tunnels and open files are shared
  by reference: they live in a store and are named by their index.  What the other side does while a
  client waits (\<open>script\<close>) and what a remote call gives back are arguments.
  Python ints are int, bytes are 8-bit words, floats and times are exact rationals or reals (in
  seconds): rounding of floats is not modelled.  A clock reading is an argument.

  \<^bold>\<open>What the lemmas show.\<close>  Invariants of every operation (connection machine, queues, flow
  controller, pool, server, streams, client), refinement of an abstract account (sessions,
  reassembly), round trips of the codec and of an upload, equivalence with a reference (a
  download with the file in chunks, the waits of reconnection with a geometric sequence), bounds (rate
  limits, pool size), the answers of dispatch and routing on every branch, what authenticates and
  what does not, termination of reconnection, a stop that leaves nothing behind, and paths through
  several parts: a login, a remote call, a brokered P2P request, a sealed mesh message, an
  advertisement that is found.  Properties of kind error state behaviour that the code has and a caller,
  or a reader of its documentation, would not expect: among them how much later than documented a
  silent peer is given up, and that the checks between two fields of a configuration do not run when
  one of them is left out.

  \<^bold>\<open>Termination and fuel.\<close>  No definition uses fuel.  Loops recurse on lists; the drain loop of the
  receive buffer recurses on the length of the buffer, which every frame shortens by at least its
  prefix; the chunk loops of a transfer recurse on the chunks that are left.  The reconnection loop
  may run for ever: it is a \<open>partial_function (option)\<close> whose value None means that it does not
  return, and \<open>reconnect_terminates\<close> says when it does.  So is \<open>read_plain\<close>, the loop that empties a TLS
  object; the law of the channel says when it returns.  The advertiser's loop recurses on the receives
  that are left; the polls for a tunnel on the list of the fifty of the code.

  \<^bold>\<open>Not modelled.\<close>  Sockets, the ssl library, the QUIC transport and the STUN call: what they return are
  arguments or parameters.  The bodies of generated protobuf classes (the record \<open>codec\<close>).  Of
  \<open>client.py\<close>: how a free port and the local address are found, and the registration of hooks.  Of
  \<open>data/connection.py\<close>: the field lists with dates, which no code reads.  Logging, printing and re-exports;
  outside \<open>Errors\<close> an exception is a value of the component's own error type; the examples are no part of the package.  Tasks run
  to their end or to the wait that the text of a definition names; user code does not call back into the
  object that calls it, except where the model says so (the connect callback of the pool, a handler
  that stops its server).  The disconnect callbacks of the pool are events.  \<open>lifecycle_stop\<close> is one
  step: transport events that arrive while it awaits are not interleaved with it.
\<close>

section \<open>The path of a remote call\<close>

lemma request_kept [simp]:
  "cn_client_id (fst (handle_decoded_message m c)) = cn_client_id c"
  "is_authenticated (fst (handle_decoded_message m c)) = is_authenticated c"
  "cn_session (fst (handle_decoded_message m c)) = cn_session c"
  by (simp_all add: handle_decoded_message_def is_authenticated_def Let_def)

lemma send_rpc_request_ok:
  assumes "send_rpc_request cd d meth ps now e c = (e1, c1, Inr corr, [(k0, frame)])"
  shows "encode_rpc_request cd e meth ps None now = (Inr (frame, corr), e1)
    \<and> map_of (cn_pending_rpcs c1) corr = Some Waiting"
  using assms by (auto simp: send_rpc_request_def Let_def update_conv' split: prod.splits sum.splits if_splits)

section \<open>An outside world in which one call can be made\<close>

text \<open>Two packets, one value each way: an outside world in which one call can be made.\<close>

definition call_params :: "(string, pyval) dict" where
  "call_params = [(''x'', PInt 1)]"

definition request_packet :: Packet where
  "request_packet = build_packet RPC_REQUEST [3] (Some 1) 0 None None False 0"

definition reply_packet :: Packet where
  "reply_packet = build_packet RPC_RESPONSE [4] (Some 1) 0 None None False 7"

definition call_codec :: codec where
  "call_codec = reply_codec
     \<lparr>ser_Packet := \<lambda>p. if p = request_packet then Some [9] else if p = reply_packet then Some [8] else None,
      parse_Packet := \<lambda>b. if b = [9] then Some request_packet else if b = [8] then Some reply_packet else None,
      ser_MessagePayload := \<lambda>_. None,
      ser_RPCRequest := knows (\<lparr>rq_method = ''echo'', rq_params = utf8_encode ''d''\<rparr>, [3]),
      parse_RPCRequest := knows_back (\<lparr>rq_method = ''echo'', rq_params = utf8_encode ''d''\<rparr>, [3]),
      ser_RPCResponse := knows (response_ok (utf8_encode ''1''), [4]),
      parse_RPCResponse := knows_back (response_ok (utf8_encode ''1''), [4]),
      json_dumps := \<lambda>v. if v = PDict call_params then Some ''d'' else if v = PInt 1 then Some ''1'' else None,
      json_loads := \<lambda>t. if t = ''d'' then Some (PDict call_params) else if t = ''1'' then Some (PInt 1) else None\<rparr>"

lemma call_codec_laws:
  "wire_laws call_codec" "framed_law call_codec"
  "json_law call_codec (PDict call_params)" "json_law call_codec (PInt 1)"
proof -
  have "request_packet \<noteq> reply_packet"
    by (simp add: request_packet_def reply_packet_def build_packet_def)
  then show "wire_laws call_codec"
    by (simp add: wire_laws_def packet_law_def message_law_def rpc_request_law_def rpc_response_law_def
        compression_law_def call_codec_def reply_codec_def knows_def knows_back_def)
  have "frame_of b \<noteq> [x]" for b and x :: byte
    using length_frame_of [of b] by (metis One_nat_def length_Cons list.size(3) not_add_less1 one_less_numeral_iff semiring_norm(76))
  then show "framed_law call_codec" by (simp add: framed_law_def call_codec_def)
  show "json_law call_codec (PDict call_params)" "json_law call_codec (PInt 1)"
    by (simp_all add: json_law_def call_codec_def reply_codec_def str_ok_def of_char_def)
qed

definition call_server :: "(nat, nat, unit) Server" where
  "call_server = sample_server\<lparr>sv_rate_config := default_RateLimitConfig\<lparr>rlc_enabled := False\<rparr>,
     sv_pool := (new_pool 4)\<lparr>pl_connections := [(''a'', mark_authenticated (new_connection ''a'' [] 0))]\<rparr>\<rparr>"

section \<open>Properties\<close>

text \<open>
  C1. A remote call returns what its handler returned: the frame that \<open>send_rpc_request\<close> hands to
  the transport, arriving at a server where the caller's connection is authenticated and the method
  registered, runs the method once, and the reply the server sends resolves the caller's future, so
  that \<open>RPC.call\<close> returns the handler's value.
\<close>

theorem rpc_end_to_end:
  assumes sent: "send_rpc_request cd d meth (PDict ps) now e c = (e1, c1, Inr corr, [(k0, frame)])"
    and laws: "wire_laws cd" "framed_law cd" "json_law cd (PDict ps)" "json_law cd v"
    and v: "structured v" "\<forall>d. v = PDict d \<longrightarrow> \<not> dict_has d ''success''"
    and sizes: "length frame \<le> 100 * 1024 * 1024" "length reply \<le> 100 * 1024 * 1024"
    and peer: "pool_get k (sv_pool s) = Some sc" "is_authenticated sc"
    and server: "\<not> rlc_enabled (sv_rate_config s)" "map_of (sv_gates s) meth = None"
    and env: "ev_codec ev = cd" "\<forall>k bs. ev_deliver ev k bs"
    and handler: "meth \<noteq> ''listall''" "rpc_get (sv_registry s) meth = Some h"
      "run_method (ev_rpc ev) h ps = Inr v"
    and answered: "encode_rpc_response cd (sv_encoder s) v corr True now2 = (Inr reply, e2)"
  shows "\<exists>s' m. handle_event ev (MessageEvent k frame) now2 uid s
        = (s', [Dispatched meth, Sent (cn_client_id sc) reply], Some ())
    \<and> decode_single cd reply = Inr m \<and> snd (handle_decoded_message m c1)
    \<and> wait_start corr (fst (handle_decoded_message m c1)) = Some (Resolved (dm_payload m))
    \<and> read_reply (dm_payload m) = CallReturns v"
proof -
  from send_rpc_request_ok [OF sent] have enc: "encode_rpc_request cd e meth (PDict ps) None now = (Inr (frame, corr), e1)"
    and wait: "map_of (cn_pending_rpcs c1) corr = Some Waiting" by auto
  from rpc_request_encoded [OF enc laws(1,3)] obtain e0 payload where
    "encode_plain cd e0 RPC_REQUEST payload (Some corr) now = (Inr frame, e1)"
    "decode_payload cd RPC_REQUEST payload = Some (PDict [(''method'', PStr meth), (''params'', PDict ps)])"
    by (auto simp: structured_def)
  from frame_received [OF this(1) _ laws(1,2) this(2) sizes(1)] obtain r where r: "decode_single cd frame = Inr r"
    "dm_payload r = PDict [(''method'', PStr meth), (''params'', PDict ps)]" "dm_message_type r = RPC_REQUEST"
    "\<not> dm_is_mesh r" "dm_correlation_id r = corr" by auto
  let ?sc = "fst (handle_decoded_message r sc)"
  have "get_rpc_method r = PStr meth" "get_rpc_params r = ps"
    using r(2,3) by (simp_all add: get_rpc_method_def get_rpc_params_def dict_get_def)
  moreover have "gate_refusal ev ?sc meth (put_conn ?sc s) = None"
    using server(2) by (simp add: gate_refusal_def)
  moreover have "dispatch (ev_rpc ev) (sv_registry (put_conn ?sc s)) meth ps (is_authenticated ?sc)
      = Some (response_call v None)"
    using dispatch_permitted [OF handler(1,2) _ handler(3) v(2)] peer(2) by simp
  moreover have "encode_rpc_response (ev_codec ev) (sv_encoder (put_conn ?sc s)) v (dm_correlation_id r) True now2
      = (Inr reply, e2)" using answered env(1) r(5) by simp
  ultimately obtain s' where "process_rpc_request ev ?sc r now2 (put_conn ?sc s)
      = (s', [Dispatched meth, Sent (cn_client_id ?sc) reply], Some ())"
    using request_served [OF _ _ _ _ _ env(2)] by blast
  then have served: "handle_event ev (MessageEvent k frame) now2 uid s
      = (s', [Dispatched meth, Sent (cn_client_id sc) reply], Some ())"
    using authenticated_request [OF peer server(1) r(3,4)] r(1) env(1) by (simp add: handle_event_def)
  from rpc_response_encoded [OF answered v(2) laws(1,4) v(1)] obtain payload2 where
    "encode_plain cd (sv_encoder s) RPC_RESPONSE payload2 (Some corr) now2 = (Inr reply, e2)"
    "decode_payload cd RPC_RESPONSE payload2 =
      Some (PDict [(''success'', PBool True), (''result'', v), (''error'', PNone), (''code'', PInt 0)])"
    by blast
  from frame_received [OF this(1) _ laws(1,2) this(2) sizes(2)] obtain m where m: "decode_single cd reply = Inr m"
    "dm_payload m = PDict [(''success'', PBool True), (''result'', v), (''error'', PNone), (''code'', PInt 0)]"
    "dm_message_type m = RPC_RESPONSE" "dm_correlation_id m = corr" by auto
  from m wait have "snd (handle_decoded_message m c1)" by (simp add: handle_decoded_message_def Let_def)
  moreover have "wait_start corr (fst (handle_decoded_message m c1)) = Some (Resolved (dm_payload m))"
    using handle_pending [of m c1 corr] m wait by (simp add: wait_start_def)
  moreover have "read_reply (dm_payload m) = CallReturns v"
    using m(2) by (simp add: read_reply_def dict_has_def dict_get_def)
  ultimately show ?thesis using served m(1) by blast
qed

theorem rpc_end_to_end_witness:
  "\<exists>e1 c1 frame reply s' m.
     send_rpc_request call_codec (\<lambda>_. True) ''echo'' (PDict call_params) 0 (new_encoder False)
       (new_connection [] ''u'' 0 :: unit Connection) = (e1, c1, Inr 1, [([], frame)])
     \<and> handle_event (sample_env call_codec) (MessageEvent ''a'' frame) 7 [] call_server
         = (s', [Dispatched ''echo'', Sent ''a'' reply], Some ())
     \<and> decode_single call_codec reply = Inr m \<and> read_reply (dm_payload m) = CallReturns (PInt 1)"
proof -
  let ?c = "new_connection [] ''u'' 0 :: unit Connection"
  let ?e1 = "(new_encoder False)\<lparr>pe_correlation_counter := 1\<rparr>"
  obtain c1 where sent: "send_rpc_request call_codec (\<lambda>_. True) ''echo'' (PDict call_params) 0 (new_encoder False) ?c
      = (?e1, c1, Inr 1, [([], [0, 0, 0, 1, 9])])"
    by (simp add: send_rpc_request_def encode_rpc_request_def serialize_data_def encode_simps call_codec_def
        request_packet_def knows_def new_encoder_def to_bytes_be_def be_digits_numeral new_connection_def Let_def)
  have reply: "encode_rpc_response call_codec (sv_encoder call_server) (PInt 1) 1 True 7
      = (Inr [0, 0, 0, 1, 8], new_encoder False)"
    by (simp add: encode_rpc_response_def rpc_response_payload_def serialize_data_def encode_simps call_codec_def
        request_packet_def reply_packet_def knows_def new_encoder_def to_bytes_be_def be_digits_numeral
        call_server_def sample_server_def server_start_def new_server_def call_params_def)
  obtain h where h: "rpc_get echo_registry ''echo'' = Some h" "run_method echo_env h call_params = Inr (PInt 1)"
    using echo_registered [of "PInt 1"] by (auto simp: call_params_def)
  have server: "pool_get ''a'' (sv_pool call_server) = Some (mark_authenticated (new_connection ''a'' [] 0))"
    "\<not> rlc_enabled (sv_rate_config call_server)" "sv_gates call_server = []" "sv_registry call_server = echo_registry"
    by (simp_all add: call_server_def pool_get_def sample_server_def server_start_def new_server_def new_pool_def)
  have "\<exists>s' m. handle_event (sample_env call_codec) (MessageEvent ''a'' [0, 0, 0, 1, 9]) 7 [] call_server
        = (s', [Dispatched ''echo'', Sent (cn_client_id (mark_authenticated (new_connection ''a'' [] 0) :: srv_session Connection))
             [0, 0, 0, 1, 8]], Some ())
    \<and> decode_single call_codec [0, 0, 0, 1, 8] = Inr m \<and> snd (handle_decoded_message m c1)
    \<and> wait_start 1 (fst (handle_decoded_message m c1)) = Some (Resolved (dm_payload m))
    \<and> read_reply (dm_payload m) = CallReturns (PInt 1)"
    by (rule rpc_end_to_end [OF sent call_codec_laws _ _ _ _ server(1) _ server(2) _ _ _ _ _ _ reply, where h = h])
      (simp_all add: structured_def is_authenticated_def mark_authenticated_def server h sample_env_def)
  with sent show ?thesis by (fastforce simp: mark_authenticated_def new_connection_def)
qed

end
